(* ===== verification/Prelude.thy ===== *)
theory Prelude
  imports Main "HOL-Library.Word"
begin

text \<open>
  Shared vocabulary of the development: machine integers, the outcome of a Go
  function that may panic, the few functions of the Go standard library that the
  adapter uses (\<open>strings.Split\<close>, \<open>strings.TrimPrefix\<close>, \<open>strconv.ParseUint\<close>,
  \<open>strconv.FormatUint\<close>, \<open>binary.BigEndian\<close>), and lemmas on lists, maps and
  words that several components use.
\<close>

unbundle bit_operations_syntax

type_synonym u8 = "8 word"
type_synonym u16 = "16 word"
type_synonym u32 = "32 word"
type_synonym u64 = "64 word"

text \<open>
  The collections: \<open>panic_simps\<close> are the rewrite rules of the panic monad,
  \<open>fsm_intros\<close> the introduction rules of the state-machine layer.
\<close>

named_theorems panic_simps
named_theorems fsm_intros

section \<open>Outcomes\<close>

text \<open>
  A Go function either returns or panics (a nil dereference, an index out of range, a
  failed type assertion without the comma-ok form). A panic of any goroutine ends the
  process, so it is an outcome of its own and never a value.
\<close>

datatype panic = NilDeref | IndexOutOfRange | BadTypeAssertion | LogFatal

datatype 'a outcome = Done 'a | Panic panic

fun bind_outcome :: "'a outcome \<Rightarrow> ('a \<Rightarrow> 'b outcome) \<Rightarrow> 'b outcome" where
  "bind_outcome (Done x) f = f x"
| "bind_outcome (Panic p) f = Panic p"

declare bind_outcome.simps [panic_simps]

lemma bind_outcome_Done_iff [panic_simps]:
  "bind_outcome m f = Done y \<longleftrightarrow> (\<exists>x. m = Done x \<and> f x = Done y)"
  by (cases m) auto

lemma bind_outcome_assoc:
  "bind_outcome (bind_outcome m f) g = bind_outcome m (\<lambda>x. bind_outcome (f x) g)"
  by (cases m) auto

text \<open>Indexing of a slice or a string: out of range panics.\<close>

definition go_index :: "'a list \<Rightarrow> nat \<Rightarrow> 'a outcome" where
  "go_index xs i = (if i < length xs then Done (xs ! i) else Panic IndexOutOfRange)"

lemma go_index_Done [simp]: "i < length xs \<Longrightarrow> go_index xs i = Done (xs ! i)"
  by (simp add: go_index_def)

lemma go_index_Panic [simp]: "length xs \<le> i \<Longrightarrow> go_index xs i = Panic IndexOutOfRange"
  by (simp add: go_index_def)

text \<open>A method with a value receiver dereferences its pointer.\<close>

fun deref :: "'a option \<Rightarrow> 'a outcome" where
  "deref None = Panic NilDeref"
| "deref (Some x) = Done x"

text \<open>A \<open>for\<close> loop whose body may panic.\<close>

fun fold_outcome :: "('a \<Rightarrow> 's \<Rightarrow> 's outcome) \<Rightarrow> 'a list \<Rightarrow> 's \<Rightarrow> 's outcome" where
  "fold_outcome f [] s = Done s"
| "fold_outcome f (x # xs) s = bind_outcome (f x s) (fold_outcome f xs)"

lemma fold_outcome_append:
  "fold_outcome f (xs @ ys) s = bind_outcome (fold_outcome f xs s) (fold_outcome f ys)"
proof (induction xs arbitrary: s)
  case (Cons x xs)
  then show ?case by (cases "f x s") (simp_all add: panic_simps)
qed (simp add: panic_simps)

lemma fold_outcome_Done:
  "(\<And>x s. x \<in> set xs \<Longrightarrow> f x s = Done (g x s)) \<Longrightarrow> fold_outcome f xs s = Done (fold g xs s)"
  by (induction xs arbitrary: s) (simp_all add: panic_simps)

section \<open>Strings\<close>

text \<open>\<open>strings.Split(s, sep)\<close> for a separator of one byte.\<close>

fun go_split :: "char \<Rightarrow> string \<Rightarrow> string list" where
  "go_split c [] = [[]]"
| "go_split c (x # xs) =
     (if x = c then [] # go_split c xs
      else (case go_split c xs of [] \<Rightarrow> [[x]] | w # ws \<Rightarrow> (x # w) # ws))"

lemma go_split_not_Nil [simp]: "go_split c s \<noteq> []"
  by (induction s) (auto split: list.splits)

lemma go_split_no_sep: "c \<notin> set s \<Longrightarrow> go_split c s = [s]"
  by (induction s) auto

lemma go_split_append_sep:
  "c \<notin> set s \<Longrightarrow> go_split c (s @ c # t) = s # go_split c t"
  by (induction s) auto

text \<open>\<open>strings.Join\<close> as the inverse of \<open>Split\<close>.\<close>

fun go_join :: "char \<Rightarrow> string list \<Rightarrow> string" where
  "go_join c [] = []"
| "go_join c [w] = w"
| "go_join c (w # v # ws) = w @ c # go_join c (v # ws)"

lemma go_split_join:
  "ws \<noteq> [] \<Longrightarrow> (\<And>w. w \<in> set ws \<Longrightarrow> c \<notin> set w) \<Longrightarrow> go_split c (go_join c ws) = ws"
  by (induction c ws rule: go_join.induct) (auto simp: go_split_no_sep go_split_append_sep)

definition TrimPrefix :: "string \<Rightarrow> string \<Rightarrow> string" where
  "TrimPrefix s pre = (if take (length pre) s = pre then drop (length pre) s else s)"

lemma TrimPrefix_append [simp]: "TrimPrefix (pre @ s) pre = s"
  by (simp add: TrimPrefix_def)

section \<open>Numbers as text\<close>

text \<open>Digits and numerals in a base up to 16.\<close>

definition digit_char :: "nat \<Rightarrow> char" where
  "digit_char d = (if d < 10 then char_of (48 + d) else char_of (87 + d))"

definition char_digit :: "char \<Rightarrow> nat option" where
  "char_digit c =
     (let n = of_char c :: nat in
      if 48 \<le> n \<and> n \<le> 57 then Some (n - 48)
      else if 97 \<le> n \<and> n \<le> 122 then Some (n - 87)
      else if 65 \<le> n \<and> n \<le> 90 then Some (n - 55)
      else None)"

lemma of_char_digit_char: "d < 16 \<Longrightarrow> (of_char (digit_char d) :: nat) = (if d < 10 then 48 + d else 87 + d)"
  by (auto simp: digit_char_def)

lemma char_digit_digit_char [simp]: "d < 16 \<Longrightarrow> char_digit (digit_char d) = Some d"
  by (auto simp: char_digit_def of_char_digit_char Let_def)

text \<open>The magnitude that \<open>strconv.ParseUint(s, base, _)\<close> reads; \<open>None\<close> is a syntax error.\<close>

fun parse_digits :: "nat \<Rightarrow> nat \<Rightarrow> string \<Rightarrow> nat option" where
  "parse_digits b acc [] = Some acc"
| "parse_digits b acc (c # cs) =
     (case char_digit c of
        None \<Rightarrow> None
      | Some d \<Rightarrow> if d < b then parse_digits b (b * acc + d) cs else None)"

definition ParseUint :: "string \<Rightarrow> nat \<Rightarrow> nat \<Rightarrow> nat option" where
  "ParseUint s base bits =
     (if s = [] then None
      else case parse_digits base 0 s of
             None \<Rightarrow> None
           | Some n \<Rightarrow> if n < 2 ^ bits then Some n else None)"

text \<open>
  \<open>strconv.ParseInt(s, base, bits)\<close>: an optional sign, then the magnitude; the range is
  that of a signed integer of the given width.
\<close>

definition ParseInt :: "string \<Rightarrow> nat \<Rightarrow> nat \<Rightarrow> int option" where
  "ParseInt s base bits =
     (case s of
        [] \<Rightarrow> None
      | c # cs \<Rightarrow>
          if c = CHR ''-'' then
            (case ParseUint cs base 64 of
               None \<Rightarrow> None | Some n \<Rightarrow> if n \<le> 2 ^ (bits - 1) then Some (- int n) else None)
          else
            (case ParseUint (if c = CHR ''+'' then cs else s) base 64 of
               None \<Rightarrow> None | Some n \<Rightarrow> if n < 2 ^ (bits - 1) then Some (int n) else None))"

text \<open>\<open>strconv.Itoa\<close> and \<open>strconv.FormatUint\<close> in base 10.\<close>

fun format_nat :: "nat \<Rightarrow> string" where
  "format_nat n = (if n < 10 then [digit_char n] else format_nat (n div 10) @ [digit_char (n mod 10)])"

declare format_nat.simps [simp del]

lemma parse_digits_append:
  "parse_digits b acc (xs @ ys) =
     (case parse_digits b acc xs of None \<Rightarrow> None | Some a \<Rightarrow> parse_digits b a ys)"
  by (induction xs arbitrary: acc) (auto split: option.splits)

lemma format_nat_not_Nil [simp]: "format_nat n \<noteq> []"
  by (subst format_nat.simps) simp

lemma parse_format_nat: "parse_digits 10 0 (format_nat n) = Some n"
proof (induction n rule: format_nat.induct)
  case (1 n)
  show ?case
  proof (cases "n < 10")
    case True
    then show ?thesis by (subst format_nat.simps) simp
  next
    case False
    with 1 have "parse_digits 10 0 (format_nat (n div 10)) = Some (n div 10)" by simp
    with False show ?thesis
      by (subst format_nat.simps) (simp add: parse_digits_append)
  qed
qed

lemma ParseUint_format_nat [simp]: "n < 2 ^ bits \<Longrightarrow> ParseUint (format_nat n) 10 bits = Some n"
  by (simp add: ParseUint_def parse_format_nat)

lemma format_nat_inj: "format_nat m = format_nat n \<Longrightarrow> m = n"
  by (metis option.inject parse_format_nat)

section \<open>Big-endian bytes\<close>

lemmas bit_iffs =
  bit_or_iff bit_and_iff bit_push_bit_iff bit_drop_bit_eq bit_ucast_iff possible_bit_word o_apply

definition PutUint32 :: "u32 \<Rightarrow> u8 list" where
  "PutUint32 v = [ucast (drop_bit 24 v), ucast (drop_bit 16 v), ucast (drop_bit 8 v), ucast v]"

fun Uint32 :: "u8 list \<Rightarrow> u32" where
  "Uint32 (a # b # c # d # bs) =
     push_bit 24 (ucast a) OR push_bit 16 (ucast b) OR push_bit 8 (ucast c) OR ucast d"
| "Uint32 bs = 0"

definition PutUint16 :: "u16 \<Rightarrow> u8 list" where
  "PutUint16 v = [ucast (drop_bit 8 v), ucast v]"

fun Uint16 :: "u8 list \<Rightarrow> u16" where
  "Uint16 (a # b # bs) = push_bit 8 (ucast a) OR ucast b"
| "Uint16 bs = 0"

lemma length_PutUint32 [simp]: "length (PutUint32 v) = 4"
  by (simp add: PutUint32_def)

lemma length_PutUint16 [simp]: "length (PutUint16 v) = 2"
  by (simp add: PutUint16_def)

lemma Uint32_PutUint32 [simp]: "Uint32 (PutUint32 v @ rest) = v"
proof (rule bit_word_eqI)
  fix i assume "i < LENGTH(32)"
  then consider "i < 8" | "8 \<le> i \<and> i < 16" | "16 \<le> i \<and> i < 24" | "24 \<le> i \<and> i < 32"
    by fastforce
  then show "bit (Uint32 (PutUint32 v @ rest)) i \<longleftrightarrow> bit v i"
    by cases (simp_all only: PutUint32_def append_Cons Uint32.simps bit_iffs, auto)
qed

lemma Uint16_PutUint16 [simp]: "Uint16 (PutUint16 v @ rest) = v"
proof (rule bit_word_eqI)
  fix i assume "i < LENGTH(16)"
  then consider "i < 8" | "8 \<le> i \<and> i < 16" by fastforce
  then show "bit (Uint16 (PutUint16 v @ rest)) i \<longleftrightarrow> bit v i"
    by cases (simp_all only: PutUint16_def append_Cons Uint16.simps bit_iffs, auto)
qed

section \<open>Maps and lists\<close>

lemma map_of_eq_Some_in_set: "map_of xs k = Some v \<Longrightarrow> (k, v) \<in> set xs"
  by (rule map_of_SomeD)

lemma fold_invariant_on:
  "(\<And>x s. x \<in> set xs \<Longrightarrow> P s \<Longrightarrow> P (f x s)) \<Longrightarrow> P s \<Longrightarrow> P (fold f xs s)"
  by (induction xs arbitrary: s) auto

end
