(* ===== verification/Platform.thy ===== *)
theory Platform
  imports Prelude
begin

text \<open>
  Port numbering (\<open>platform.go\<close>) and the UNI port object with the OpenFlow port it
  announces (\<open>onu_uni_port.go\<close>): the system-wide UNI port number, the hardware address
  of a port and its textual forms.
\<close>

section \<open>UNI port numbers\<close>

definition bitsForUniID :: nat where "bitsForUniID = 4"

definition bitsForONUID :: nat where "bitsForONUID = 8"

definition bitsForPONID :: nat where "bitsForPONID = 8"

definition maxOnusPerPon :: nat where "maxOnusPerPon = 2 ^ bitsForONUID"

definition maxPonsPerOlt :: nat where "maxPonsPerOlt = 2 ^ bitsForPONID"

definition maxUnisPerOnu :: nat where "maxUnisPerOnu = 2 ^ bitsForUniID"

lemmas platform_consts =
  bitsForUniID_def bitsForONUID_def bitsForPONID_def maxOnusPerPon_def maxPonsPerOlt_def
  maxUnisPerOnu_def

text \<open>
  \<open>mkUniPortNum\<close>: the number, and which of the three limit checks logged a warning (the
  checks only warn, the number is built from the identifiers as they are).
\<close>

definition mkUniPortNum :: "u32 \<Rightarrow> u32 \<Rightarrow> u32 \<Rightarrow> u32" where
  "mkUniPortNum intfID onuID uniID =
     push_bit (bitsForUniID + bitsForONUID) intfID OR push_bit bitsForUniID onuID OR uniID"

definition mkUniPortNum_warnings :: "u32 \<Rightarrow> u32 \<Rightarrow> u32 \<Rightarrow> bool \<times> bool \<times> bool" where
  "mkUniPortNum_warnings intfID onuID uniID =
     (unat intfID > maxPonsPerOlt, unat onuID > maxOnusPerPon, unat uniID > maxUnisPerOnu)"

text \<open>The layout the file's header documents: \<open>pon id\<close>, \<open>onu id\<close>, \<open>uni id\<close>.\<close>

definition port_uni :: "u32 \<Rightarrow> u32" where
  "port_uni p = p AND mask 4"

definition port_onu :: "u32 \<Rightarrow> u32" where
  "port_onu p = drop_bit 4 p AND mask 8"

definition port_intf :: "u32 \<Rightarrow> u32" where
  "port_intf p = drop_bit 12 p AND mask 8"

lemma unat_less_bits_clear: "unat (w :: u32) < 2 ^ k \<Longrightarrow> k \<le> n \<Longrightarrow> \<not> bit w n"
proof -
  assume "unat w < 2 ^ k" and "k \<le> n"
  then have "unat w < 2 ^ n"
    by (meson less_le_trans one_le_numeral power_increasing)
  then have "\<not> bit (unat w) n"
    by (simp add: bit_iff_odd)
  then show ?thesis
    by (simp add: bit_unsigned_iff)
qed

lemma mkUniPortNum_fields:
  assumes "unat intf < 2 ^ 8" and "unat onu < 2 ^ 8" and "unat uni < 2 ^ 4"
  shows "port_uni (mkUniPortNum intf onu uni) = uni"
    and "port_onu (mkUniPortNum intf onu uni) = onu"
    and "port_intf (mkUniPortNum intf onu uni) = intf"
proof -
  note c = unat_less_bits_clear [OF assms(1)] unat_less_bits_clear [OF assms(2)]
    unat_less_bits_clear [OF assms(3)]
  show "port_uni (mkUniPortNum intf onu uni) = uni"
    by (rule bit_word_eqI)
      (auto simp only: port_uni_def mkUniPortNum_def platform_consts bit_iffs bit_mask_iff,
       use c in \<open>auto intro: not_less [THEN iffD1] ccontr\<close>)
  show "port_onu (mkUniPortNum intf onu uni) = onu"
    by (rule bit_word_eqI)
      (auto simp only: port_onu_def mkUniPortNum_def platform_consts bit_iffs bit_mask_iff,
       use c in \<open>auto intro: not_less [THEN iffD1] ccontr\<close>)
  show "port_intf (mkUniPortNum intf onu uni) = intf"
    by (rule bit_word_eqI)
      (auto simp only: port_intf_def mkUniPortNum_def platform_consts bit_iffs bit_mask_iff,
       use c in \<open>auto intro: not_less [THEN iffD1] ccontr\<close>)
qed

section \<open>UNI ports\<close>

type_synonym uniPortType = u8

definition uniPPTP :: uniPortType where "uniPPTP = 1"

definition uniVEIP :: uniPortType where "uniVEIP = 11"

datatype AdminState = Admin_UNKNOWN | Admin_PREPROVISIONED | Admin_ENABLED | Admin_DISABLED
  | Admin_DOWNLOADING_IMAGE | Admin_DELETED

datatype OperStatus = Oper_UNKNOWN | Oper_DISCOVERED | Oper_ACTIVATING | Oper_TESTING
  | Oper_ACTIVE | Oper_FAILED

datatype ConnectStatus = Conn_UNKNOWN | Conn_UNREACHABLE | Conn_REACHABLE

text \<open>The OpenFlow part and the VOLTHA port that the adapter announces to the core.\<close>

record OfpPort =
  Ofp_Name :: string
  HwAddr :: "u32 list"
  Config :: u32
  State :: u32
  Curr :: u32
  Advertised :: u32
  Peer :: u32
  CurrSpeed :: u32
  MaxSpeed :: u32

record VolthaPort =
  PortNo :: u32
  Label :: string
  AdminStateV :: AdminState
  OperStatusV :: OperStatus
  OfpPortV :: OfpPort

record onuUniPort =
  enabled :: bool
  name :: string
  portNo :: u32
  portType :: uniPortType
  ofpPortNo :: string
  uniID :: u8
  macBpNo :: u8
  entityID :: u16
  adminState :: AdminState
  operState :: OperStatus
  pPort :: "VolthaPort option"

definition newOnuUniPort :: "u8 \<Rightarrow> u32 \<Rightarrow> u16 \<Rightarrow> uniPortType \<Rightarrow> onuUniPort" where
  "newOnuUniPort aUniID aPortNo aInstNo aPortType =
     (let nm = ''uni-'' @ format_nat (unat aPortNo) in
      \<lparr>enabled = False, name = nm, portNo = aPortNo, portType = aPortType, ofpPortNo = nm,
       uniID = aUniID, macBpNo = aUniID + 1, entityID = aInstNo,
       adminState = Admin_ENABLED, operState = Oper_UNKNOWN, pPort = None\<rparr>)"

definition setOperState :: "OperStatus \<Rightarrow> onuUniPort \<Rightarrow> onuUniPort" where
  "setOperState aNewOperState oo = oo\<lparr>operState := aNewOperState\<rparr>"

section \<open>Hardware addresses\<close>

text \<open>\<open>fmt.Sprintf("%02x", b)\<close>, and \<open>hex.EncodeToString\<close> of a byte slice.\<close>

definition hex2 :: "u8 \<Rightarrow> string" where
  "hex2 b = [digit_char (unat b div 16), digit_char (unat b mod 16)]"

definition hexEncode :: "u8 list \<Rightarrow> string" where
  "hexEncode bs = concat (map hex2 bs)"

text \<open>The array of six octets is a list, octet 5 is printed first.\<close>

definition genMacFromOctets :: "u8 list \<Rightarrow> string" where
  "genMacFromOctets aOctets = go_join CHR '':''
     [hex2 (aOctets ! 5), hex2 (aOctets ! 4), hex2 (aOctets ! 3),
      hex2 (aOctets ! 2), hex2 (aOctets ! 1), hex2 (aOctets ! 0)]"

text \<open>\<open>macAddressToUint32Array\<close>: any part that is no number gives the fixed default.\<close>

fun parseMacParts :: "string list \<Rightarrow> u32 list option" where
  "parseMacParts [] = Some []"
| "parseMacParts (val # vals) =
     (case ParseInt val 16 32 of
        None \<Rightarrow> None
      | Some tmp \<Rightarrow> map_option (Cons (word_of_int tmp)) (parseMacParts vals))"

definition macAddressToUint32Array :: "string \<Rightarrow> u32 list" where
  "macAddressToUint32Array mac =
     (case parseMacParts (go_split CHR '':'' mac) of
        None \<Rightarrow> [1, 2, 3, 4, 5, 6]
      | Some result \<Rightarrow> result)"

text \<open>
  The octets of a new port: the defaults from the port numbers, then, if the ONU reported a
  MAC address of twelve hexadecimal digits, those of its octets that
  \<open>strconv.ParseInt(_, 16, 8)\<close> accepts.
\<close>

definition defaultOctets :: "u32 \<Rightarrow> u32 \<Rightarrow> u8 list" where
  "defaultOctets ponPortNumber pNo =
     [ucast pNo, ucast (drop_bit 8 pNo), ucast (drop_bit 16 pNo),
      ucast ponPortNumber, ucast (drop_bit 8 ponPortNumber), 8]"

definition patchOctet :: "string \<Rightarrow> nat \<Rightarrow> u8 list \<Rightarrow> u8 list" where
  "patchOctet mac idx octets =
     (case ParseInt (take 2 (drop (2 * idx) mac)) 16 8 of
        None \<Rightarrow> octets
      | Some v \<Rightarrow> octets[5 - idx := word_of_int v])"

definition macOctets :: "u32 \<Rightarrow> u32 \<Rightarrow> string option \<Rightarrow> u8 list" where
  "macOctets ponPortNumber pNo entryMac =
     (case entryMac of
        None \<Rightarrow> defaultOctets ponPortNumber pNo
      | Some mac \<Rightarrow>
          if length mac = 12 then fold (patchOctet mac) [0..<6] (defaultOctets ponPortNumber pNo)
          else defaultOctets ponPortNumber pNo)"

text \<open>
  \<open>createVolthaPort\<close>: the serial number and PON port number of the handler's device, the
  MAC address of its device entry (\<open>None\<close> if there is no entry yet) and the answer of the
  core to \<open>PortCreated\<close> are inputs. A refused announcement is logged with \<open>Fatalf\<close>,
  which ends the process.
\<close>

definition cap1GbFd :: u32 where "cap1GbFd = 32"

definition volthaPortOf :: "string \<Rightarrow> u32 \<Rightarrow> string option \<Rightarrow> onuUniPort \<Rightarrow> VolthaPort" where
  "volthaPortOf serial ponPortNumber entryMac oo =
     (let nm = serial @ ''-'' @ format_nat (unat (macBpNo oo));
          hwAddr = genMacFromOctets (macOctets ponPortNumber (portNo oo) entryMac);
          capacity = cap1GbFd OR 4096
      in \<lparr>PortNo = portNo oo, Label = name oo, AdminStateV = adminState oo,
          OperStatusV = operState oo,
          OfpPortV = \<lparr>Ofp_Name = nm, HwAddr = macAddressToUint32Array hwAddr, Config = 0,
            State = 1, Curr = capacity, Advertised = capacity, Peer = capacity,
            CurrSpeed = cap1GbFd, MaxSpeed = cap1GbFd\<rparr>\<rparr>)"

definition createVolthaPort ::
  "string \<Rightarrow> u32 \<Rightarrow> string option \<Rightarrow> (VolthaPort \<Rightarrow> bool) \<Rightarrow> onuUniPort \<Rightarrow> onuUniPort outcome" where
  "createVolthaPort serial ponPortNumber entryMac portCreated oo =
     (let pUniPort = volthaPortOf serial ponPortNumber entryMac oo in
      if portCreated pUniPort
      then Done (oo\<lparr>pPort := Some pUniPort, operState := Oper_DISCOVERED\<rparr>)
      else Panic LogFatal)"

section \<open>Facts about addresses\<close>

lemma unat_u8_less: "unat (b :: u8) < 256"
  using unsigned_less [of b, where ?'a = nat] by simp

lemma unat_u8_bounds: "unat (b :: u8) div 16 < 16" "unat (b :: u8) mod 16 < 16"
  using unat_u8_less [of b] by simp_all

lemma parse_hex2: "parse_digits 16 0 (hex2 b) = Some (unat b)"
  using unat_u8_bounds [of b] by (simp add: hex2_def)

lemma digit_char_not_sign:
  "d < 16 \<Longrightarrow> digit_char d \<noteq> CHR ''-'' \<and> digit_char d \<noteq> CHR ''+'' \<and> digit_char d \<noteq> CHR '':''"
  using of_char_digit_char [of d] by (auto split: if_splits)

lemma ParseInt_hex2:
  "ParseInt (hex2 b) 16 bits = (if unat b < 2 ^ (bits - 1) then Some (int (unat b)) else None)"
proof -
  have "unat b < 2 ^ 64"
    using unat_u8_less [of b] by simp
  then have "ParseUint (hex2 b) 16 64 = Some (unat b)"
    using parse_hex2 [of b] by (simp add: ParseUint_def hex2_def)
  then show ?thesis
    using digit_char_not_sign [OF unat_u8_bounds(1) [of b]] by (simp add: ParseInt_def hex2_def)
qed

lemma ParseInt_hex2_32: "ParseInt (hex2 b) 16 32 = Some (int (unat b))"
  using unat_u8_less [of b] by (simp add: ParseInt_hex2)

lemma hex2_no_colon: "CHR '':'' \<notin> set (hex2 b)"
  using digit_char_not_sign [OF unat_u8_bounds(1) [of b]]
    digit_char_not_sign [OF unat_u8_bounds(2) [of b]] by (auto simp: hex2_def)

lemma length_hex2 [simp]: "length (hex2 b) = 2"
  by (simp add: hex2_def)

lemma length_hexEncode [simp]: "length (hexEncode bs) = 2 * length bs"
  by (induction bs) (auto simp: hexEncode_def)

lemma hexEncode_slice:
  "i < length bs \<Longrightarrow> take 2 (drop (2 * i) (hexEncode bs)) = hex2 (bs ! i)"
proof (induction bs arbitrary: i)
  case Nil
  then show ?case by simp
next
  case (Cons b bs)
  then show ?case
    by (cases i) (auto simp: hexEncode_def)
qed

lemma parseMacParts_hex2:
  "parseMacParts (map hex2 bs) = Some (map ucast bs)"
  by (induction bs) (simp_all add: ParseInt_hex2_32)

lemma length_defaultOctets [simp]: "length (defaultOctets p n) = 6"
  by (simp add: defaultOctets_def)

lemma length_patchOctet [simp]: "length (patchOctet mac i os) = length os"
  by (simp add: patchOctet_def split: option.splits)

lemma patchOctets_apply:
  assumes "length bs = 6" and "n \<le> 6" and "length os = 6"
  shows "fold (patchOctet (hexEncode bs)) [0..<n] os =
    map (\<lambda>k. if 5 - k < n \<and> unat (bs ! (5 - k)) < 128 then bs ! (5 - k) else os ! k) [0..<6]"
  using assms(2)
proof (induction n)
  case 0
  show ?case using assms(3) map_nth [of os] by simp
next
  case (Suc n)
  then have IH: "fold (patchOctet (hexEncode bs)) [0..<n] os =
    map (\<lambda>k. if 5 - k < n \<and> unat (bs ! (5 - k)) < 128 then bs ! (5 - k) else os ! k) [0..<6]"
    and n: "n < 6" by simp_all
  have p: "ParseInt (take 2 (drop (2 * n) (hexEncode bs))) 16 8 =
      (if unat (bs ! n) < 128 then Some (int (unat (bs ! n))) else None)"
    using n assms(1) by (simp add: hexEncode_slice ParseInt_hex2)
  let ?f = "\<lambda>k. if 5 - k < n \<and> unat (bs ! (5 - k)) < 128 then bs ! (5 - k) else os ! k"
  have "fold (patchOctet (hexEncode bs)) [0..<Suc n] os = patchOctet (hexEncode bs) n (map ?f [0..<6])"
    by (simp add: IH)
  also have "\<dots> = map (\<lambda>k. if 5 - k < Suc n \<and> unat (bs ! (5 - k)) < 128 then bs ! (5 - k) else os ! k) [0..<6]"
  proof (rule nth_equalityI)
    fix k assume "k < length (patchOctet (hexEncode bs) n (map ?f [0..<6]))"
    then have "k < 6" by simp
    then show "patchOctet (hexEncode bs) n (map ?f [0..<6]) ! k =
      map (\<lambda>k. if 5 - k < Suc n \<and> unat (bs ! (5 - k)) < 128 then bs ! (5 - k) else os ! k) [0..<6] ! k"
      using n by (cases "k = 5 - n") (auto simp: patchOctet_def p nth_list_update)
  qed simp
  finally show ?case .
qed

lemma length_macOctets [simp]: "length (macOctets p n m) = 6"
proof -
  have "length (fold (patchOctet mac) xs os) = length os" for mac xs os
    by (induction xs arbitrary: os) auto
  then show ?thesis by (auto simp: macOctets_def split: option.splits)
qed

lemma macAddress_text: "length os = 6 \<Longrightarrow>
  macAddressToUint32Array (genMacFromOctets os) =
    map ucast [os ! 5, os ! 4, os ! 3, os ! 2, os ! 1, os ! 0]"
proof -
  let ?ws = "map hex2 [os ! 5, os ! 4, os ! 3, os ! 2, os ! 1, os ! 0]"
  have "genMacFromOctets os = go_join CHR '':'' ?ws"
    by (simp add: genMacFromOctets_def)
  moreover have "go_split CHR '':'' (go_join CHR '':'' ?ws) = ?ws"
    by (rule go_split_join) (auto simp: hex2_no_colon)
  ultimately show ?thesis
    by (simp only: macAddressToUint32Array_def parseMacParts_hex2) simp
qed

lemma macAddress_text_upt: "length os = 6 \<Longrightarrow>
  macAddressToUint32Array (genMacFromOctets os) = map (\<lambda>i. ucast (os ! (5 - i))) [0..<6]"
  by (simp add: macAddress_text upt_rec eval_nat_numeral)

section \<open>Properties\<close>

text \<open>The UNI port number determines its three identifiers: as long as the PON, ONU and
  UNI identifiers stay within the 8, 8 and 4 bits of the documented layout, two different
  UNIs of an OLT never get the same port number.\<close>

lemma mkUniPortNum_injective:
  assumes "unat i < 256" and "unat n < 256" and "unat u < 16"
    and "unat i' < 256" and "unat n' < 256" and "unat u' < 16"
    and "mkUniPortNum i n u = mkUniPortNum i' n' u'"
  shows "i = i' \<and> n = n' \<and> u = u'"
  using mkUniPortNum_fields [of i n u] mkUniPortNum_fields [of i' n' u'] assms by simp

lemma mkUniPortNum_injective_witness:
  "mkUniPortNum 3 7 2 \<noteq> mkUniPortNum 3 7 1"
  using mkUniPortNum_injective [of 3 7 2 3 7 1] by auto

text \<open>The limit checks of \<open>mkUniPortNum\<close> are off by one: UNI 16 of an ONU passes the
  check without a warning although it does not fit in its field, and it gets the port number
  of UNI 0 of the next ONU of the PON.\<close>

lemma mkUniPortNum_limit_collision:
  "mkUniPortNum_warnings intf onu 16 = (unat intf > 256, unat onu > 256, False) \<and>
   (\<not> bit onu 0 \<longrightarrow> mkUniPortNum intf onu 16 = mkUniPortNum intf (onu OR 1) 0)"
proof
  show "mkUniPortNum_warnings intf onu 16 = (unat intf > 256, unat onu > 256, False)"
    by (simp add: mkUniPortNum_warnings_def platform_consts)
  have "push_bit 4 (onu OR 1) = push_bit 4 onu OR (16 :: u32)"
    by (simp add: push_bit_or)
  then show "\<not> bit onu 0 \<longrightarrow> mkUniPortNum intf onu 16 = mkUniPortNum intf (onu OR 1) 0"
    by (simp add: mkUniPortNum_def platform_consts or.assoc)
qed

lemma mkUniPortNum_limit_collision_witness:
  "mkUniPortNum 1 6 16 = mkUniPortNum 1 7 0"
  using mkUniPortNum_limit_collision [of 1 6] by simp

text \<open>The textual MAC address round trip: what \<open>genMacFromOctets\<close> prints is what
  \<open>macAddressToUint32Array\<close> reads, octet by octet, highest octet first.\<close>

lemma mac_text_roundtrip:
  "macAddressToUint32Array (genMacFromOctets [a, b, c, d, e, f]) =
   [ucast f, ucast e, ucast d, ucast c, ucast b, ucast a]"
  using macAddress_text [of "[a, b, c, d, e, f]"] by (simp add: eval_nat_numeral)

text \<open>The hardware address a UNI port announces: when the ONU has reported a MAC address
  of six octets, octet \<open>i\<close> of the announced address is that of the ONU if it is below 128,
  and otherwise the default octet made from the port numbers: the octets of 128 and above are
  rejected by the signed 8-bit parse and silently replaced.\<close>

lemma createVolthaPort_hwaddr:
  assumes "length bs = 6"
    and "createVolthaPort serial pon (Some (hexEncode bs)) created oo = Done oo'"
  shows "operState oo' = Oper_DISCOVERED \<and>
    (\<exists>port. pPort oo' = Some port \<and> created port \<and>
      HwAddr (OfpPortV port) =
        map (\<lambda>i. ucast (if unat (bs ! i) < 128 then bs ! i else defaultOctets pon (portNo oo) ! (5 - i)))
          [0..<6])"
proof -
  let ?port = "volthaPortOf serial pon (Some (hexEncode bs)) oo"
  have "macOctets pon (portNo oo) (Some (hexEncode bs)) =
      map (\<lambda>k. if unat (bs ! (5 - k)) < 128 then bs ! (5 - k) else defaultOctets pon (portNo oo) ! k) [0..<6]"
    using assms(1) by (auto simp: macOctets_def patchOctets_apply)
  then have "HwAddr (OfpPortV ?port) =
      map (\<lambda>i. ucast (if unat (bs ! i) < 128 then bs ! i else defaultOctets pon (portNo oo) ! (5 - i))) [0..<6]"
    by (auto simp: volthaPortOf_def Let_def macAddress_text_upt)
  moreover from assms(2) have "created ?port \<and> oo' = oo\<lparr>pPort := Some ?port, operState := Oper_DISCOVERED\<rparr>"
    by (simp add: createVolthaPort_def Let_def split: if_splits)
  ultimately show ?thesis by simp
qed

lemma createVolthaPort_hwaddr_witness:
  "\<exists>oo'. createVolthaPort ''SN'' 1 (Some (hexEncode [0x02, 0xaa, 3, 4, 5, 6])) (\<lambda>_. True)
      (newOnuUniPort 0 16 257 1) = Done oo' \<and> operState oo' = Oper_DISCOVERED"
proof -
  let ?oo = "newOnuUniPort 0 16 257 1" and ?bs = "[0x02, 0xaa, 3, 4, 5, 6] :: u8 list"
  obtain oo' where r: "createVolthaPort ''SN'' 1 (Some (hexEncode ?bs)) (\<lambda>_. True) ?oo = Done oo'"
    by (simp add: createVolthaPort_def Let_def)
  from createVolthaPort_hwaddr [OF _ r] have "operState oo' = Oper_DISCOVERED" by simp
  with r show ?thesis by blast
qed

end
