(* ===== verification/Onu_List.thy ===== *)
theory Onu_List
  imports Platform
begin

text \<open>
  The ONU status list (\<open>onu_list_access.go\<close>), a JSON file of \<open>OnuStatus\<close> records, and
  the polling loop that reports changes of that file to the core (\<open>status.go\<close>).

  The file is absent, unreadable, not the JSON of a status list, the JSON value \<open>null\<close>
  (which decodes to a nil slice), or the JSON of a list. A Go slice that may be nil is an
  option of a list.
\<close>

record OnuStatus =
  ID :: string
  AdminStateS :: string
  OpeState :: string
  ConnectStateS :: string
  MacAddress :: string
  RebootState :: string

datatype onu_file = NoFile | Unreadable | BadJson | JsonNull | JsonList "OnuStatus list"

datatype list_error = UnmarshalError | WriteError

text \<open>
  Writing either succeeds or fails and leaves some content behind: the operating system is
  the parameter \<open>wr\<close>, \<open>None\<close> for success.
\<close>

type_synonym write_file = "OnuStatus list \<Rightarrow> onu_file option"

section \<open>Access operations\<close>

fun ReadOnuStatusList :: "onu_file \<Rightarrow> list_error + OnuStatus list option" where
  "ReadOnuStatusList NoFile = Inr None"
| "ReadOnuStatusList Unreadable = Inl UnmarshalError"
| "ReadOnuStatusList BadJson = Inl UnmarshalError"
| "ReadOnuStatusList JsonNull = Inr None"
| "ReadOnuStatusList (JsonList xs) = Inr (Some xs)"

definition WriteOnuStatusList :: "write_file \<Rightarrow> OnuStatus list \<Rightarrow> list_error option \<times> onu_file" where
  "WriteOnuStatusList wr xs =
     (case wr xs of None \<Rightarrow> (None, JsonList xs) | Some f \<Rightarrow> (Some WriteError, f))"

definition AddOnu :: "write_file \<Rightarrow> OnuStatus \<Rightarrow> onu_file \<Rightarrow> list_error option \<times> onu_file" where
  "AddOnu wr sts f =
     (case ReadOnuStatusList f of
        Inl e \<Rightarrow> (Some e, f)
      | Inr None \<Rightarrow> WriteOnuStatusList wr [sts]
      | Inr (Some xs) \<Rightarrow> WriteOnuStatusList wr (xs @ [sts]))"

fun update_list :: "OnuStatus \<Rightarrow> OnuStatus list \<Rightarrow> OnuStatus list" where
  "update_list upSts [] = []"
| "update_list upSts (sts # xs) =
     (if ID sts = ID upSts then upSts else sts) # update_list upSts xs"

definition UpdateOnu :: "write_file \<Rightarrow> OnuStatus \<Rightarrow> onu_file \<Rightarrow> list_error option \<times> onu_file" where
  "UpdateOnu wr upSts f =
     (case ReadOnuStatusList f of
        Inl e \<Rightarrow> (Some e, f)
      | Inr None \<Rightarrow> (None, f)
      | Inr (Some xs) \<Rightarrow> WriteOnuStatusList wr (update_list upSts xs))"

fun remove_list :: "string \<Rightarrow> OnuStatus list \<Rightarrow> OnuStatus list" where
  "remove_list i [] = []"
| "remove_list i (sts # xs) = (if ID sts \<noteq> i then sts # remove_list i xs else remove_list i xs)"

definition RemoveOnu :: "write_file \<Rightarrow> string \<Rightarrow> onu_file \<Rightarrow> list_error option \<times> onu_file" where
  "RemoveOnu wr i f =
     (case ReadOnuStatusList f of
        Inl e \<Rightarrow> (Some e, f)
      | Inr None \<Rightarrow> (None, f)
      | Inr (Some xs) \<Rightarrow> WriteOnuStatusList wr (remove_list i xs))"

text \<open>
  \<open>GetOnuFromDeviceID\<close> compares with \<open>!=\<close>, as the code does;
  \<open>GetOnuFromMacAddr\<close> compares with \<open>==\<close>.
\<close>

definition GetOnuFromDeviceID :: "string \<Rightarrow> onu_file \<Rightarrow> list_error + OnuStatus option" where
  "GetOnuFromDeviceID i f =
     (case ReadOnuStatusList f of
        Inl e \<Rightarrow> Inl e
      | Inr None \<Rightarrow> Inr None
      | Inr (Some xs) \<Rightarrow> Inr (find (\<lambda>sts. ID sts \<noteq> i) xs))"

definition GetOnuFromMacAddr :: "string \<Rightarrow> onu_file \<Rightarrow> list_error + OnuStatus option" where
  "GetOnuFromMacAddr addr f =
     (case ReadOnuStatusList f of
        Inl e \<Rightarrow> Inl e
      | Inr None \<Rightarrow> Inr None
      | Inr (Some xs) \<Rightarrow> Inr (find (\<lambda>sts. MacAddress sts = addr) xs))"

section \<open>Polling\<close>

definition ConnectStatus_value :: "string \<Rightarrow> ConnectStatus" where
  "ConnectStatus_value s =
     (if s = ''UNREACHABLE'' then Conn_UNREACHABLE else if s = ''REACHABLE'' then Conn_REACHABLE
      else Conn_UNKNOWN)"

definition OperStatus_value :: "string \<Rightarrow> OperStatus" where
  "OperStatus_value s =
     (if s = ''DISCOVERED'' then Oper_DISCOVERED else if s = ''ACTIVATING'' then Oper_ACTIVATING
      else if s = ''TESTING'' then Oper_TESTING else if s = ''ACTIVE'' then Oper_ACTIVE
      else if s = ''FAILED'' then Oper_FAILED else Oper_UNKNOWN)"

type_synonym state_update = "string \<times> ConnectStatus \<times> OperStatus"

text \<open>
  One ONU of one tick: the call to the core's \<open>DeviceStateUpdate\<close> is recorded whatever the
  core answers, and the ONU becomes the previous one in every case.
\<close>

definition watch_changed :: "(string \<rightharpoonup> OnuStatus) \<Rightarrow> OnuStatus \<Rightarrow> bool" where
  "watch_changed prevOnuList onu =
     (case prevOnuList (MacAddress onu) of
        None \<Rightarrow> True
      | Some current \<Rightarrow> OpeState onu \<noteq> OpeState current \<or> ConnectStateS onu \<noteq> ConnectStateS current)"

fun watch_tick :: "OnuStatus list \<Rightarrow> (string \<rightharpoonup> OnuStatus) \<Rightarrow> state_update list \<times> (string \<rightharpoonup> OnuStatus)" where
  "watch_tick [] prev = ([], prev)"
| "watch_tick (onu # onus) prev =
     (if watch_changed prev onu then
        (let (calls, prev') = watch_tick onus (prev(MacAddress onu \<mapsto> onu))
         in ((ID onu, ConnectStatus_value (ConnectStateS onu), OperStatus_value (OpeState onu)) # calls, prev'))
      else watch_tick onus prev)"

text \<open>\<open>WatchStatus\<close> over the file contents its ticks read; only the first call runs.\<close>

fun watch_loop :: "onu_file list \<Rightarrow> (string \<rightharpoonup> OnuStatus) \<Rightarrow> state_update list" where
  "watch_loop [] prev = []"
| "watch_loop (f # fs) prev =
     (case ReadOnuStatusList f of
        Inl e \<Rightarrow> watch_loop fs prev
      | Inr None \<Rightarrow> watch_loop fs prev
      | Inr (Some onus) \<Rightarrow> (let (calls, prev') = watch_tick onus prev in calls @ watch_loop fs prev'))"

definition WatchStatus :: "onu_file list \<Rightarrow> bool \<Rightarrow> state_update list \<times> bool" where
  "WatchStatus ticks startWatchStatus =
     (if startWatchStatus then ([], True) else (watch_loop ticks Map.empty, True))"

section \<open>The store interface\<close>

text \<open>
  What a client of the status file relies on: each operation that reports success has the
  effect of the corresponding list operation on the recorded ONUs, and an operation that
  cannot read the file changes nothing.
\<close>

locale status_store =
  fixes items :: "'f \<Rightarrow> OnuStatus list"
    and add :: "OnuStatus \<Rightarrow> 'f \<Rightarrow> 'e option \<times> 'f"
    and upd :: "OnuStatus \<Rightarrow> 'f \<Rightarrow> 'e option \<times> 'f"
    and del :: "string \<Rightarrow> 'f \<Rightarrow> 'e option \<times> 'f"
  assumes items_add: "add s f = (None, f') \<Longrightarrow> items f' = items f @ [s]"
    and items_upd: "upd s f = (None, f') \<Longrightarrow>
      items f' = map (\<lambda>x. if ID x = ID s then s else x) (items f)"
    and items_del: "del i f = (None, f') \<Longrightarrow> items f' = filter (\<lambda>x. ID x \<noteq> i) (items f)"
begin

lemma upd_keeps_ids: "upd s f = (None, f') \<Longrightarrow> map ID (items f') = map ID (items f)"
  by (simp add: items_upd)

lemma del_gone: "del i f = (None, f') \<Longrightarrow> i \<notin> ID ` set (items f')"
  by (auto simp: items_del)

lemma add_then_del:
  "add s f = (None, f1) \<Longrightarrow> ID s \<notin> ID ` set (items f) \<Longrightarrow> del (ID s) f1 = (None, f2) \<Longrightarrow>
   items f2 = items f"
  by (auto simp: items_add items_del filter_id_conv image_iff)

end

definition file_items :: "onu_file \<Rightarrow> OnuStatus list" where
  "file_items f = (case f of JsonList xs \<Rightarrow> xs | _ \<Rightarrow> [])"

lemma update_list_map: "update_list u xs = map (\<lambda>x. if ID x = ID u then u else x) xs"
  by (induction xs) auto

lemma remove_list_filter: "remove_list i xs = filter (\<lambda>x. ID x \<noteq> i) xs"
  by (induction xs) auto

lemma WriteOnuStatusList_ok: "WriteOnuStatusList wr xs = (None, f') \<Longrightarrow> f' = JsonList xs"
  by (auto simp: WriteOnuStatusList_def split: option.splits)

interpretation onu_file_store: status_store file_items "AddOnu wr" "UpdateOnu wr" "RemoveOnu wr" for wr
proof (unfold_locales, goal_cases)
  case (1 s f f')
  then show ?case
    by (cases f) (auto simp: AddOnu_def file_items_def dest: WriteOnuStatusList_ok)
next
  case (2 s f f')
  then show ?case
    by (cases f) (auto simp: UpdateOnu_def file_items_def update_list_map dest!: WriteOnuStatusList_ok)
next
  case (3 i f f')
  then show ?case
    by (cases f) (auto simp: RemoveOnu_def file_items_def remove_list_filter dest!: WriteOnuStatusList_ok)
qed

section \<open>Facts about polling\<close>

lemma watch_tick_Cons:
  "snd (watch_tick (x # onus) prev) =
   snd (watch_tick onus (if watch_changed prev x then prev(MacAddress x \<mapsto> x) else prev))"
  by (simp split: prod.splits)

lemma watch_changed_cong:
  "prev (MacAddress x) = prev' (MacAddress x) \<Longrightarrow> watch_changed prev x = watch_changed prev' x"
  by (simp add: watch_changed_def)

lemma watch_changed_self [simp]: "\<not> watch_changed (prev(MacAddress x \<mapsto> x)) x"
  by (simp add: watch_changed_def)

lemma watch_tick_other:
  "m \<notin> MacAddress ` set onus \<Longrightarrow> snd (watch_tick onus prev) m = prev m"
  by (induction onus arbitrary: prev) (auto simp: watch_tick_Cons simp del: watch_tick.simps(2))

lemma watch_tick_records:
  "distinct (map MacAddress onus) \<Longrightarrow> onu \<in> set onus \<Longrightarrow>
   \<not> watch_changed (snd (watch_tick onus prev)) onu"
proof (induction onus arbitrary: prev)
  case Nil
  then show ?case by simp
next
  case (Cons x onus)
  let ?prev = "if watch_changed prev x then prev(MacAddress x \<mapsto> x) else prev"
  show ?case
  proof (cases "onu = x")
    case True
    with Cons.prems have "snd (watch_tick (x # onus) prev) (MacAddress x) = ?prev (MacAddress x)"
      by (simp add: watch_tick_Cons watch_tick_other del: watch_tick.simps)
    then have "watch_changed (snd (watch_tick (x # onus) prev)) x = watch_changed ?prev x"
      by (rule watch_changed_cong)
    with True show ?thesis by simp
  next
    case False
    with Cons.prems have "\<not> watch_changed (snd (watch_tick onus ?prev)) onu"
      by (intro Cons.IH) auto
    then show ?thesis by (simp only: watch_tick_Cons not_False_eq_True)
  qed
qed

lemma watch_tick_quiet:
  "(\<And>onu. onu \<in> set onus \<Longrightarrow> \<not> watch_changed prev onu) \<Longrightarrow> watch_tick onus prev = ([], prev)"
  by (induction onus prev rule: watch_tick.induct) auto

section \<open>Properties\<close>

text \<open>After a successful removal no record of the device is left, all other records are
  kept in order, and adding a new device and removing it again restores the list.\<close>

lemma RemoveOnu_exact:
  assumes "AddOnu wr s f = (None, f1)" and "ID s \<notin> ID ` set (file_items f)"
    and "RemoveOnu wr (ID s) f1 = (None, f2)"
  shows "file_items f2 = file_items f \<and> ID s \<notin> ID ` set (file_items f2)"
  using onu_file_store.add_then_del [OF assms] onu_file_store.del_gone [OF assms(3)] by simp

definition sample_onu :: OnuStatus where
  "sample_onu = \<lparr>ID = ''d1'', AdminStateS = ''ENABLED'', OpeState = ''ACTIVE'',
     ConnectStateS = ''REACHABLE'', MacAddress = ''02:00'', RebootState = ''''\<rparr>"

lemma RemoveOnu_exact_witness:
  "file_items (snd (RemoveOnu (\<lambda>_. None) ''d1'' (snd (AddOnu (\<lambda>_. None) sample_onu NoFile)))) =
   file_items NoFile"
  using RemoveOnu_exact [of "\<lambda>_. None" sample_onu NoFile "JsonList [sample_onu]" "JsonList []"]
  by (simp add: AddOnu_def RemoveOnu_def WriteOnuStatusList_def file_items_def sample_onu_def)

text \<open>\<open>GetOnuFromDeviceID\<close> never returns the record of the requested device: whatever
  it returns is the record of another device, and in a list with the requested device alone it
  finds nothing.\<close>

lemma GetOnuFromDeviceID_wrong_device:
  "(\<forall>sts. GetOnuFromDeviceID i f = Inr (Some sts) \<longrightarrow> ID sts \<noteq> i) \<and>
   (ID s = i \<longrightarrow> GetOnuFromDeviceID i (JsonList [s]) = Inr None)"
  by (cases f) (auto simp: GetOnuFromDeviceID_def find_Some_iff)

lemma GetOnuFromDeviceID_wrong_device_witness:
  "GetOnuFromDeviceID ''d1'' (JsonList [sample_onu]) = Inr None"
  using GetOnuFromDeviceID_wrong_device [of "''d1''" NoFile sample_onu] by (simp add: sample_onu_def)

text \<open>The polling loop reports changes only: once a tick has seen a list of ONUs with
  distinct MAC addresses, every further tick over the same list makes no call to the core and
  keeps its memory.\<close>

lemma watch_tick_idempotent:
  assumes "distinct (map MacAddress onus)"
  shows "watch_tick onus (snd (watch_tick onus prev)) = ([], snd (watch_tick onus prev))"
  using watch_tick_records [OF assms] by (rule watch_tick_quiet)

lemma watch_tick_idempotent_witness:
  "watch_tick [sample_onu] (snd (watch_tick [sample_onu] Map.empty)) =
   ([], snd (watch_tick [sample_onu] Map.empty))"
  by (rule watch_tick_idempotent) simp

end
