(* ===== verification/Me_Db.thy ===== *)
theory Me_Db
  imports Complex_Main Prelude "HOL-Library.AList"
begin

text \<open>
  The database of managed entities that an ONU reported (\<open>onu_device_db.go\<close>): class
  identifiers to instance identifiers to attribute maps. A Go map is an association list
  with distinct keys; the order of the list is one of the orders Go may iterate it in.

  The locale \<open>me_store\<close> states what the MIB upload, the MIB template and the ANI
  configuration rely on; the database interprets it.
\<close>

section \<open>Attributes\<close>

text \<open>
  The dynamic type of an attribute value. JSON numbers of a MIB template arrive as
  \<open>float64\<close>, arrays and objects as \<open>[]interface{}\<close> and \<open>map[string]interface{}\<close>;
  \<open>ANil\<close> is an interface that holds nothing.
\<close>

datatype attr_val = ANil | AU8 u8 | AU16 u16 | AU32 u32 | AInt int | AFloat rat
  | AStr string | AOctets "u8 list" | AU16s "u16 list"
  | ABool bool | AArr "attr_val list" | AObj "(string \<times> attr_val) list"

type_synonym attrs = "(string \<times> attr_val) list"

text \<open>\<open>m[k]\<close> of a map of interfaces: a missing key reads as nil.\<close>

definition attr_at :: "attrs \<Rightarrow> string \<Rightarrow> attr_val" where
  "attr_at m k = (case map_of m k of None \<Rightarrow> ANil | Some v \<Rightarrow> v)"

type_synonym classID = u16
type_synonym meDbMap = "(classID \<times> (u16 \<times> attrs) list) list"

record onuDeviceDB =
  meDb :: meDbMap

definition newOnuDeviceDB :: onuDeviceDB where
  "newOnuDeviceDB = \<lparr>meDb = []\<rparr>"

definition OnuDataClassID :: classID where "OnuDataClassID = 2"

section \<open>Operations\<close>

definition merge_attrs :: "attrs \<Rightarrow> attrs \<Rightarrow> attrs" where
  "merge_attrs new old = fold (\<lambda>(k, v) m. AList.update k v m) new old"

definition PutMe :: "classID \<Rightarrow> u16 \<Rightarrow> attrs \<Rightarrow> onuDeviceDB \<Rightarrow> onuDeviceDB" where
  "PutMe meClassID meEntityID meAttributes db =
     (if meClassID = OnuDataClassID then db
      else
        (case map_of (meDb db) meClassID of
           None \<Rightarrow> db\<lparr>meDb := AList.update meClassID [(meEntityID, meAttributes)] (meDb db)\<rparr>
         | Some meInstMap \<Rightarrow>
             (case map_of meInstMap meEntityID of
                None \<Rightarrow> db\<lparr>meDb := AList.update meClassID
                          (AList.update meEntityID meAttributes meInstMap) (meDb db)\<rparr>
              | Some meAttribs \<Rightarrow> db\<lparr>meDb := AList.update meClassID
                          (AList.update meEntityID (merge_attrs meAttributes meAttribs) meInstMap)
                          (meDb db)\<rparr>)))"

definition instances :: "onuDeviceDB \<Rightarrow> classID \<Rightarrow> (u16 \<times> attrs) list" where
  "instances db meClassID = (case map_of (meDb db) meClassID of None \<Rightarrow> [] | Some m \<Rightarrow> m)"

definition GetMe :: "onuDeviceDB \<Rightarrow> classID \<Rightarrow> u16 \<Rightarrow> attrs option" where
  "GetMe db meClassID meEntityID = map_of (instances db meClassID) meEntityID"

datatype db_error = WrongInterfaceType

text \<open>
  \<open>getUint32Attrib\<close>: \<open>uint32(x)\<close> of a float truncates towards zero; where the result
  is not representable Go leaves it to the implementation, the parameter \<open>f2u\<close>.
\<close>

definition float_to_uint32 :: "(rat \<Rightarrow> u32) \<Rightarrow> rat \<Rightarrow> u32" where
  "float_to_uint32 f2u r =
     (if - 1 < r \<and> r < 2 ^ 32 then word_of_int (if r < 0 then 0 else \<lfloor>r\<rfloor>) else f2u r)"

fun getUint32Attrib :: "(rat \<Rightarrow> u32) \<Rightarrow> attr_val \<Rightarrow> (db_error + u32) outcome" where
  "getUint32Attrib f2u ANil = Panic NilDeref"
| "getUint32Attrib f2u (AFloat r) = Done (Inr (float_to_uint32 f2u r))"
| "getUint32Attrib f2u (AU32 w) = Done (Inr w)"
| "getUint32Attrib f2u _ = Done (Inl WrongInterfaceType)"

definition getSortedInstKeys :: "onuDeviceDB \<Rightarrow> classID \<Rightarrow> u16 list" where
  "getSortedInstKeys db meClassID = sort (map fst (instances db meClassID))"

section \<open>Well-formed databases\<close>

definition db_wf :: "onuDeviceDB \<Rightarrow> bool" where
  "db_wf db \<longleftrightarrow> distinct (map fst (meDb db)) \<and>
     list_all (\<lambda>(c, insts). distinct (map fst insts) \<and> c \<noteq> OnuDataClassID \<and> insts \<noteq> []) (meDb db)"

lemma db_wf_new [simp]: "db_wf newOnuDeviceDB"
  by (simp add: db_wf_def newOnuDeviceDB_def)

lemma db_wf_instances: "db_wf db \<Longrightarrow> distinct (map fst (instances db c))"
  by (auto simp: db_wf_def instances_def list_all_iff split: option.splits dest: map_of_SomeD)

lemma update_not_Nil [simp]: "AList.update k v m \<noteq> []"
  by (cases m) auto

lemma set_update_subset: "set (AList.update k v m) \<subseteq> insert (k, v) (set m)"
  by (induction m) auto

lemma db_wf_update:
  assumes "db_wf db" and "distinct (map fst insts)" and "c \<noteq> OnuDataClassID" and "insts \<noteq> []"
  shows "db_wf (db\<lparr>meDb := AList.update c insts (meDb db)\<rparr>)"
proof -
  have "list_all (\<lambda>(c, insts). distinct (map fst insts) \<and> c \<noteq> OnuDataClassID \<and> insts \<noteq> [])
      (AList.update c insts (meDb db))"
    using assms set_update_subset [of c insts "meDb db"]
    by (auto simp: db_wf_def list_all_iff)
  with assms(1) show ?thesis by (simp add: db_wf_def distinct_update)
qed

lemma db_wf_PutMe: "db_wf db \<Longrightarrow> db_wf (PutMe c i a db)"
  using db_wf_instances [of db c]
  by (auto simp: PutMe_def instances_def distinct_update intro!: db_wf_update split: option.splits)

lemma map_of_merge_attrs:
  "distinct (map fst new) \<Longrightarrow> map_of (merge_attrs new old) = map_of old ++ map_of new"
proof (induction new arbitrary: old)
  case Nil
  then show ?case by (simp add: merge_attrs_def)
next
  case (Cons x new)
  obtain k v where x: "x = (k, v)" by (cases x)
  from Cons.prems have "distinct (map fst new)" and k: "k \<notin> fst ` set new" by (auto simp: x)
  from Cons.IH [OF this(1), of "AList.update k v old"]
  have "map_of (merge_attrs (x # new) old) = (map_of old)(k \<mapsto> v) ++ map_of new"
    by (simp add: x merge_attrs_def update_conv' fun_upd_def)
  also have "\<dots> = map_of old ++ map_of (x # new)"
  proof -
    from k have "map_of new k = None" by (simp add: map_of_eq_None_iff)
    then show ?thesis by (auto simp: x map_add_def fun_eq_iff split: option.splits)
  qed
  finally show ?case .
qed

lemma instances_PutMe:
  "c \<noteq> OnuDataClassID \<Longrightarrow>
   map_of (instances (PutMe c i a db) c') =
     (if c' = c then (map_of (instances db c))
        (i \<mapsto> (case map_of (instances db c) i of None \<Rightarrow> a | Some old \<Rightarrow> merge_attrs a old))
      else map_of (instances db c'))"
  by (auto simp: PutMe_def instances_def update_conv' split: option.splits)

section \<open>The interface\<close>

text \<open>
  \<open>get\<close> reads an instance as a map from attribute names; \<open>put\<close> merges attributes into
  an instance, except for the class \<open>hidden\<close> whose instances are never stored;
  \<open>keys\<close> lists the instances of a class in ascending order.
\<close>

locale me_store =
  fixes get :: "'db \<Rightarrow> classID \<Rightarrow> u16 \<Rightarrow> (string \<rightharpoonup> attr_val) option"
    and put :: "classID \<Rightarrow> u16 \<Rightarrow> attrs \<Rightarrow> 'db \<Rightarrow> 'db"
    and keys :: "'db \<Rightarrow> classID \<Rightarrow> u16 list"
    and wf_db :: "'db \<Rightarrow> bool"
    and hidden :: classID
  assumes put_wf: "wf_db db \<Longrightarrow> wf_db (put c i a db)"
    and get_put: "wf_db db \<Longrightarrow> c \<noteq> hidden \<Longrightarrow> distinct (map fst a) \<Longrightarrow>
      get (put c i a db) c i =
        Some ((case get db c i of None \<Rightarrow> Map.empty | Some m \<Rightarrow> m) ++ map_of a)"
    and get_put_other: "wf_db db \<Longrightarrow> (c, i) \<noteq> (c', i') \<Longrightarrow> get (put c i a db) c' i' = get db c' i'"
    and put_hidden: "put hidden i a db = db"
    and keys_sorted: "wf_db db \<Longrightarrow> sorted (keys db c) \<and> distinct (keys db c)"
    and keys_iff: "wf_db db \<Longrightarrow> i \<in> set (keys db c) \<longleftrightarrow> get db c i \<noteq> None"
begin

definition put_all :: "(classID \<times> u16 \<times> attrs) list \<Rightarrow> 'db \<Rightarrow> 'db" where
  "put_all mes db = fold (\<lambda>(c, i, a). put c i a) mes db"

lemma put_all_wf: "wf_db db \<Longrightarrow> wf_db (put_all mes db)"
  unfolding put_all_def by (rule fold_invariant_on) (auto intro: put_wf)

lemma put_keys:
  assumes "wf_db db" and "c \<noteq> hidden" and "distinct (map fst a)"
  shows "i' \<in> set (keys (put c i a db) c') \<longleftrightarrow> i' \<in> set (keys db c') \<or> (c', i') = (c, i)"
  using assms by (cases "(c, i) = (c', i')") (auto simp: keys_iff put_wf get_put get_put_other)

text \<open>What is in the store after a sequence of reports: the old instances and the reported
  ones, each class in ascending order.\<close>

lemma put_all_keys:
  "wf_db db \<Longrightarrow> list_all (\<lambda>(c, i, a). c \<noteq> hidden \<and> distinct (map fst a)) mes \<Longrightarrow>
   i' \<in> set (keys (put_all mes db) c') \<longleftrightarrow>
     i' \<in> set (keys db c') \<or> (\<exists>a. (c', i', a) \<in> set mes)"
proof (induction mes arbitrary: db)
  case Nil
  then show ?case by (simp add: put_all_def)
next
  case (Cons me mes)
  obtain c i a where me: "me = (c, i, a)" by (cases me)
  have "put_all (me # mes) db = put_all mes (put c i a db)"
    by (simp add: put_all_def me)
  moreover from Cons.prems(2) have m: "c \<noteq> hidden" "distinct (map fst a)"
    by (auto simp: me)
  moreover have "i' \<in> set (keys (put_all mes (put c i a db)) c') \<longleftrightarrow>
      i' \<in> set (keys (put c i a db) c') \<or> (\<exists>a. (c', i', a) \<in> set mes)"
    by (rule Cons.IH [OF put_wf [OF Cons.prems(1)]]) (use Cons.prems(2) in auto)
  ultimately show ?case
    using put_keys [OF Cons.prems(1) m] by (auto simp: me)
qed

lemma put_all_append: "put_all (xs @ ys) db = put_all ys (put_all xs db)"
  by (simp add: put_all_def)

lemma put_all_hidden: "put_all (map (\<lambda>(i, a). (hidden, i, a)) xs) db = db"
  by (induction xs) (auto simp: put_all_def put_hidden)

end

definition lookup_me :: "onuDeviceDB \<Rightarrow> classID \<Rightarrow> u16 \<Rightarrow> (string \<rightharpoonup> attr_val) option" where
  "lookup_me db c i = map_option map_of (GetMe db c i)"

interpretation onu_db: me_store lookup_me PutMe getSortedInstKeys db_wf OnuDataClassID
proof (unfold_locales, goal_cases)
  case (1 db c i a)
  then show ?case by (rule db_wf_PutMe)
next
  case (2 db c a i)
  then show ?case
    by (auto simp: lookup_me_def GetMe_def instances_PutMe map_of_merge_attrs split: option.splits)
next
  case (3 db c i c' i' a)
  then show ?case
  proof (cases "c = OnuDataClassID")
    case True
    then show ?thesis by (simp add: PutMe_def)
  next
    case False
    with 3 show ?thesis by (auto simp: lookup_me_def GetMe_def instances_PutMe)
  qed
next
  case (4 i a db)
  show ?case by (simp add: PutMe_def)
next
  case (5 db c)
  then show ?case by (simp add: getSortedInstKeys_def db_wf_instances)
next
  case (6 db i c)
  then show ?case
    by (auto simp: getSortedInstKeys_def lookup_me_def GetMe_def map_of_eq_None_iff)
qed

section \<open>Properties\<close>

text \<open>A report of a managed entity is merged into the database: every reported attribute
  has its reported value, every attribute that was there and not reported keeps its value, and
  no other instance changes; reports of the class ONU-Data are dropped.\<close>

lemma PutMe_merges:
  assumes "db_wf db" and "distinct (map fst a)" and "c \<noteq> OnuDataClassID"
  shows "lookup_me (PutMe c i a db) c i =
      Some ((case lookup_me db c i of None \<Rightarrow> Map.empty | Some m \<Rightarrow> m) ++ map_of a) \<and>
    lookup_me (PutMe c i a db) c' i' = (if (c, i) = (c', i')
      then lookup_me (PutMe c i a db) c i else lookup_me db c' i') \<and>
    PutMe OnuDataClassID i a db = db"
  using onu_db.get_put [OF assms(1,3,2)] onu_db.get_put_other [OF assms(1), of c i c' i']
    onu_db.put_hidden by simp

lemma PutMe_merges_witness:
  "lookup_me (PutMe 264 1 [(''A'', AU8 1)] newOnuDeviceDB) 264 1 = Some [''A'' \<mapsto> AU8 1]"
proof -
  have "lookup_me newOnuDeviceDB 264 1 = None"
    by (simp add: lookup_me_def GetMe_def instances_def newOnuDeviceDB_def)
  moreover have "(264 :: classID) \<noteq> OnuDataClassID" by (simp add: OnuDataClassID_def)
  ultimately show ?thesis
    using PutMe_merges [OF db_wf_new, of "[(''A'', AU8 1)]" 264 1 264 2] by simp
qed

text \<open>After a sequence of reports the instances of a class are exactly those that were
  there or were reported, listed in strictly ascending order without duplicates.\<close>

lemma getSortedInstKeys_after_reports:
  assumes "db_wf db"
    and "list_all (\<lambda>(c, i, a). c \<noteq> OnuDataClassID \<and> distinct (map fst a)) mes"
  shows "sorted_wrt (<) (getSortedInstKeys (fold (\<lambda>(c, i, a). PutMe c i a) mes db) k) \<and>
    set (getSortedInstKeys (fold (\<lambda>(c, i, a). PutMe c i a) mes db) k) =
      set (getSortedInstKeys db k) \<union> {i. \<exists>a. (k, i, a) \<in> set mes}"
  using onu_db.keys_sorted [OF onu_db.put_all_wf [OF assms(1)], of mes k]
    onu_db.put_all_keys [OF assms, of _ k]
  by (auto simp: onu_db.put_all_def strict_sorted_iff)

lemma getSortedInstKeys_after_reports_witness:
  "set (getSortedInstKeys (fold (\<lambda>(c, i, a). PutMe c i a) [(264, 2, []), (264, 1, [])] newOnuDeviceDB) 264)
   = {1, 2}"
proof -
  have "getSortedInstKeys newOnuDeviceDB 264 = []"
    by (simp add: getSortedInstKeys_def newOnuDeviceDB_def instances_def)
  then show ?thesis
    using getSortedInstKeys_after_reports [OF db_wf_new, of "[(264, 2, []), (264, 1, [])]" 264]
    by (auto simp: OnuDataClassID_def)
qed

end
