(* ===== verification/Omci_Msg.thy ===== *)
theory Omci_Msg
  imports Platform Me_Db
begin

text \<open>
  The vocabulary of OMCI: managed entity classes and instances, the requests the adapter
  composes and the responses it decodes, and the messages that travel on the Go channels
  between the OMCI channel and the configuration machines (\<open>messageTypes.go\<close>).

  Encoding and decoding of frames is the library \<open>omci-lib-go\<close>. It appears as the
  parameter \<open>omciLib\<close>: which parameters a class accepts, which requests it can encode and
  serialize, and what it decodes from received bytes. A composed request is kept symbolic.
\<close>

section \<open>Managed entities\<close>

definition SoftwareImageClassID :: classID where "SoftwareImageClassID = 7"
definition MacBridgeServiceProfileClassID :: classID where "MacBridgeServiceProfileClassID = 45"
definition MacBridgePortConfigurationDataClassID :: classID where
  "MacBridgePortConfigurationDataClassID = 47"
definition VlanTaggingFilterDataClassID :: classID where "VlanTaggingFilterDataClassID = 84"
definition Ieee8021PMapperServiceProfileClassID :: classID where
  "Ieee8021PMapperServiceProfileClassID = 130"
definition IpHostConfigDataClassID :: classID where "IpHostConfigDataClassID = 134"
definition ExtendedVlanTaggingOperationConfigurationDataClassID :: classID where
  "ExtendedVlanTaggingOperationConfigurationDataClassID = 171"
definition OnuGClassID :: classID where "OnuGClassID = 256"
definition Onu2GClassID :: classID where "Onu2GClassID = 257"
definition TContClassID :: classID where "TContClassID = 262"
definition UniGClassID :: classID where "UniGClassID = 264"
definition GemInterworkingTerminationPointClassID :: classID where
  "GemInterworkingTerminationPointClassID = 266"
definition GemPortNetworkCtpClassID :: classID where "GemPortNetworkCtpClassID = 268"
definition GalEthernetProfileClassID :: classID where "GalEthernetProfileClassID = 272"
definition PriorityQueueClassID :: classID where "PriorityQueueClassID = 277"
definition VirtualEthernetInterfacePointClassID :: classID where
  "VirtualEthernetInterfacePointClassID = 329"

lemmas class_ids = OnuDataClassID_def SoftwareImageClassID_def MacBridgeServiceProfileClassID_def
  MacBridgePortConfigurationDataClassID_def VlanTaggingFilterDataClassID_def
  Ieee8021PMapperServiceProfileClassID_def IpHostConfigDataClassID_def
  ExtendedVlanTaggingOperationConfigurationDataClassID_def OnuGClassID_def Onu2GClassID_def
  TContClassID_def UniGClassID_def GemInterworkingTerminationPointClassID_def
  GemPortNetworkCtpClassID_def GalEthernetProfileClassID_def PriorityQueueClassID_def
  VirtualEthernetInterfacePointClassID_def

text \<open>\<open>GetName\<close> of the classes whose responses the adapter tells apart by name.\<close>

definition me_name :: "classID \<Rightarrow> string" where
  "me_name c =
     (if c = OnuGClassID then ''OnuG''
      else if c = Onu2GClassID then ''Onu2G''
      else if c = UniGClassID then ''UniG''
      else if c = VirtualEthernetInterfacePointClassID then ''VirtualEthernetInterfacePoint''
      else if c = TContClassID then ''TCont''
      else if c = PriorityQueueClassID then ''PriorityQueue''
      else if c = Ieee8021PMapperServiceProfileClassID then ''Ieee8021PMapperServiceProfile''
      else if c = ExtendedVlanTaggingOperationConfigurationDataClassID
        then ''ExtendedVlanTaggingOperationConfigurationData''
      else if c = GalEthernetProfileClassID then ''GalEthernetProfile''
      else if c = MacBridgeServiceProfileClassID then ''MacBridgeServiceProfile''
      else if c = MacBridgePortConfigurationDataClassID then ''MacBridgePortConfigurationData''
      else if c = VlanTaggingFilterDataClassID then ''VlanTaggingFilterData''
      else if c = SoftwareImageClassID then ''SoftwareImage''
      else if c = IpHostConfigDataClassID then ''IpHostConfigData''
      else if c = GemPortNetworkCtpClassID then ''GemPortNetworkCtp''
      else if c = GemInterworkingTerminationPointClassID then ''GemInterworkingTerminationPoint''
      else ''other'')"

record ParamData =
  EntityID :: u16
  Attributes :: attrs

record ManagedEntity =
  meClass :: classID
  meEntity :: u16
  meAttrs :: attrs

definition GetName :: "ManagedEntity \<Rightarrow> string" where
  "GetName m = me_name (meClass m)"

section \<open>Requests\<close>

datatype omciRequestType = CreateRequest | SetRequest | GetRequest | MibResetRequest
  | MibUploadRequest | MibUploadNextRequest | RebootRequest

record omciRequest =
  rqType :: omciRequestType
  rqTid :: u16
  rqClass :: classID
  rqEntity :: u16
  rqAttrs :: attrs
  rqAddDefaults :: bool
  rqSequNo :: u16
  rqMask :: u16

section \<open>Responses\<close>

text \<open>
  The message layer of a received packet; the constructor is the dynamic type behind
  \<open>packet.Layer(\<dots>)\<close>, on which the handlers' type assertions depend.
\<close>

datatype rxLayer =
    MibResetResponse (rxResult: u8)
  | MibUploadResponse u16
  | MibUploadNextResponse classID u16 attrs
  | GetResponse (rxClass: classID) (rxEntity: u16) (rxResult: u8) attrs
  | CreateResponse (rxClass: classID) (rxEntity: u16) (rxResult: u8)
  | SetResponse (rxClass: classID) (rxEntity: u16) (rxResult: u8)
  | RebootResponse (rxResult: u8)
  | OtherLayer

definition me_Success :: u8 where "me_Success = 0"
definition me_InstanceExists :: u8 where "me_InstanceExists = 7"

text \<open>The OMCI header layer and the message layer beneath it (if it could be decoded).\<close>

record omciHeader =
  TransactionID :: u16
  hdrMessageType :: u8
  DeviceIdentifier :: u8
  hdrPayload :: "u8 list"

definition AK :: u8 where "AK = 0x20"
definition AR :: u8 where "AR = 0x40"

definition msgTypeByte :: "u8 \<Rightarrow> u8 \<Rightarrow> u8" where
  "msgTypeByte action flag = action OR flag"

definition CreateResponseType :: u8 where "CreateResponseType = 4 OR AK"
definition SetResponseType :: u8 where "SetResponseType = 8 OR AK"
definition GetResponseType :: u8 where "GetResponseType = 9 OR AK"
definition MibUploadResponseType :: u8 where "MibUploadResponseType = 13 OR AK"
definition MibUploadNextResponseType :: u8 where "MibUploadNextResponseType = 14 OR AK"
definition MibResetResponseType :: u8 where "MibResetResponseType = 15 OR AK"
definition AlarmNotificationType :: u8 where "AlarmNotificationType = 16"
definition AttributeValueChangeType :: u8 where "AttributeValueChangeType = 17"
definition RebootResponseType :: u8 where "RebootResponseType = 25 OR AK"

lemmas msg_types = CreateResponseType_def SetResponseType_def GetResponseType_def
  MibUploadResponseType_def MibUploadNextResponseType_def MibResetResponseType_def
  AlarmNotificationType_def AttributeValueChangeType_def RebootResponseType_def AK_def AR_def

type_synonym rxPacket = "rxLayer option"

section \<open>Channel messages\<close>

datatype TestMessageType = LoadMibTemplateOk | LoadMibTemplateFailed | TimeOutOccurred
  | AbortMessageProcessing

text \<open>\<open>Message\<close>: the tag \<open>Type\<close> always agrees with the dynamic type of \<open>Data\<close>.\<close>

datatype Message = TestMsg TestMessageType | OMCI omciHeader rxPacket

text \<open>
  The response channels of the adapter. All of them are buffered (2048 messages, the reboot
  channel of a device included); none is ever closed.
\<close>

datatype channel = ChMibUpload | ChMibDownload | ChReboot | ChRebootResult | ChLock | ChUnlock
  | ChAni | ChVlan u8 | ChNil

section \<open>The library\<close>

datatype decoded = NoPacket | NoOmciLayer | BadOmciLayer | Decoded omciHeader rxPacket

record omciLib =
  lib_accepts :: "classID \<Rightarrow> ParamData \<Rightarrow> bool"
  lib_encodes :: "omciRequest \<Rightarrow> bool"
  lib_serializes :: "omciRequest \<Rightarrow> bool"
  lib_decode :: "u8 list \<Rightarrow> decoded"

text \<open>\<open>me.NewXxx\<close> and \<open>me.LoadManagedEntityDefinition\<close>.\<close>

definition NewManagedEntity :: "omciLib \<Rightarrow> classID \<Rightarrow> ParamData \<Rightarrow> ManagedEntity option" where
  "NewManagedEntity lib c p =
     (if lib_accepts lib c p
      then Some \<lparr>meClass = c, meEntity = EntityID p, meAttrs = Attributes p\<rparr> else None)"

text \<open>\<open>omci.EncodeFrame\<close> followed by \<open>serializeOmciLayer\<close>.\<close>

definition EncodeFrame :: "omciLib \<Rightarrow> ManagedEntity \<Rightarrow> omciRequestType \<Rightarrow> u16 \<Rightarrow> bool \<Rightarrow> omciRequest option" where
  "EncodeFrame lib m ty tid defaults =
     (let rq = \<lparr>rqType = ty, rqTid = tid, rqClass = meClass m, rqEntity = meEntity m,
                rqAttrs = meAttrs m, rqAddDefaults = defaults, rqSequNo = 0, rqMask = 0\<rparr>
      in if lib_encodes lib rq then Some rq else None)"

definition serializeOmciLayer :: "omciLib \<Rightarrow> omciRequest \<Rightarrow> omciRequest option" where
  "serializeOmciLayer lib rq = (if lib_serializes lib rq then Some rq else None)"

definition serialize :: "omciLib \<Rightarrow> omciRequestType \<Rightarrow> classID \<Rightarrow> u16 \<Rightarrow> u16 \<Rightarrow> u16 \<Rightarrow> omciRequest option" where
  "serialize lib ty c sequ amask tid = serializeOmciLayer lib
     \<lparr>rqType = ty, rqTid = tid, rqClass = c, rqEntity = 0, rqAttrs = [], rqAddDefaults = False,
      rqSequNo = sequ, rqMask = amask\<rparr>"

text \<open>A library that accepts everything, for concrete runs.\<close>

definition permissive_lib :: omciLib where
  "permissive_lib = \<lparr>lib_accepts = (\<lambda>_ _. True), lib_encodes = (\<lambda>_. True),
     lib_serializes = (\<lambda>_. True), lib_decode = (\<lambda>_. NoOmciLayer)\<rparr>"

lemma permissive_lib_simps [simp]:
  "lib_accepts permissive_lib c p" "lib_encodes permissive_lib rq" "lib_serializes permissive_lib rq"
  by (simp_all add: permissive_lib_def)

end
