(* ===== verification/Omci_CC.thy ===== *)
theory Omci_CC
  imports Omci_Msg
begin

text \<open>
  The OMCI communication channel of one ONU (\<open>omci_cc.go\<close>): transaction identifiers, the
  queue of requests towards the OLT adapter, the map of registered response handlers, and
  the reception of messages. Goroutines started by an operation are tasks of the state;
  the step relation \<open>cc_step\<close> interleaves the operations with the tasks.

  The locale \<open>tid_source\<close> is the contract of a transaction identifier generator; the two
  generators of \<open>getNextTid\<close> interpret it.
\<close>

section \<open>State\<close>

text \<open>The response handlers that are ever registered.\<close>

datatype cbFunction = ReceiveOmciResponse | ReceiveOmciVerifyResponse

record callbackPairEntry =
  cbRespChannel :: channel
  cbFunctionOf :: "cbFunction option"

record omciTransferStructure =
  txFrame :: "omciRequest option"
  txTimeout :: int
  txRetry :: int
  txHighPrio :: bool

record handlerIds =
  hdDeviceID :: string
  hdDeviceType :: string
  hdProxyAddressID :: string
  hdProxyAddressType :: string

text \<open>
  Goroutines: one run of \<open>sendNextRequest\<close>, one response handler, or a \<open>send\<close> that the
  verification test starts on its own.
\<close>

datatype ccTask = TxTask | RxTask callbackPairEntry omciHeader rxPacket
  | SendTask "omciRequest option" u16 callbackPairEntry

record InterAdapterMessage =
  iaPayload :: "omciRequest option"
  iaFrom :: string
  iaTo :: string
  iaToDevice :: string
  iaProxyDevice :: string

record omciCC =
  ccHasEntry :: bool
  deviceID :: string
  pBaseDeviceHandler :: handlerIds
  tid :: u16
  hpTid :: u16
  uploadSequNo :: u16
  uploadNoOfCmds :: u16
  txQueue :: "omciTransferStructure list"
  rxSchedulerMap :: "u16 \<rightharpoonup> callbackPairEntry"
  pLastTxMeInstance :: "ManagedEntity option"
  ccTasks :: "ccTask list"
  wire :: "InterAdapterMessage list"
  posted :: "(channel \<times> Message) list"

text \<open>\<open>ccHasEntry\<close>: \<open>pOnuDeviceEntry != nil\<close>.\<close>

definition newOmciCC :: "bool \<Rightarrow> string \<Rightarrow> handlerIds \<Rightarrow> omciCC" where
  "newOmciCC entry dev handler =
     \<lparr>ccHasEntry = entry, deviceID = dev, pBaseDeviceHandler = handler, tid = 1, hpTid = 0x8000,
      uploadSequNo = 0, uploadNoOfCmds = 0, txQueue = [], rxSchedulerMap = Map.empty,
      pLastTxMeInstance = None, ccTasks = [], wire = [], posted = []\<rparr>"

datatype cc_error = TooSmallForBaseFormat | CouldNotDecode | CouldNotDecodeLayer
  | CouldNotAssignLayer | AutonomousUnimplemented | AutonomousWithTid | NoRegisteredHandler
  | FailedToFetchDevice | SendRequestError | DeviceEntryNil | SerializeError

section \<open>Transaction identifiers\<close>

definition getNextTid :: "bool \<Rightarrow> omciCC \<Rightarrow> u16 \<times> omciCC" where
  "getNextTid highPriority oo =
     (if highPriority then
        (let n = hpTid oo + 1 in (hpTid oo, oo\<lparr>hpTid := (if n < 0x8000 then 0x8000 else n)\<rparr>))
      else
        (let n = tid oo + 1 in (tid oo, oo\<lparr>tid := (if n \<ge> 0x8000 then 1 else n)\<rparr>)))"

section \<open>Sending\<close>

definition ConstDefaultOmciTimeout :: int where "ConstDefaultOmciTimeout = 10"

definition send :: "omciRequest option \<Rightarrow> int \<Rightarrow> int \<Rightarrow> bool \<Rightarrow> u16 \<Rightarrow> callbackPairEntry \<Rightarrow> omciCC \<Rightarrow> omciCC" where
  "send frame timeout retry highPrio cbKey cbEntry oo =
     oo\<lparr>rxSchedulerMap := (rxSchedulerMap oo)(cbKey \<mapsto> cbEntry),
        txQueue := txQueue oo @ [\<lparr>txFrame = frame, txTimeout = timeout, txRetry = retry,
                                  txHighPrio = highPrio\<rparr>],
        ccTasks := ccTasks oo @ [TxTask]\<rparr>"

text \<open>
  What the environment does with the \<open>n\<close>-th request of one run of \<open>sendNextRequest\<close>:
  the core fails to return the device, the adapter proxy fails to send, or both succeed.
\<close>

datatype tx_result = TxOk | TxNoDevice | TxSendError

definition interAdapterMsg :: "omciCC \<Rightarrow> omciTransferStructure \<Rightarrow> InterAdapterMessage" where
  "interAdapterMsg oo rq =
     \<lparr>iaPayload = txFrame rq, iaFrom = hdDeviceType (pBaseDeviceHandler oo),
      iaTo = hdProxyAddressType (pBaseDeviceHandler oo), iaToDevice = deviceID oo,
      iaProxyDevice = hdProxyAddressID (pBaseDeviceHandler oo)\<rparr>"

text \<open>The loop: a request leaves the queue only after it has been sent.\<close>

fun sendLoop :: "(nat \<Rightarrow> tx_result) \<Rightarrow> nat \<Rightarrow> omciTransferStructure list \<Rightarrow>
    cc_error option \<times> omciTransferStructure list \<times> omciTransferStructure list" where
  "sendLoop env n [] = (None, [], [])"
| "sendLoop env n (rq # queue) =
     (case env n of
        TxNoDevice \<Rightarrow> (Some FailedToFetchDevice, [], rq # queue)
      | TxSendError \<Rightarrow> (Some SendRequestError, [], rq # queue)
      | TxOk \<Rightarrow> (case sendLoop env (Suc n) queue of (e, sent, rest) \<Rightarrow> (e, rq # sent, rest)))"

definition sendNextRequest :: "(nat \<Rightarrow> tx_result) \<Rightarrow> omciCC \<Rightarrow> cc_error option \<times> omciCC" where
  "sendNextRequest env oo =
     (case sendLoop env 0 (txQueue oo) of (e, sent, rest) \<Rightarrow>
        (e, oo\<lparr>txQueue := rest, wire := wire oo @ map (interAdapterMsg oo) sent\<rparr>))"

section \<open>Receiving\<close>

definition fixTrailer :: "u8 list \<Rightarrow> u8 list" where
  "fixTrailer rxMsg =
     (if Uint16 (drop 42 rxMsg) \<noteq> 40 then take 42 rxMsg @ PutUint16 40 @ drop 44 rxMsg else rxMsg)"

definition receiveOnuMessage :: "omciHeader \<Rightarrow> cc_error option" where
  "receiveOnuMessage omciMsg = Some AutonomousUnimplemented"

definition receiveMessage :: "omciLib \<Rightarrow> u8 list \<Rightarrow> omciCC \<Rightarrow> cc_error option \<times> omciCC" where
  "receiveMessage lib rxMsg oo =
     (if length rxMsg < 44 then (Some TooSmallForBaseFormat, oo)
      else
        (case lib_decode lib (fixTrailer rxMsg) of
           NoPacket \<Rightarrow> (Some CouldNotDecode, oo)
         | NoOmciLayer \<Rightarrow> (Some CouldNotDecodeLayer, oo)
         | BadOmciLayer \<Rightarrow> (Some CouldNotAssignLayer, oo)
         | Decoded omciMsg packet \<Rightarrow>
             if hdrMessageType omciMsg AND NOT AK = 0 then
               (if TransactionID omciMsg = 0 then (receiveOnuMessage omciMsg, oo)
                else (Some AutonomousWithTid, oo))
             else
               (case rxSchedulerMap oo (TransactionID omciMsg) of
                  None \<Rightarrow> (Some NoRegisteredHandler, oo)
                | Some cb \<Rightarrow>
                    if cbFunctionOf cb = None then (Some NoRegisteredHandler, oo)
                    else (None, oo\<lparr>ccTasks := ccTasks oo @ [RxTask cb omciMsg packet],
                                   rxSchedulerMap := (rxSchedulerMap oo)(TransactionID omciMsg := None)\<rparr>))))"

definition receiveOmciResponse :: "omciHeader \<Rightarrow> rxPacket \<Rightarrow> channel \<Rightarrow> omciCC \<Rightarrow> cc_error option \<times> omciCC" where
  "receiveOmciResponse omciMsg packet respChan oo =
     (if \<not> ccHasEntry oo then (Some DeviceEntryNil, oo)
      else (None, oo\<lparr>posted := posted oo @ [(respChan, OMCI omciMsg packet)]\<rparr>))"

text \<open>
  Running one task of the state, in the environment \<open>env\<close>. The handler of the verification
  test does not touch the channel: theory \<open>Omci_Test\<close> has what it does.
\<close>

definition runTask :: "(nat \<Rightarrow> tx_result) \<Rightarrow> ccTask \<Rightarrow> omciCC \<Rightarrow> omciCC" where
  "runTask env t oo =
     (case t of
        TxTask \<Rightarrow> snd (sendNextRequest env oo)
      | SendTask frame key cb \<Rightarrow> send frame ConstDefaultOmciTimeout 0 False key cb oo
      | RxTask cb omciMsg packet \<Rightarrow>
          (case cbFunctionOf cb of
             None \<Rightarrow> oo
           | Some ReceiveOmciResponse \<Rightarrow> snd (receiveOmciResponse omciMsg packet (cbRespChannel cb) oo)
           | Some ReceiveOmciVerifyResponse \<Rightarrow> oo))"

section \<open>Transaction identifier generators\<close>

text \<open>
  A generator: a state, the identifier it would hand out, and its successor state. The
  identifiers run cyclically through \<open>size\<close> values from \<open>base\<close>.
\<close>

locale tid_source =
  fixes cur :: "'s \<Rightarrow> u16"
    and step :: "'s \<Rightarrow> 's"
    and tid_ok :: "'s \<Rightarrow> bool"
    and base :: nat
    and size :: nat
  assumes size_pos: "0 < size"
    and in_range: "base + size \<le> 2 ^ 16"
    and tid_ok_def: "tid_ok s \<longleftrightarrow> base \<le> unat (cur s) \<and> unat (cur s) < base + size"
    and step_cur: "tid_ok s \<Longrightarrow> unat (cur (step s)) = base + (unat (cur s) - base + 1) mod size"
begin

lemma step_ok: "tid_ok s \<Longrightarrow> tid_ok (step s)"
  using step_cur [of s] size_pos by (simp add: tid_ok_def)

lemma funpow_cur:
  assumes "tid_ok s"
  shows "tid_ok ((step ^^ n) s) \<and> unat (cur ((step ^^ n) s)) = base + (unat (cur s) - base + n) mod size"
proof (induction n)
  case 0
  from assms show ?case by (auto simp: tid_ok_def)
next
  case (Suc n)
  then have ok: "tid_ok ((step ^^ n) s)" by simp
  from step_cur [of "(step ^^ n) s"] ok
  have "unat (cur (step ((step ^^ n) s))) = base + (unat (cur ((step ^^ n) s)) - base + 1) mod size"
    by (simp add: tid_ok_def)
  with Suc step_ok [OF ok] show ?case by (simp add: mod_Suc_eq)
qed

text \<open>Any \<open>size\<close> consecutive identifiers are pairwise different.\<close>

lemma distinct_window:
  assumes "tid_ok s" and "i < j" and "j - i < size"
  shows "cur ((step ^^ i) s) \<noteq> cur ((step ^^ j) s)"
proof
  let ?a = "unat (cur s) - base"
  assume "cur ((step ^^ i) s) = cur ((step ^^ j) s)"
  with funpow_cur [OF assms(1), of i] funpow_cur [OF assms(1), of j]
  have "(?a + i) mod size = (?a + j) mod size" by simp
  then have "size dvd (?a + j) - (?a + i)"
    using assms(2) by (metis add_le_cancel_left less_imp_le mod_eq_dvd_iff_nat)
  then have "size dvd j - i" by simp
  with assms show False by (simp add: nat_dvd_not_less)
qed

end

definition nextTid :: "u16 \<Rightarrow> u16" where
  "nextTid t = (if t + 1 \<ge> 0x8000 then 1 else t + 1)"

definition nextHpTid :: "u16 \<Rightarrow> u16" where
  "nextHpTid t = (if t + 1 < 0x8000 then 0x8000 else t + 1)"

definition low_tid :: "u16 \<Rightarrow> bool" where
  "low_tid t \<longleftrightarrow> 1 \<le> unat t \<and> unat t < 0x8000"

definition high_tid :: "u16 \<Rightarrow> bool" where
  "high_tid t \<longleftrightarrow> 0x8000 \<le> unat t"

lemma getNextTid_low: "getNextTid False oo = (tid oo, oo\<lparr>tid := nextTid (tid oo)\<rparr>)"
  by (simp add: getNextTid_def nextTid_def Let_def)

lemma getNextTid_high: "getNextTid True oo = (hpTid oo, oo\<lparr>hpTid := nextHpTid (hpTid oo)\<rparr>)"
  by (simp add: getNextTid_def nextHpTid_def Let_def)

lemma unat_u16_less: "unat (t :: u16) < 65536"
  using unsigned_less [of t, where ?'a = nat] by simp

lemma unat_plus1_u16: "unat (t :: u16) < 65535 \<Longrightarrow> unat (t + 1) = unat t + 1"
  by (simp add: unat_add_lem [symmetric] unat_word_ariths)

interpretation lowTid: tid_source id nextTid low_tid 1 "0x7FFF"
proof (unfold_locales, goal_cases)
  case (3 s)
  show ?case by (auto simp: low_tid_def)
next
  case (4 s)
  then have "unat s < 32767 \<or> unat s = 32767" by (auto simp: low_tid_def)
  with 4 show ?case
    by (auto simp: low_tid_def nextTid_def word_le_nat_alt unat_plus1_u16)
qed simp_all

interpretation highTid: tid_source id nextHpTid high_tid "0x8000" "0x8000"
proof (unfold_locales, goal_cases)
  case (3 s)
  show ?case using unat_u16_less [of s] by (simp add: high_tid_def)
next
  case (4 s)
  have max: "unat (- 1 :: u16) = 65535"
    by (simp add: unsigned_minus_1_eq_mask mask_eq_exp_minus_1)
  show ?case
  proof (cases "s = - 1")
    case True
    then show ?thesis by (simp add: nextHpTid_def max)
  next
    case False
    then have "unat s \<noteq> 65535"
      using max word_unat_eq_iff by metis
    with unat_u16_less [of s] have "unat s < 65535" by simp
    with 4 show ?thesis
      by (auto simp: high_tid_def nextHpTid_def word_less_nat_alt unat_plus1_u16)
  qed
qed simp_all

section \<open>Interleavings\<close>

text \<open>
  A request draws an identifier and is sent, or dies in the library after the identifier
  has been drawn; the verification test leaves the sending to a goroutine. Every task of the
  state can run at any time, and a message can be received at any time. The upload counters
  and the instance of the last request are fields the machines of the ONU write.
\<close>

datatype cc_action = ADraw u16 | ASend u16 "omciRequest option" | ATx | ADispatch u16 | ARxError | ADeliver
  | ANote

inductive cc_step :: "omciLib \<Rightarrow> omciCC \<Rightarrow> cc_action \<Rightarrow> omciCC \<Rightarrow> bool" for lib where
  step_draw: "getNextTid hp oo = (t, oo') \<Longrightarrow> cc_step lib oo (ADraw t) oo'"
| step_send: "getNextTid hp oo = (t, oo1) \<Longrightarrow> oo' = send frame timeout retry hp t cb oo1 \<Longrightarrow>
    cc_step lib oo (ASend t frame) oo'"
| step_note: "cc_step lib oo ANote
    (oo\<lparr>uploadSequNo := sequ, uploadNoOfCmds := n, pLastTxMeInstance := inst\<rparr>)"
| step_test: "getNextTid False oo = (t, oo1) \<Longrightarrow>
    cc_step lib oo (ADraw t) (oo1\<lparr>ccTasks := ccTasks oo1 @ [SendTask frame t cb]\<rparr>)"
| step_tx: "ccTasks oo = ts1 @ TxTask # ts2 \<Longrightarrow>
    cc_step lib oo ATx (runTask env TxTask (oo\<lparr>ccTasks := ts1 @ ts2\<rparr>))"
| step_test_send: "ccTasks oo = ts1 @ SendTask frame t cb # ts2 \<Longrightarrow>
    cc_step lib oo (ASend t frame) (runTask env (SendTask frame t cb) (oo\<lparr>ccTasks := ts1 @ ts2\<rparr>))"
| step_deliver: "ccTasks oo = ts1 @ RxTask cb hdr packet # ts2 \<Longrightarrow>
    cc_step lib oo ADeliver (runTask env (RxTask cb hdr packet) (oo\<lparr>ccTasks := ts1 @ ts2\<rparr>))"
| step_rx: "receiveMessage lib rx oo = (None, oo') \<Longrightarrow> ccTasks oo' = ccTasks oo @ [RxTask cb hdr packet] \<Longrightarrow>
    cc_step lib oo (ADispatch (TransactionID hdr)) oo'"
| step_rx_error: "receiveMessage lib rx oo = (Some e, oo') \<Longrightarrow> cc_step lib oo ARxError oo'"

inductive cc_run :: "omciLib \<Rightarrow> omciCC \<Rightarrow> cc_action list \<Rightarrow> omciCC \<Rightarrow> bool" for lib where
  run_init: "cc_run lib oo [] oo"
| run_step: "cc_run lib oo as oo' \<Longrightarrow> cc_step lib oo' a oo'' \<Longrightarrow> cc_run lib oo (as @ [a]) oo''"

inductive_cases cc_stepE: "cc_step lib oo a oo'"

text \<open>Every reception ends in one of the two reception steps.\<close>

lemma receiveMessage_cases:
  assumes "receiveMessage lib rx oo = (r, oo')"
  shows "(\<exists>e. r = Some e \<and> oo' = oo) \<or>
    (\<exists>cb hdr packet. r = None \<and> rxSchedulerMap oo (TransactionID hdr) = Some cb \<and>
      oo' = oo\<lparr>ccTasks := ccTasks oo @ [RxTask cb hdr packet],
               rxSchedulerMap := (rxSchedulerMap oo)(TransactionID hdr := None)\<rparr>)"
  using assms
  by (auto simp: receiveMessage_def receiveOnuMessage_def split: if_splits decoded.splits option.splits)

lemma receiveMessage_is_step:
  "\<exists>a. cc_step lib oo a (snd (receiveMessage lib rx oo))"
proof -
  obtain r oo' where r: "receiveMessage lib rx oo = (r, oo')" by fastforce
  show ?thesis
  proof (cases r)
    case None
    with receiveMessage_cases [OF r] obtain cb hdr packet
      where "ccTasks oo' = ccTasks oo @ [RxTask cb hdr packet]" by auto
    with r None show ?thesis by (auto intro: step_rx)
  next
    case (Some e)
    with r show ?thesis by (auto intro: step_rx_error)
  qed
qed

lemma getNextTid_frame:
  "getNextTid hp oo = (t, oo') \<Longrightarrow>
   txQueue oo' = txQueue oo \<and> rxSchedulerMap oo' = rxSchedulerMap oo \<and> wire oo' = wire oo \<and>
   ccTasks oo' = ccTasks oo \<and> posted oo' = posted oo \<and> ccHasEntry oo' = ccHasEntry oo"
  by (auto simp: getNextTid_def Let_def split: if_splits)

lemma sendLoop_split: "sendLoop env n q = (e, sent, rest) \<Longrightarrow> sent @ rest = q \<and> (e = None \<longleftrightarrow> rest = [])"
  by (induction env n q arbitrary: e sent rest rule: sendLoop.induct)
    (auto split: tx_result.splits prod.splits)

lemma sendNextRequest_shape:
  obtains e sent rest where "sendNextRequest env oo =
      (e, oo\<lparr>txQueue := rest, wire := wire oo @ map (interAdapterMsg oo) sent\<rparr>)"
    and "sent @ rest = txQueue oo" and "e = None \<longleftrightarrow> rest = []"
proof -
  obtain e sent rest where l: "sendLoop env 0 (txQueue oo) = (e, sent, rest)"
    by (cases "sendLoop env 0 (txQueue oo)")
  then have "sendNextRequest env oo =
      (e, oo\<lparr>txQueue := rest, wire := wire oo @ map (interAdapterMsg oo) sent\<rparr>)"
    by (simp add: sendNextRequest_def)
  with sendLoop_split [OF l] show ?thesis by (blast intro: that)
qed

lemma iaPayload_interAdapterMsg [simp]: "iaPayload (interAdapterMsg oo rq) = txFrame rq"
  by (simp add: interAdapterMsg_def)

text \<open>What has gone out and what still waits, in order.\<close>

definition outgoing :: "omciCC \<Rightarrow> omciRequest option list" where
  "outgoing oo = map iaPayload (wire oo) @ map txFrame (txQueue oo)"

fun sent_frames :: "cc_action list \<Rightarrow> omciRequest option list" where
  "sent_frames [] = []"
| "sent_frames (ASend t f # as) = f # sent_frames as"
| "sent_frames (a # as) = sent_frames as"

lemma sent_frames_append [simp]: "sent_frames (xs @ ys) = sent_frames xs @ sent_frames ys"
  by (induction xs rule: sent_frames.induct) auto

lemma outgoing_sendNextRequest: "outgoing (snd (sendNextRequest env oo)) = outgoing oo"
proof -
  obtain e sent rest where "sendNextRequest env oo =
      (e, oo\<lparr>txQueue := rest, wire := wire oo @ map (interAdapterMsg oo) sent\<rparr>)"
    and s: "sent @ rest = txQueue oo" by (rule sendNextRequest_shape)
  then show ?thesis by (simp add: outgoing_def o_def flip: s)
qed

lemma outgoing_step:
  "cc_step lib oo a oo' \<Longrightarrow> outgoing oo' = outgoing oo @ sent_frames [a]"
proof (induction rule: cc_step.induct)
  case (step_tx oo ts1 ts2 env)
  have "outgoing (oo\<lparr>ccTasks := ts1 @ ts2\<rparr>) = outgoing oo" by (simp add: outgoing_def)
  then show ?case by (simp add: runTask_def outgoing_sendNextRequest)
next
  case (step_rx rx oo oo' cb hdr packet)
  then show ?case by (auto simp: outgoing_def dest!: receiveMessage_cases)
next
  case (step_rx_error rx oo e oo')
  then show ?case by (auto simp: outgoing_def dest!: receiveMessage_cases)
qed (auto simp: outgoing_def runTask_def send_def receiveOmciResponse_def
      dest: getNextTid_frame split: option.splits cbFunction.splits)

lemma outgoing_run: "cc_run lib oo as oo' \<Longrightarrow> outgoing oo' = outgoing oo @ sent_frames as"
  by (induction rule: cc_run.induct) (auto dest: outgoing_step)

fun sends_of :: "u16 \<Rightarrow> cc_action \<Rightarrow> bool" where
  "sends_of t (ASend t' f) = (t' = t)"
| "sends_of t a = False"

definition pending :: "omciCC \<Rightarrow> u16 \<Rightarrow> nat" where
  "pending oo t = (if rxSchedulerMap oo t = None then 0 else 1)"

definition dispatched :: "u16 \<Rightarrow> cc_action list \<Rightarrow> nat" where
  "dispatched t as = length (filter (\<lambda>a. a = ADispatch t) as)"

definition requested :: "u16 \<Rightarrow> cc_action list \<Rightarrow> nat" where
  "requested t as = length (filter (sends_of t) as)"

lemma dispatch_step:
  "cc_step lib oo a oo' \<Longrightarrow> dispatched t [a] + pending oo' t \<le> requested t [a] + pending oo t"
proof (induction rule: cc_step.induct)
  case (step_tx oo ts1 ts2 env)
  show ?case
    by (rule sendNextRequest_shape [of env "oo\<lparr>ccTasks := ts1 @ ts2\<rparr>"])
      (simp add: runTask_def pending_def dispatched_def)
next
  case (step_rx rx oo oo' cb hdr packet)
  then show ?case by (auto simp: pending_def dispatched_def requested_def dest!: receiveMessage_cases)
next
  case (step_rx_error rx oo e oo')
  then show ?case by (auto simp: pending_def dispatched_def dest!: receiveMessage_cases)
qed (auto simp: pending_def dispatched_def requested_def runTask_def send_def receiveOmciResponse_def
      dest: getNextTid_frame split: option.splits cbFunction.splits)

lemma dispatch_run:
  "cc_run lib oo as oo' \<Longrightarrow> dispatched t as + pending oo' t \<le> requested t as + pending oo t"
proof (induction rule: cc_run.induct)
  case (run_init oo)
  show ?case by (simp add: dispatched_def)
next
  case (run_step oo as oo' a oo'')
  with dispatch_step [of lib oo' a oo'' t] show ?case
    by (simp add: dispatched_def requested_def split: if_splits)
qed

text \<open>The identifiers in use: never 0, low ones below 0x8000.\<close>

definition cc_wf :: "omciCC \<Rightarrow> bool" where
  "cc_wf oo \<longleftrightarrow> low_tid (tid oo) \<and> high_tid (hpTid oo) \<and> rxSchedulerMap oo 0 = None \<and>
     list_all (\<lambda>t. case t of SendTask f k cb \<Rightarrow> k \<noteq> 0 | _ \<Rightarrow> True) (ccTasks oo)"

lemma cc_wf_new [simp]: "cc_wf (newOmciCC entry dev handler)"
  by (simp add: cc_wf_def newOmciCC_def low_tid_def high_tid_def)

lemma getNextTid_wf:
  assumes "cc_wf oo" and "getNextTid hp oo = (t, oo')"
  shows "cc_wf oo' \<and> t \<noteq> 0 \<and> (hp \<longleftrightarrow> 0x8000 \<le> unat t)"
proof (cases hp)
  case True
  with assms have "t = hpTid oo" "oo' = oo\<lparr>hpTid := nextHpTid (hpTid oo)\<rparr>"
    by (auto simp: getNextTid_high)
  with True assms(1) highTid.step_ok [of "hpTid oo"] show ?thesis
    by (auto simp: cc_wf_def high_tid_def)
next
  case False
  with assms have "t = tid oo" "oo' = oo\<lparr>tid := nextTid (tid oo)\<rparr>"
    by (auto simp: getNextTid_low)
  with False assms(1) lowTid.step_ok [of "tid oo"] show ?thesis
    by (auto simp: cc_wf_def low_tid_def)
qed

lemma cc_wf_send: "cc_wf oo \<Longrightarrow> t \<noteq> 0 \<Longrightarrow> cc_wf (send frame timeout retry hp t cb oo)"
  by (simp add: cc_wf_def send_def)

lemma cc_wf_rx: "receiveMessage lib rx oo = (r, oo') \<Longrightarrow> cc_wf oo \<Longrightarrow> cc_wf oo'"
  by (auto simp: cc_wf_def dest!: receiveMessage_cases)

lemma cc_wf_runTask:
  assumes "cc_wf oo" and "\<And>f k cb. task = SendTask f k cb \<Longrightarrow> k \<noteq> 0"
  shows "cc_wf (runTask env task oo)"
proof (cases task)
  case TxTask
  obtain e sent rest where "sendNextRequest env oo =
      (e, oo\<lparr>txQueue := rest, wire := wire oo @ map (interAdapterMsg oo) sent\<rparr>)"
    by (rule sendNextRequest_shape)
  with TxTask assms(1) show ?thesis by (simp add: runTask_def cc_wf_def)
next
  case (SendTask f k cb)
  with assms show ?thesis by (simp add: runTask_def cc_wf_send)
next
  case (RxTask cb hdr packet)
  with assms(1) show ?thesis
    by (auto simp: runTask_def receiveOmciResponse_def cc_wf_def split: option.splits cbFunction.splits)
qed

lemma cc_wf_take_task:
  assumes "cc_wf oo" and "ccTasks oo = ts1 @ task # ts2"
  shows "cc_wf (runTask env task (oo\<lparr>ccTasks := ts1 @ ts2\<rparr>))"
  using assms by (intro cc_wf_runTask) (auto simp: cc_wf_def)

lemma cc_wf_step: "cc_step lib oo a oo' \<Longrightarrow> cc_wf oo \<Longrightarrow> cc_wf oo'"
proof (induction rule: cc_step.induct)
  case (step_test oo t oo1 frame cb)
  then show ?case using getNextTid_wf [of oo False t oo1] by (simp add: cc_wf_def)
next
  case (step_note oo sequ n inst)
  then show ?case by (simp add: cc_wf_def)
qed (blast intro: cc_wf_send cc_wf_rx cc_wf_take_task dest: getNextTid_wf)+

lemma cc_wf_run: "cc_run lib oo as oo' \<Longrightarrow> cc_wf oo \<Longrightarrow> cc_wf oo'"
  by (induction rule: cc_run.induct) (auto intro: cc_wf_step)

end
