(* ===== verification/Omci_Send.thy ===== *)
theory Omci_Send
  imports Omci_CC
begin

text \<open>
  The requests of the OMCI channel: every \<open>send\<dots>\<close> method of \<open>omci_cc.go\<close> draws a
  transaction identifier, builds the managed entity with the library, encodes and
  serializes it, and hands it to \<open>send\<close> together with the channel the response has to be
  posted on. A method that takes its channel from the device entry dereferences the entry
  pointer, which panics when it is nil, but only once serialization has succeeded.
\<close>

section \<open>The common body\<close>

definition prepareMe :: "omciLib \<Rightarrow> omciRequestType \<Rightarrow> bool \<Rightarrow> classID \<Rightarrow> bool \<Rightarrow> ParamData \<Rightarrow> omciCC \<Rightarrow>
    (u16 \<times> omciRequest \<times> ManagedEntity) option \<times> omciCC" where
  "prepareMe lib ty defaults c highPrio p oo =
     (let (t, oo1) = getNextTid highPrio oo in
      (case NewManagedEntity lib c p of
         None \<Rightarrow> (None, oo1)
       | Some meInstance \<Rightarrow>
           (case EncodeFrame lib meInstance ty t defaults of
              None \<Rightarrow> (None, oo1)
            | Some frame \<Rightarrow>
                (case serializeOmciLayer lib frame of
                   None \<Rightarrow> (None, oo1)
                 | Some pkt \<Rightarrow> (Some (t, pkt, meInstance), oo1)))))"

definition sendMe :: "omciLib \<Rightarrow> omciRequestType \<Rightarrow> bool \<Rightarrow> classID \<Rightarrow> int \<Rightarrow> bool \<Rightarrow> ParamData \<Rightarrow> channel \<Rightarrow>
    omciCC \<Rightarrow> ManagedEntity option \<times> omciCC" where
  "sendMe lib ty defaults c timeout highPrio p rxChan oo =
     (case prepareMe lib ty defaults c highPrio p oo of
        (None, oo1) \<Rightarrow> (None, oo1)
      | (Some (t, pkt, meInstance), oo1) \<Rightarrow>
          (Some meInstance,
           send (Some pkt) timeout 0 highPrio t
             \<lparr>cbRespChannel = rxChan, cbFunctionOf = Some ReceiveOmciResponse\<rparr> oo1))"

definition sendMeEntry :: "omciLib \<Rightarrow> omciRequestType \<Rightarrow> bool \<Rightarrow> classID \<Rightarrow> int \<Rightarrow> bool \<Rightarrow> ParamData \<Rightarrow> channel \<Rightarrow>
    omciCC \<Rightarrow> (ManagedEntity option \<times> omciCC) outcome" where
  "sendMeEntry lib ty defaults c timeout highPrio p entryChan oo =
     (case prepareMe lib ty defaults c highPrio p oo of
        (None, oo1) \<Rightarrow> Done (None, oo1)
      | (Some _, _) \<Rightarrow>
          if ccHasEntry oo then Done (sendMe lib ty defaults c timeout highPrio p entryChan oo)
          else Panic NilDeref)"

text \<open>The requests that are not built from a managed entity.\<close>

definition sendPlain :: "omciLib \<Rightarrow> omciRequestType \<Rightarrow> classID \<Rightarrow> u16 \<Rightarrow> int \<Rightarrow> bool \<Rightarrow> channel \<Rightarrow>
    (omciCC \<Rightarrow> omciCC) \<Rightarrow> omciCC \<Rightarrow> (cc_error option \<times> omciCC) outcome" where
  "sendPlain lib ty c sequ timeout highPrio entryChan upd oo =
     (let (t, oo1) = getNextTid highPrio oo in
      (case serialize lib ty c sequ 0 t of
         None \<Rightarrow> Done (Some SerializeError, oo1)
       | Some pkt \<Rightarrow>
           if ccHasEntry oo then
             Done (None, send (Some pkt) timeout 0 highPrio t
                     \<lparr>cbRespChannel = entryChan, cbFunctionOf = Some ReceiveOmciResponse\<rparr> (upd oo1))
           else Panic NilDeref))"

section \<open>MIB reset, upload and reboot\<close>

definition sendMibReset :: "omciLib \<Rightarrow> int \<Rightarrow> bool \<Rightarrow> omciCC \<Rightarrow> (cc_error option \<times> omciCC) outcome" where
  "sendMibReset lib timeout highPrio oo =
     sendPlain lib MibResetRequest OnuDataClassID 0 timeout highPrio ChMibUpload id oo"

text \<open>\<open>sendReboot\<close> up to the wait for the response.\<close>

definition sendRebootRequest :: "omciLib \<Rightarrow> int \<Rightarrow> bool \<Rightarrow> omciCC \<Rightarrow> (cc_error option \<times> omciCC) outcome" where
  "sendRebootRequest lib timeout highPrio oo =
     sendPlain lib RebootRequest OnuGClassID 0 timeout highPrio ChReboot id oo"

definition sendMibUpload :: "omciLib \<Rightarrow> int \<Rightarrow> bool \<Rightarrow> omciCC \<Rightarrow> (cc_error option \<times> omciCC) outcome" where
  "sendMibUpload lib timeout highPrio oo =
     sendPlain lib MibUploadRequest OnuDataClassID 0 timeout highPrio ChMibUpload
       (\<lambda>oo. oo\<lparr>uploadSequNo := 0, uploadNoOfCmds := 0\<rparr>) oo"

definition sendMibUploadNext :: "omciLib \<Rightarrow> int \<Rightarrow> bool \<Rightarrow> omciCC \<Rightarrow> (cc_error option \<times> omciCC) outcome" where
  "sendMibUploadNext lib timeout highPrio oo =
     sendPlain lib MibUploadNextRequest OnuDataClassID (uploadSequNo oo) timeout highPrio ChMibUpload
       (\<lambda>oo. oo\<lparr>uploadSequNo := uploadSequNo oo + 1\<rparr>) oo"

section \<open>The initial configuration\<close>

definition galEthernetEID :: u16 where "galEthernetEID = 1"
definition maxGemPayloadSize :: u16 where "maxGemPayloadSize = 48"
definition connectivityModeValue :: u8 where "connectivityModeValue = 5"
definition macBridgeServiceProfileEID :: u16 where "macBridgeServiceProfileEID = 0x201"
definition ieeeMapperServiceProfileEID :: u16 where "ieeeMapperServiceProfileEID = 0x8001"
definition macBridgePortAniEID :: u16 where "macBridgePortAniEID = 0x2102"

lemmas eid_defs = galEthernetEID_def macBridgeServiceProfileEID_def ieeeMapperServiceProfileEID_def
  macBridgePortAniEID_def

definition sendCreateGalEthernetProfile ::
    "omciLib \<Rightarrow> int \<Rightarrow> bool \<Rightarrow> omciCC \<Rightarrow> (ManagedEntity option \<times> omciCC) outcome" where
  "sendCreateGalEthernetProfile lib timeout highPrio oo =
     sendMeEntry lib CreateRequest False GalEthernetProfileClassID timeout highPrio
       \<lparr>EntityID = galEthernetEID, Attributes = [(''MaximumGemPayloadSize'', AU16 maxGemPayloadSize)]\<rparr>
       ChMibDownload oo"

definition sendSetOnu2g ::
    "omciLib \<Rightarrow> int \<Rightarrow> bool \<Rightarrow> omciCC \<Rightarrow> (ManagedEntity option \<times> omciCC) outcome" where
  "sendSetOnu2g lib timeout highPrio oo =
     sendMeEntry lib SetRequest False Onu2GClassID timeout highPrio
       \<lparr>EntityID = 0, Attributes = [(''CurrentConnectivityMode'', AU8 connectivityModeValue)]\<rparr>
       ChMibDownload oo"

definition sendCreateMBServiceProfile ::
    "omciLib \<Rightarrow> onuUniPort \<Rightarrow> int \<Rightarrow> bool \<Rightarrow> omciCC \<Rightarrow> (ManagedEntity option \<times> omciCC) outcome" where
  "sendCreateMBServiceProfile lib aPUniPort timeout highPrio oo =
     sendMeEntry lib CreateRequest True MacBridgeServiceProfileClassID timeout highPrio
       \<lparr>EntityID = macBridgeServiceProfileEID + ucast (macBpNo aPUniPort),
        Attributes = [(''Priority'', AInt 0x8000), (''MaxAge'', AInt (20 * 256)),
                      (''HelloTime'', AInt (2 * 256)), (''ForwardDelay'', AInt (15 * 256))]\<rparr>
       ChMibDownload oo"

definition sendCreateMBPConfigData ::
    "omciLib \<Rightarrow> onuUniPort \<Rightarrow> int \<Rightarrow> bool \<Rightarrow> omciCC \<Rightarrow> (ManagedEntity option \<times> omciCC) outcome" where
  "sendCreateMBPConfigData lib aPUniPort timeout highPrio oo =
     sendMeEntry lib CreateRequest True MacBridgePortConfigurationDataClassID timeout highPrio
       \<lparr>EntityID = macBridgePortAniEID + entityID aPUniPort,
        Attributes = [(''BridgeIdPointer'', AU16 (macBridgeServiceProfileEID + ucast (macBpNo aPUniPort))),
                      (''PortNum'', AU8 (macBpNo aPUniPort)),
                      (''TpType'', AU8 (ucast (portType aPUniPort))),
                      (''TpPointer'', AU16 (entityID aPUniPort))]\<rparr>
       ChMibDownload oo"

definition sendCreateEVTOConfigData ::
    "omciLib \<Rightarrow> onuUniPort \<Rightarrow> int \<Rightarrow> bool \<Rightarrow> omciCC \<Rightarrow> (ManagedEntity option \<times> omciCC) outcome" where
  "sendCreateEVTOConfigData lib aPUniPort timeout highPrio oo =
     sendMeEntry lib CreateRequest False ExtendedVlanTaggingOperationConfigurationDataClassID timeout highPrio
       \<lparr>EntityID = macBridgeServiceProfileEID + ucast (macBpNo aPUniPort),
        Attributes = [(''AssociationType'', AU8 (if portType aPUniPort = uniVEIP then 10 else 2)),
                      (''AssociatedMePointer'', AU16 (entityID aPUniPort))]\<rparr>
       ChMibDownload oo"

section \<open>Administrative state and attribute queries\<close>

definition sendSetOnuGLS ::
    "omciLib \<Rightarrow> int \<Rightarrow> bool \<Rightarrow> attrs \<Rightarrow> channel \<Rightarrow> omciCC \<Rightarrow> ManagedEntity option \<times> omciCC" where
  "sendSetOnuGLS lib timeout highPrio requestedAttributes rxChan oo =
     sendMe lib SetRequest False OnuGClassID timeout highPrio
       \<lparr>EntityID = 0, Attributes = requestedAttributes\<rparr> rxChan oo"

definition sendSetUniGLS ::
    "omciLib \<Rightarrow> u16 \<Rightarrow> int \<Rightarrow> bool \<Rightarrow> attrs \<Rightarrow> channel \<Rightarrow> omciCC \<Rightarrow> ManagedEntity option \<times> omciCC" where
  "sendSetUniGLS lib aInstNo timeout highPrio requestedAttributes rxChan oo =
     sendMe lib SetRequest False UniGClassID timeout highPrio
       \<lparr>EntityID = aInstNo, Attributes = requestedAttributes\<rparr> rxChan oo"

definition sendSetVeipLS ::
    "omciLib \<Rightarrow> u16 \<Rightarrow> int \<Rightarrow> bool \<Rightarrow> attrs \<Rightarrow> channel \<Rightarrow> omciCC \<Rightarrow> ManagedEntity option \<times> omciCC" where
  "sendSetVeipLS lib aInstNo timeout highPrio requestedAttributes rxChan oo =
     sendMe lib SetRequest False VirtualEthernetInterfacePointClassID timeout highPrio
       \<lparr>EntityID = aInstNo, Attributes = requestedAttributes\<rparr> rxChan oo"

definition sendGetMe ::
    "omciLib \<Rightarrow> classID \<Rightarrow> u16 \<Rightarrow> attrs \<Rightarrow> int \<Rightarrow> bool \<Rightarrow> omciCC \<Rightarrow> (ManagedEntity option \<times> omciCC) outcome" where
  "sendGetMe lib c aEntityID requestedAttributes timeout highPrio oo =
     sendMeEntry lib GetRequest False c timeout highPrio
       \<lparr>EntityID = aEntityID, Attributes = requestedAttributes\<rparr> ChMibUpload oo"

section \<open>The service configuration\<close>

definition sendCreateDot1PMapper ::
    "omciLib \<Rightarrow> int \<Rightarrow> bool \<Rightarrow> u16 \<Rightarrow> channel \<Rightarrow> omciCC \<Rightarrow> ManagedEntity option \<times> omciCC" where
  "sendCreateDot1PMapper lib timeout highPrio aInstID rxChan oo =
     sendMe lib CreateRequest True Ieee8021PMapperServiceProfileClassID timeout highPrio
       \<lparr>EntityID = aInstID, Attributes = []\<rparr> rxChan oo"

text \<open>
  The remaining methods take the parameters of the managed entity from the caller. They are
  variadic in the code; every caller passes exactly one \<open>ParamData\<close>.
\<close>

definition sendCreateMBPConfigDataVar ::
    "omciLib \<Rightarrow> int \<Rightarrow> bool \<Rightarrow> channel \<Rightarrow> ParamData \<Rightarrow> omciCC \<Rightarrow> ManagedEntity option \<times> omciCC" where
  "sendCreateMBPConfigDataVar lib timeout highPrio rxChan p oo =
     sendMe lib CreateRequest True MacBridgePortConfigurationDataClassID timeout highPrio p rxChan oo"

definition sendCreateGemNCTPVar ::
    "omciLib \<Rightarrow> int \<Rightarrow> bool \<Rightarrow> channel \<Rightarrow> ParamData \<Rightarrow> omciCC \<Rightarrow> ManagedEntity option \<times> omciCC" where
  "sendCreateGemNCTPVar lib timeout highPrio rxChan p oo =
     sendMe lib CreateRequest True GemPortNetworkCtpClassID timeout highPrio p rxChan oo"

definition sendCreateGemIWTPVar ::
    "omciLib \<Rightarrow> int \<Rightarrow> bool \<Rightarrow> channel \<Rightarrow> ParamData \<Rightarrow> omciCC \<Rightarrow> ManagedEntity option \<times> omciCC" where
  "sendCreateGemIWTPVar lib timeout highPrio rxChan p oo =
     sendMe lib CreateRequest False GemInterworkingTerminationPointClassID timeout highPrio p rxChan oo"

definition sendSetTcontVar ::
    "omciLib \<Rightarrow> int \<Rightarrow> bool \<Rightarrow> channel \<Rightarrow> ParamData \<Rightarrow> omciCC \<Rightarrow> ManagedEntity option \<times> omciCC" where
  "sendSetTcontVar lib timeout highPrio rxChan p oo =
     sendMe lib SetRequest False TContClassID timeout highPrio p rxChan oo"

definition sendSetPrioQueueVar ::
    "omciLib \<Rightarrow> int \<Rightarrow> bool \<Rightarrow> channel \<Rightarrow> ParamData \<Rightarrow> omciCC \<Rightarrow> ManagedEntity option \<times> omciCC" where
  "sendSetPrioQueueVar lib timeout highPrio rxChan p oo =
     sendMe lib SetRequest False PriorityQueueClassID timeout highPrio p rxChan oo"

definition sendSetDot1PMapperVar ::
    "omciLib \<Rightarrow> int \<Rightarrow> bool \<Rightarrow> channel \<Rightarrow> ParamData \<Rightarrow> omciCC \<Rightarrow> ManagedEntity option \<times> omciCC" where
  "sendSetDot1PMapperVar lib timeout highPrio rxChan p oo =
     sendMe lib SetRequest False Ieee8021PMapperServiceProfileClassID timeout highPrio p rxChan oo"

definition sendCreateVtfdVar ::
    "omciLib \<Rightarrow> int \<Rightarrow> bool \<Rightarrow> channel \<Rightarrow> ParamData \<Rightarrow> omciCC \<Rightarrow> ManagedEntity option \<times> omciCC" where
  "sendCreateVtfdVar lib timeout highPrio rxChan p oo =
     sendMe lib CreateRequest False VlanTaggingFilterDataClassID timeout highPrio p rxChan oo"

definition sendSetEvtocdVar ::
    "omciLib \<Rightarrow> int \<Rightarrow> bool \<Rightarrow> channel \<Rightarrow> ParamData \<Rightarrow> omciCC \<Rightarrow> ManagedEntity option \<times> omciCC" where
  "sendSetEvtocdVar lib timeout highPrio rxChan p oo =
     sendMe lib SetRequest False ExtendedVlanTaggingOperationConfigurationDataClassID timeout highPrio p rxChan oo"

section \<open>Every request is a step of the channel\<close>

lemma prepareMe_tid:
  "prepareMe lib ty defaults c hp p oo = (r, oo1) \<Longrightarrow>
   \<exists>t. getNextTid hp oo = (t, oo1) \<and> (\<forall>t' pkt m. r = Some (t', pkt, m) \<longrightarrow> t' = t)"
  by (auto simp: prepareMe_def Let_def split: prod.splits option.splits)

lemma prepareMe_frame:
  "prepareMe lib ty defaults c hp p oo = (Some (t, pkt, m), oo1) \<Longrightarrow>
   pkt = \<lparr>rqType = ty, rqTid = t, rqClass = c, rqEntity = EntityID p, rqAttrs = Attributes p,
          rqAddDefaults = defaults, rqSequNo = 0, rqMask = 0\<rparr> \<and>
   m = \<lparr>meClass = c, meEntity = EntityID p, meAttrs = Attributes p\<rparr>"
  by (auto simp: prepareMe_def Let_def NewManagedEntity_def EncodeFrame_def serializeOmciLayer_def
      split: prod.splits option.splits if_splits)

lemma sendMe_cases:
  obtains (fails) t oo1 where "getNextTid hp oo = (t, oo1)"
      and "sendMe lib ty defaults c timeout hp p ch oo = (None, oo1)"
  | (sends) t oo1 where "getNextTid hp oo = (t, oo1)"
      and "sendMe lib ty defaults c timeout hp p ch oo =
        (Some \<lparr>meClass = c, meEntity = EntityID p, meAttrs = Attributes p\<rparr>,
         send (Some \<lparr>rqType = ty, rqTid = t, rqClass = c, rqEntity = EntityID p,
                 rqAttrs = Attributes p, rqAddDefaults = defaults, rqSequNo = 0, rqMask = 0\<rparr>)
           timeout 0 hp t \<lparr>cbRespChannel = ch, cbFunctionOf = Some ReceiveOmciResponse\<rparr> oo1)"
proof -
  obtain r oo1 where p: "prepareMe lib ty defaults c hp p oo = (r, oo1)" by fastforce
  from prepareMe_tid [OF this] obtain t where t: "getNextTid hp oo = (t, oo1)"
    and r: "\<And>t' pkt m. r = Some (t', pkt, m) \<Longrightarrow> t' = t"
    by auto
  show thesis
  proof (cases r)
    case None
    with p t show ?thesis by (intro fails) (auto simp: sendMe_def)
  next
    case (Some x)
    then obtain pkt m where x: "x = (t, pkt, m)" using r by (cases x) auto
    with Some p prepareMe_frame [of lib ty defaults c hp p oo t pkt m oo1] t show ?thesis
      by (intro sends) (auto simp: sendMe_def)
  qed
qed

lemma sendMe_is_step: "\<exists>a. cc_step lib oo a (snd (sendMe lib ty defaults c timeout hp p ch oo))"
  by (rule sendMe_cases [of hp oo lib ty defaults c timeout p ch])
    (auto intro: step_draw step_send)

text \<open>A request without a managed entity first writes the upload counters.\<close>

lemma sendPlain_is_run:
  assumes "sendPlain lib ty c sequ timeout hp ch upd oo = Done (r, oo')"
    and "upd = id \<or> upd = (\<lambda>oo. oo\<lparr>uploadSequNo := f oo, uploadNoOfCmds := g oo\<rparr>)"
  shows "\<exists>as. cc_run lib oo as oo'"
proof -
  obtain t oo1 where t: "getNextTid hp oo = (t, oo1)" by fastforce
  have s: "\<exists>a. cc_step lib oo1' a oo'" if "serialize lib ty c sequ 0 t = None" "oo1' = oo" for oo1'
    using assms(1) t that by (auto simp: sendPlain_def intro: step_draw)
  show ?thesis
  proof (cases "serialize lib ty c sequ 0 t")
    case None
    with s [of oo] show ?thesis using run_step [OF run_init] by blast
  next
    case (Some pkt)
    let ?cb = "\<lparr>cbRespChannel = ch, cbFunctionOf = Some ReceiveOmciResponse\<rparr>"
    have o: "oo' = send (Some pkt) timeout 0 hp t ?cb (upd oo1)"
      using assms(1) t Some by (auto simp: sendPlain_def split: if_splits)
    show ?thesis
    proof (cases "upd = id")
      case True
      from step_send [OF t refl] show ?thesis using run_step [OF run_init] by (metis True id_apply o)
    next
      case False
      let ?oo = "oo\<lparr>uploadSequNo := f oo1, uploadNoOfCmds := g oo1, pLastTxMeInstance := pLastTxMeInstance oo\<rparr>"
      have "getNextTid hp ?oo = (t, oo1\<lparr>uploadSequNo := f oo1, uploadNoOfCmds := g oo1,
          pLastTxMeInstance := pLastTxMeInstance oo\<rparr>)"
        using t by (auto simp: getNextTid_def Let_def split: if_splits)
      moreover have "pLastTxMeInstance oo1 = pLastTxMeInstance oo"
        using t by (auto simp: getNextTid_def Let_def split: if_splits)
      ultimately have "cc_step lib ?oo (ASend t (Some pkt)) oo'"
        using o False assms(2) by (intro step_send) auto
      with run_step [OF run_step [OF run_init step_note]] show ?thesis by blast
    qed
  qed
qed

lemma sendMeEntry_ok:
  "ccHasEntry oo \<Longrightarrow> sendMeEntry lib ty defaults c timeout hp p ch oo =
     Done (sendMe lib ty defaults c timeout hp p ch oo)"
  by (auto simp: sendMeEntry_def sendMe_def split: prod.splits option.splits)

lemma sendMe_has_entry [simp]:
  "ccHasEntry (snd (sendMe lib ty defaults c timeout hp p ch oo)) = ccHasEntry oo"
  by (rule sendMe_cases [of hp oo lib ty defaults c timeout p ch])
    (auto simp: send_def dest: getNextTid_frame)

lemmas send_me_defs = sendSetOnuGLS_def sendSetUniGLS_def sendSetVeipLS_def
  sendCreateDot1PMapper_def sendCreateMBPConfigDataVar_def sendCreateGemNCTPVar_def
  sendCreateGemIWTPVar_def sendSetTcontVar_def sendSetPrioQueueVar_def
  sendSetDot1PMapperVar_def sendCreateVtfdVar_def sendSetEvtocdVar_def

lemmas send_entry_defs = sendCreateGalEthernetProfile_def sendSetOnu2g_def
  sendCreateMBServiceProfile_def sendCreateMBPConfigData_def sendCreateEVTOConfigData_def
  sendGetMe_def

section \<open>Properties\<close>

lemma getNextTid_iterate:
  "fst (getNextTid False (((\<lambda>oo. snd (getNextTid False oo)) ^^ n) oo)) = (nextTid ^^ n) (tid oo)"
  "fst (getNextTid True (((\<lambda>oo. snd (getNextTid True oo)) ^^ n) oo)) = (nextHpTid ^^ n) (hpTid oo)"
proof -
  have "tid (((\<lambda>oo. snd (getNextTid False oo)) ^^ n) oo) = (nextTid ^^ n) (tid oo)"
    by (induction n) (simp_all add: getNextTid_low)
  moreover have "hpTid (((\<lambda>oo. snd (getNextTid True oo)) ^^ n) oo) = (nextHpTid ^^ n) (hpTid oo)"
    by (induction n) (simp_all add: getNextTid_high)
  ultimately show
    "fst (getNextTid False (((\<lambda>oo. snd (getNextTid False oo)) ^^ n) oo)) = (nextTid ^^ n) (tid oo)"
    "fst (getNextTid True (((\<lambda>oo. snd (getNextTid True oo)) ^^ n) oo)) = (nextHpTid ^^ n) (hpTid oo)"
    by (simp_all add: getNextTid_low getNextTid_high)
qed

text \<open>A concrete run: one request sent on a fresh channel.\<close>

definition example_handler :: handlerIds where
  "example_handler = \<lparr>hdDeviceID = ''olt'', hdDeviceType = ''onu'', hdProxyAddressID = ''p'',
     hdProxyAddressType = ''olt_adapter''\<rparr>"

definition example_cc :: omciCC where
  "example_cc = newOmciCC True ''onu'' example_handler"

definition example_uni :: onuUniPort where
  "example_uni = newOnuUniPort 0 256 257 uniPPTP"

definition example_sent :: omciCC where
  "example_sent = send None 10 0 False 1
     \<lparr>cbRespChannel = ChLock, cbFunctionOf = Some ReceiveOmciResponse\<rparr>
     (snd (getNextTid False (newOmciCC True ''onu'' example_handler)))"

lemma example_run:
  "cc_run permissive_lib (newOmciCC True ''onu'' example_handler) [ASend 1 None] example_sent"
proof -
  have "getNextTid False (newOmciCC True ''onu'' example_handler) =
      (1, snd (getNextTid False (newOmciCC True ''onu'' example_handler)))"
    by (simp add: getNextTid_def newOmciCC_def Let_def)
  from run_step [OF run_init step_send [OF this refl]] show ?thesis
    by (simp add: example_sent_def)
qed

text \<open>C3: in any state that is reached from a fresh channel the transaction identifiers drawn
  with one priority do not repeat within 32767 consecutive draws, an identifier is never 0, and
  the two priorities never share an identifier (high priority from 0x8000 on).\<close>

theorem getNextTid_unique:
  assumes "cc_run lib (newOmciCC entry dev handler) as oo" and "i < j" and "j - i < 0x7FFF"
  shows "fst (getNextTid hp (((\<lambda>oo. snd (getNextTid hp oo)) ^^ i) oo)) \<noteq>
      fst (getNextTid hp (((\<lambda>oo. snd (getNextTid hp oo)) ^^ j) oo)) \<and>
    fst (getNextTid hp oo) \<noteq> 0 \<and> (hp \<longleftrightarrow> 0x8000 \<le> unat (fst (getNextTid hp oo)))"
proof -
  from cc_wf_run [OF assms(1)] have w: "cc_wf oo" by simp
  have "fst (getNextTid hp (((\<lambda>oo. snd (getNextTid hp oo)) ^^ i) oo)) \<noteq>
      fst (getNextTid hp (((\<lambda>oo. snd (getNextTid hp oo)) ^^ j) oo))"
  proof (cases hp)
    case True
    with w assms highTid.distinct_window [of "hpTid oo" i j] show ?thesis
      by (simp add: getNextTid_iterate cc_wf_def)
  next
    case False
    with w assms lowTid.distinct_window [of "tid oo" i j] show ?thesis
      by (simp add: getNextTid_iterate cc_wf_def)
  qed
  moreover obtain t oo' where "getNextTid hp oo = (t, oo')" by fastforce
  ultimately show ?thesis using getNextTid_wf [OF w, of hp t oo'] by simp
qed

theorem getNextTid_unique_witness:
  "fst (getNextTid False (((\<lambda>oo. snd (getNextTid False oo)) ^^ 0) example_cc)) \<noteq>
   fst (getNextTid False (((\<lambda>oo. snd (getNextTid False oo)) ^^ 5) example_cc))"
  unfolding example_cc_def using getNextTid_unique [OF run_init, of 0 5 False] by auto

text \<open>C1: requests leave the ONU adapter in the order in which they were sent: at any point of
  any interleaving of requests, transmissions and receptions, what has been handed to the OLT
  adapter followed by what still waits in the queue is exactly the sequence of sent frames; no
  frame is lost, duplicated or overtaken, also when the transmission fails.\<close>

theorem requests_fifo:
  assumes "cc_run lib (newOmciCC entry dev handler) as oo"
  shows "map iaPayload (wire oo) @ map txFrame (txQueue oo) = sent_frames as"
  using outgoing_run [OF assms] by (simp add: outgoing_def newOmciCC_def)

theorem requests_fifo_witness:
  "map iaPayload (wire (example_sent)) @ map txFrame (txQueue example_sent) = [None]"
  using requests_fifo [OF example_run] by simp

text \<open>C2: a response handler runs at most once per request: over any interleaving, the messages
  dispatched to a transaction identifier never outnumber the requests sent with it.\<close>

theorem response_at_most_once:
  assumes "cc_run lib (newOmciCC entry dev handler) as oo"
  shows "dispatched t as + pending oo t \<le> requested t as"
  using dispatch_run [OF assms, of t] by (simp add: pending_def newOmciCC_def)

theorem response_at_most_once_witness:
  "dispatched 1 [ASend 1 None] + pending example_sent 1 \<le> requested 1 [ASend 1 None] \<and>
   pending example_sent 1 = 1"
  using response_at_most_once [OF example_run, of 1]
  by (simp add: pending_def example_sent_def send_def)

text \<open>One run of the transmitter in an environment without failures empties the queue and
  hands every frame over in order; a run that fails leaves the frame that failed, and everything
  behind it, in the queue.\<close>

lemma sendNextRequest_drains:
  "txQueue (snd (sendNextRequest (\<lambda>_. TxOk) oo)) = [] \<and>
   wire (snd (sendNextRequest (\<lambda>_. TxOk) oo)) = wire oo @ map (interAdapterMsg oo) (txQueue oo) \<and>
   (fst (sendNextRequest env oo) \<noteq> None \<longleftrightarrow> txQueue (snd (sendNextRequest env oo)) \<noteq> []) \<and>
   (\<exists>sent. txQueue oo = sent @ txQueue (snd (sendNextRequest env oo)) \<and>
      wire (snd (sendNextRequest env oo)) = wire oo @ map (interAdapterMsg oo) sent)"
proof -
  have ok: "sendLoop (\<lambda>_. TxOk) n q = (None, q, [])" for n q
    by (induction q arbitrary: n) auto
  show ?thesis
    by (rule sendNextRequest_shape [of env oo])
      (simp add: sendNextRequest_def [of "\<lambda>_. TxOk"] ok, metis)
qed

text \<open>A request built from a managed entity is atomic: it returns the instance exactly when
  its frame, with a fresh identifier, has been put behind the queue and its handler registered
  for that identifier and the given channel; otherwise neither queue nor handlers change.\<close>

lemma sendMe_atomic:
  "(case sendMe lib ty defaults c timeout hp p ch oo of
      (None, oo') \<Rightarrow> txQueue oo' = txQueue oo \<and> rxSchedulerMap oo' = rxSchedulerMap oo \<and>
        ccTasks oo' = ccTasks oo
    | (Some m, oo') \<Rightarrow> m = \<lparr>meClass = c, meEntity = EntityID p, meAttrs = Attributes p\<rparr> \<and>
        rxSchedulerMap oo' = (rxSchedulerMap oo)(fst (getNextTid hp oo) \<mapsto>
          \<lparr>cbRespChannel = ch, cbFunctionOf = Some ReceiveOmciResponse\<rparr>) \<and>
        ccTasks oo' = ccTasks oo @ [TxTask] \<and>
        map txFrame (txQueue oo') = map txFrame (txQueue oo) @
          [Some \<lparr>rqType = ty, rqTid = fst (getNextTid hp oo), rqClass = c, rqEntity = EntityID p,
                 rqAttrs = Attributes p, rqAddDefaults = defaults, rqSequNo = 0, rqMask = 0\<rparr>])"
  by (rule sendMe_cases [of hp oo lib ty defaults c timeout p ch])
    (auto simp: send_def dest: getNextTid_frame)

text \<open>A message the ONU sends on its own (an alarm or an attribute value change: type without
  the acknowledge bit, identifier 0) is never taken for one: in every state reached from a fresh
  channel it is rejected as a response without handler, because the test of the message type
  clears the acknowledge bit instead of selecting it.\<close>

lemma autonomous_message_rejected:
  assumes "cc_run lib (newOmciCC entry dev handler) as oo" and "44 \<le> length rx"
    and "lib_decode lib (fixTrailer rx) = Decoded omciMsg packet"
    and "hdrMessageType omciMsg = AlarmNotificationType \<or>
      hdrMessageType omciMsg = AttributeValueChangeType"
    and "TransactionID omciMsg = 0"
  shows "receiveMessage lib rx oo = (Some NoRegisteredHandler, oo)"
proof -
  have "AlarmNotificationType AND NOT AK \<noteq> 0" "AttributeValueChangeType AND NOT AK \<noteq> 0"
    by (simp_all add: msg_types)
  moreover have "rxSchedulerMap oo 0 = None"
    using cc_wf_run [OF assms(1) cc_wf_new] by (simp add: cc_wf_def)
  ultimately show ?thesis using assms(2-5) by (auto simp: receiveMessage_def)
qed

lemma autonomous_message_rejected_witness:
  "\<exists>lib oo. receiveMessage lib (replicate 48 0) oo = (Some NoRegisteredHandler, oo)"
proof -
  let ?m = "\<lparr>TransactionID = 0, hdrMessageType = AlarmNotificationType, DeviceIdentifier = 0x0A, hdrPayload = []\<rparr>"
  let ?lib = "permissive_lib\<lparr>lib_decode := (\<lambda>_. Decoded ?m None)\<rparr>"
  have "receiveMessage ?lib (replicate 48 0) (newOmciCC True [] example_handler) =
      (Some NoRegisteredHandler, newOmciCC True [] example_handler)"
    by (rule autonomous_message_rejected [OF run_init, where omciMsg = ?m and packet = None]) simp_all
  then show ?thesis by blast
qed

text \<open>A response to a registered request is accepted, whatever its trailer, removes the
  registration, and the handler task then posts exactly this message on the channel that was
  registered.\<close>

lemma response_reaches_channel:
  assumes "44 \<le> length rx" and "lib_decode lib (fixTrailer rx) = Decoded omciMsg packet"
    and "hdrMessageType omciMsg \<notin> {0, AK}" and "ccHasEntry oo"
    and "rxSchedulerMap oo (TransactionID omciMsg) =
      Some \<lparr>cbRespChannel = ch, cbFunctionOf = Some ReceiveOmciResponse\<rparr>"
  shows "\<exists>task oo'. receiveMessage lib rx oo = (None, oo') \<and> ccTasks oo' = ccTasks oo @ [task] \<and>
    rxSchedulerMap oo' (TransactionID omciMsg) = None \<and>
    posted (runTask env task oo') = posted oo @ [(ch, OMCI omciMsg packet)]"
proof -
  have "hdrMessageType omciMsg AND NOT AK \<noteq> 0"
  proof
    let ?t = "hdrMessageType omciMsg"
    assume z: "?t AND NOT AK = 0"
    have "?t = (?t AND AK) OR (?t AND NOT AK)"
      by (rule bit_word_eqI) (auto simp: bit_simps)
    with z have t: "?t = ?t AND AK" by simp
    have ak: "AK = 2 ^ 5" by (simp add: AK_def)
    have "?t AND AK = 0 \<or> ?t AND AK = AK"
    proof (cases "bit ?t 5")
      case True
      then have "?t AND AK = AK"
        unfolding ak by (intro bit_word_eqI) (simp only: bit_and_iff bit_exp_iff, auto)
      then show ?thesis ..
    next
      case False
      then show ?thesis unfolding ak and_exp_eq_0_iff_not_bit by simp
    qed
    with t assms(3) show False by simp
  qed
  with assms show ?thesis
    by (auto simp: receiveMessage_def runTask_def receiveOmciResponse_def)
qed

lemma response_reaches_channel_witness:
  "\<exists>lib oo task oo'. receiveMessage lib (replicate 44 0) oo = (None, oo') \<and> ccTasks oo' = ccTasks oo @ [task]"
proof -
  let ?m = "\<lparr>TransactionID = 7, hdrMessageType = SetResponseType, DeviceIdentifier = 0x0A, hdrPayload = []\<rparr>"
  let ?lib = "permissive_lib\<lparr>lib_decode := (\<lambda>_. Decoded ?m None)\<rparr>"
  let ?oo = "send None 10 0 False 7 \<lparr>cbRespChannel = ChLock, cbFunctionOf = Some ReceiveOmciResponse\<rparr>
    (newOmciCC True [] example_handler)"
  have "\<exists>task oo'. receiveMessage ?lib (replicate 44 0) ?oo = (None, oo') \<and> ccTasks oo' = ccTasks ?oo @ [task] \<and>
    rxSchedulerMap oo' (TransactionID ?m) = None \<and>
    posted (runTask (\<lambda>_. TxOk) task oo') = posted ?oo @ [(ChLock, OMCI ?m None)]"
    by (rule response_reaches_channel [where omciMsg = ?m]) (simp_all add: send_def newOmciCC_def msg_types)
  then show ?thesis by blast
qed

end
