(* ===== verification/Omci_Test.thy ===== *)
theory Omci_Test
  imports Omci_Send
begin

text \<open>
  The verification test of the channel (\<open>omci_test_request.go\<close>): \<open>createInterface\<close> sends one
  Get request and waits at most two seconds for the verdict that the handler of the response
  puts on an unbuffered channel. The step relation \<open>vt_step\<close> interleaves the wait, the tasks
  of the OMCI channel, and every other request and reception.
\<close>

section \<open>The request object\<close>

text \<open>\<open>pDevOmciCC\<close> and \<open>verifyDone\<close> are pointers: the fields tell whether they are set.\<close>

record omciTestRequest =
  deviceIDOf :: string
  pDevOmciCC :: bool
  started :: bool
  result :: bool
  exclusiveCc :: bool
  allowFailure :: bool
  txSeqNo :: u16
  verifyDone :: bool

definition newOmciTestRequest :: "string \<Rightarrow> bool \<Rightarrow> bool \<Rightarrow> bool \<Rightarrow> omciTestRequest" where
  "newOmciTestRequest dev omciCc exclusive allowFail =
     \<lparr>deviceIDOf = dev, pDevOmciCC = omciCc, started = False, result = False, exclusiveCc = exclusive,
      allowFailure = allowFail, txSeqNo = 0, verifyDone = False\<rparr>"

definition createOnu2gBaseGet :: "omciLib \<Rightarrow> u16 \<Rightarrow> omciTestRequest \<Rightarrow> omciRequest option \<times> omciTestRequest" where
  "createOnu2gBaseGet lib t oo =
     (serialize lib GetRequest Onu2GClassID 0 0xE000 t, oo\<lparr>txSeqNo := t\<rparr>)"

text \<open>
  The error of the serialization is ignored: a failure sends a nil frame. The request is sent
  by a goroutine of its own.
\<close>

definition performOmciTest :: "omciLib \<Rightarrow> omciTestRequest \<Rightarrow> omciCC \<Rightarrow> omciTestRequest \<times> omciCC" where
  "performOmciTest lib oo cc =
     (if pDevOmciCC oo then
        (let (t, cc1) = getNextTid False cc;
             (onu2gBaseGet, oo1) = createOnu2gBaseGet lib t (oo\<lparr>verifyDone := True\<rparr>)
         in (oo1, cc1\<lparr>ccTasks := ccTasks cc1 @ [SendTask onu2gBaseGet t
               \<lparr>cbRespChannel = ChNil, cbFunctionOf = Some ReceiveOmciVerifyResponse\<rparr>]\<rparr>))
      else (oo, cc))"

lemma performOmciTest_channel:
  "rxSchedulerMap (snd (performOmciTest lib req cc)) = rxSchedulerMap cc"
  by (simp add: performOmciTest_def createOnu2gBaseGet_def getNextTid_def Let_def split: prod.split)

datatype verify_error = UnexpectedTransCorrId | UnexpectedMessageType

text \<open>The handler of the response: what it sends on \<open>verifyDone\<close>, what it returns, and the object.\<close>

definition receiveOmciVerifyResponse ::
    "omciHeader \<Rightarrow> omciTestRequest \<Rightarrow> bool \<times> verify_error option \<times> omciTestRequest" where
  "receiveOmciVerifyResponse omciMsg oo =
     (if TransactionID omciMsg \<noteq> txSeqNo oo then (False, Some UnexpectedTransCorrId, oo)
      else if hdrMessageType omciMsg \<noteq> GetResponseType then (False, Some UnexpectedMessageType, oo)
      else (True, None, oo\<lparr>result := True\<rparr>))"

section \<open>The wait of createInterface\<close>

text \<open>
  The \<open>select\<close> of \<open>createInterface\<close> between a timer and the verdict, the handlers that have
  reached their send on the unbuffered channel, and the responses handled so far.
\<close>

datatype verify_wait = Waiting | TimedOut | GotVerdict bool

record verify_state =
  vt_req :: omciTestRequest
  vt_cc :: omciCC
  vt_wait :: verify_wait
  vt_sending :: "bool list"
  vt_answers :: "(omciHeader \<times> verify_error option) list"

definition vt_init :: "omciLib \<Rightarrow> string \<Rightarrow> handlerIds \<Rightarrow> verify_state" where
  "vt_init lib dev handler =
     (case performOmciTest lib (newOmciTestRequest dev True True True) (newOmciCC True dev handler) of
        (req, cc) \<Rightarrow> \<lparr>vt_req = req, vt_cc = cc, vt_wait = Waiting, vt_sending = [], vt_answers = []\<rparr>)"

fun verify_rx :: "ccTask \<Rightarrow> bool" where
  "verify_rx (RxTask cb hdr packet) = (cbFunctionOf cb = Some ReceiveOmciVerifyResponse)"
| "verify_rx t = False"

text \<open>
  Every request but this one registers \<open>receiveOmciResponse\<close>. A sender on an unbuffered channel
  leaves its send only when a receiver takes the value, and \<open>createInterface\<close> receives once.
\<close>

inductive vt_step :: "omciLib \<Rightarrow> verify_state \<Rightarrow> verify_state \<Rightarrow> bool" for lib where
  v_draw: "getNextTid hp (vt_cc s) = (t, cc') \<Longrightarrow> vt_step lib s (s\<lparr>vt_cc := cc'\<rparr>)"
| v_request: "getNextTid hp (vt_cc s) = (t, cc1) \<Longrightarrow>
    cc' = send frame timeout retry hp t \<lparr>cbRespChannel = ch, cbFunctionOf = Some ReceiveOmciResponse\<rparr> cc1 \<Longrightarrow>
    vt_step lib s (s\<lparr>vt_cc := cc'\<rparr>)"
| v_note: "cc' = (vt_cc s)\<lparr>uploadSequNo := sequ, uploadNoOfCmds := n, pLastTxMeInstance := inst\<rparr> \<Longrightarrow>
    vt_step lib s (s\<lparr>vt_cc := cc'\<rparr>)"
| v_task: "ccTasks (vt_cc s) = ts1 @ task # ts2 \<Longrightarrow> \<not> verify_rx task \<Longrightarrow>
    cc' = runTask env task ((vt_cc s)\<lparr>ccTasks := ts1 @ ts2\<rparr>) \<Longrightarrow> vt_step lib s (s\<lparr>vt_cc := cc'\<rparr>)"
| v_receive: "receiveMessage lib rx (vt_cc s) = (r, cc') \<Longrightarrow> vt_step lib s (s\<lparr>vt_cc := cc'\<rparr>)"
| v_answer: "ccTasks (vt_cc s) = ts1 @ RxTask cb hdr packet # ts2 \<Longrightarrow> verify_rx (RxTask cb hdr packet) \<Longrightarrow>
    receiveOmciVerifyResponse hdr (vt_req s) = (v, e, req') \<Longrightarrow>
    vt_step lib s (s\<lparr>vt_req := req', vt_cc := (vt_cc s)\<lparr>ccTasks := ts1 @ ts2\<rparr>,
      vt_sending := vt_sending s @ [v], vt_answers := vt_answers s @ [(hdr, e)]\<rparr>)"
| v_verdict: "vt_wait s = Waiting \<Longrightarrow> vt_sending s = v # vs \<Longrightarrow>
    vt_step lib s (s\<lparr>vt_wait := GotVerdict v, vt_sending := vs\<rparr>)"
| v_timeout: "vt_wait s = Waiting \<Longrightarrow> vt_step lib s (s\<lparr>vt_wait := TimedOut\<rparr>)"

inductive vt_run :: "omciLib \<Rightarrow> verify_state \<Rightarrow> verify_state \<Rightarrow> bool" for lib where
  vt_start: "vt_run lib s s"
| vt_then: "vt_run lib s s' \<Longrightarrow> vt_step lib s' s'' \<Longrightarrow> vt_run lib s s''"

inductive_cases vt_stepE: "vt_step lib s s'"

section \<open>The handshake\<close>

text \<open>
  The single token of the test: the goroutine that is to send the request, the registered
  handler, or the started handler. A token carries the identifier of the request.
\<close>

definition is_verify :: "callbackPairEntry \<Rightarrow> bool" where
  "is_verify cb \<longleftrightarrow> cbFunctionOf cb = Some ReceiveOmciVerifyResponse"

fun verify_task :: "ccTask \<Rightarrow> bool" where
  "verify_task TxTask = False"
| "verify_task (RxTask cb hdr packet) = is_verify cb"
| "verify_task (SendTask frame k cb) = is_verify cb"

fun task_tid :: "ccTask \<Rightarrow> u16 \<Rightarrow> bool" where
  "task_tid TxTask t = True"
| "task_tid (RxTask cb hdr packet) t = (is_verify cb \<longrightarrow> TransactionID hdr = t)"
| "task_tid (SendTask frame k cb) t = (is_verify cb \<and> k = t)"

lemma verify_rx_task: "verify_rx task \<Longrightarrow> verify_task task"
  by (cases task) (simp_all add: is_verify_def)

definition registered :: "u16 \<Rightarrow> omciCC \<Rightarrow> nat" where
  "registered t cc = (case rxSchedulerMap cc t of Some cb \<Rightarrow> if is_verify cb then 1 else 0 | None \<Rightarrow> 0)"

definition tokens :: "u16 \<Rightarrow> omciCC \<Rightarrow> nat" where
  "tokens t cc = registered t cc + length (filter verify_task (ccTasks cc))"

definition tokens_tid :: "u16 \<Rightarrow> omciCC \<Rightarrow> bool" where
  "tokens_tid t cc \<longleftrightarrow> list_all (\<lambda>task. task_tid task t) (ccTasks cc) \<and>
     (\<forall>k cb. rxSchedulerMap cc k = Some cb \<and> is_verify cb \<longrightarrow> k = t)"

lemmas token_defs = tokens_def tokens_tid_def registered_def

lemma token_cong:
  "rxSchedulerMap cc' = rxSchedulerMap cc \<Longrightarrow> ccTasks cc' = ccTasks cc \<Longrightarrow>
   tokens t cc' = tokens t cc \<and> tokens_tid t cc' = tokens_tid t cc"
  by (simp add: token_defs)

lemma token_send:
  "\<not> is_verify cb \<Longrightarrow> tokens t (send frame timeout retry hp k cb cc) \<le> tokens t cc \<and>
   (tokens_tid t cc \<longrightarrow> tokens_tid t (send frame timeout retry hp k cb cc))"
  by (auto simp: token_defs send_def split: option.split)

lemma token_take:
  assumes "ccTasks cc = ts1 @ task # ts2"
  shows "tokens t cc = tokens t (cc\<lparr>ccTasks := ts1 @ ts2\<rparr>) + (if verify_task task then 1 else 0)"
    and "tokens_tid t cc \<Longrightarrow> tokens_tid t (cc\<lparr>ccTasks := ts1 @ ts2\<rparr>) \<and> task_tid task t"
  using assms by (auto simp: token_defs)

lemma token_run:
  assumes "\<not> verify_rx task" and "tokens_tid t cc" and "task_tid task t"
  shows "tokens t (runTask env task cc) \<le> tokens t cc + (if verify_task task then 1 else 0) \<and>
    tokens_tid t (runTask env task cc)"
proof (cases task)
  case TxTask
  obtain e sent rest where "sendNextRequest env cc =
      (e, cc\<lparr>txQueue := rest, wire := wire cc @ map (interAdapterMsg cc) sent\<rparr>)"
    by (rule sendNextRequest_shape)
  with TxTask assms(2) show ?thesis by (simp add: runTask_def token_defs)
next
  case (SendTask frame k cb)
  with assms show ?thesis
    by (auto simp: runTask_def send_def token_defs split: option.split)
next
  case (RxTask cb hdr packet)
  with assms show ?thesis
    by (auto simp: runTask_def receiveOmciResponse_def token_defs is_verify_def
        split: option.split cbFunction.split)
qed

lemma token_receive:
  assumes "receiveMessage lib rx cc = (r, cc')" and "tokens_tid t cc"
  shows "tokens t cc' \<le> tokens t cc \<and> tokens_tid t cc'"
proof (cases r)
  case (Some e)
  with receiveMessage_cases [OF assms(1)] assms(2) show ?thesis by simp
next
  case None
  with receiveMessage_cases [OF assms(1)] obtain cb hdr packet
    where cb: "rxSchedulerMap cc (TransactionID hdr) = Some cb"
      and cc': "cc' = cc\<lparr>ccTasks := ccTasks cc @ [RxTask cb hdr packet],
        rxSchedulerMap := (rxSchedulerMap cc)(TransactionID hdr := None)\<rparr>"
    by auto
  have v: "is_verify cb \<Longrightarrow> TransactionID hdr = t"
    using assms(2) cb by (auto simp: tokens_tid_def)
  have m: "k = t" if "rxSchedulerMap cc k = Some cb'" "is_verify cb'" for k cb'
    using assms(2) that by (auto simp: tokens_tid_def)
  have "tokens_tid t cc'"
    using assms(2) v m by (auto simp: tokens_tid_def cc')
  moreover have "tokens t cc' \<le> tokens t cc"
    using cb v by (cases "TransactionID hdr = t") (auto simp: tokens_def registered_def cc')
  ultimately show ?thesis by simp
qed

text \<open>The verdicts of the handlers that have run: taken by the wait, or still being sent.\<close>

definition verdicts :: "verify_state \<Rightarrow> bool list" where
  "verdicts s = map (\<lambda>(hdr, e). e = None) (vt_answers s)"

lemma verdicts_updates [simp]:
  "verdicts (s\<lparr>vt_cc := cc\<rparr>) = verdicts s"
  "verdicts (s\<lparr>vt_wait := x, vt_sending := vs\<rparr>) = verdicts s" "verdicts (s\<lparr>vt_wait := x\<rparr>) = verdicts s"
  by (simp_all add: verdicts_def)

definition taken :: "verify_wait \<Rightarrow> bool list" where
  "taken w = (case w of GotVerdict v \<Rightarrow> [v] | _ \<Rightarrow> [])"

definition answer_ok :: "u16 \<Rightarrow> omciHeader \<times> verify_error option \<Rightarrow> bool" where
  "answer_ok t a \<longleftrightarrow> TransactionID (fst a) = t \<and>
     snd a = (if hdrMessageType (fst a) = GetResponseType then None else Some UnexpectedMessageType)"

definition vt_inv :: "u16 \<Rightarrow> verify_state \<Rightarrow> bool" where
  "vt_inv t s \<longleftrightarrow> txSeqNo (vt_req s) = t \<and> tokens_tid t (vt_cc s) \<and>
     tokens t (vt_cc s) + length (vt_answers s) \<le> 1 \<and> list_all (answer_ok t) (vt_answers s) \<and>
     verdicts s = taken (vt_wait s) @ vt_sending s \<and> (result (vt_req s) \<longleftrightarrow> True \<in> set (verdicts s))"

lemma vt_inv_cc:
  assumes "vt_inv t s" and "tokens_tid t cc'" and "tokens t cc' \<le> tokens t (vt_cc s)"
  shows "vt_inv t (s\<lparr>vt_cc := cc'\<rparr>)"
  using assms by (simp add: vt_inv_def)

lemma vt_inv_answer:
  assumes "vt_inv t s" and "ccTasks (vt_cc s) = ts1 @ RxTask cb hdr packet # ts2" and "is_verify cb"
    and "receiveOmciVerifyResponse hdr (vt_req s) = (v, e, req')"
  shows "vt_inv t (s\<lparr>vt_req := req', vt_cc := (vt_cc s)\<lparr>ccTasks := ts1 @ ts2\<rparr>,
      vt_sending := vt_sending s @ [v], vt_answers := vt_answers s @ [(hdr, e)]\<rparr>)"
proof -
  have i: "txSeqNo (vt_req s) = t" "tokens_tid t (vt_cc s)" "tokens t (vt_cc s) + length (vt_answers s) \<le> 1"
      "list_all (answer_ok t) (vt_answers s)" "verdicts s = taken (vt_wait s) @ vt_sending s"
      "result (vt_req s) \<longleftrightarrow> True \<in> set (verdicts s)"
    using assms(1) by (simp_all add: vt_inv_def)
  have k: "TransactionID hdr = t" "tokens_tid t ((vt_cc s)\<lparr>ccTasks := ts1 @ ts2\<rparr>)"
    using token_take(2) [OF assms(2) i(2)] assms(3) by simp_all
  have n: "tokens t (vt_cc s) = tokens t ((vt_cc s)\<lparr>ccTasks := ts1 @ ts2\<rparr>) + 1"
    using token_take(1) [OF assms(2), of t] assms(3) by simp
  have e: "v \<longleftrightarrow> e = None" "answer_ok t (hdr, e)" "txSeqNo req' = t" "result req' \<longleftrightarrow> result (vt_req s) \<or> v"
    using assms(4) k(1) i(1) by (auto simp: receiveOmciVerifyResponse_def answer_ok_def split: if_split_asm)
  show ?thesis
    using i(3-6) k(2) n e by (auto simp: vt_inv_def verdicts_def)
qed

lemma vt_inv_step: "vt_step lib s s' \<Longrightarrow> vt_inv t s \<Longrightarrow> vt_inv t s'"
proof (induction rule: vt_step.induct)
  case (v_draw hp s u cc')
  then show ?case
    using token_cong [of cc' "vt_cc s"] getNextTid_frame by (metis order_refl vt_inv_cc vt_inv_def)
next
  case (v_request hp s u cc1 cc' frame timeout retry ch)
  have "tokens_tid t cc1" "tokens t cc1 = tokens t (vt_cc s)"
    using token_cong [of cc1 "vt_cc s" t] getNextTid_frame [OF v_request(1)] v_request(3) by (auto simp: vt_inv_def)
  then show ?case
    using v_request token_send [of "\<lparr>cbRespChannel = ch, cbFunctionOf = Some ReceiveOmciResponse\<rparr>" t frame timeout retry hp u cc1]
    by (intro vt_inv_cc) (simp_all add: is_verify_def)
next
  case (v_note cc' inst n sequ s)
  then show ?case
    using token_cong [of cc' "vt_cc s" t] by (auto intro!: vt_inv_cc simp: vt_inv_def)
next
  case (v_task s ts1 task ts2 cc' env)
  note k = token_take(2) [OF v_task(1), of t] and n = token_take(1) [OF v_task(1), of t]
  show ?case
    using v_task k n token_run [OF v_task(2), of t "(vt_cc s)\<lparr>ccTasks := ts1 @ ts2\<rparr>" env]
    by (intro vt_inv_cc) (auto simp: vt_inv_def)
next
  case (v_receive rx s r cc')
  then show ?case
    using token_receive [OF v_receive(1), of t] by (intro vt_inv_cc) (auto simp: vt_inv_def)
next
  case (v_answer s ts1 cb hdr packet ts2 v e req')
  then show ?case by (intro vt_inv_answer) (simp_all add: is_verify_def)
next
  case (v_verdict s v vs)
  then show ?case by (simp add: vt_inv_def taken_def)
next
  case (v_timeout s)
  then show ?case by (simp add: vt_inv_def taken_def)
qed

lemma vt_inv_run: "vt_run lib s s' \<Longrightarrow> vt_inv t s \<Longrightarrow> vt_inv t s'"
  by (induction rule: vt_run.induct) (auto intro: vt_inv_step)

lemma vt_inv_init: "vt_inv 1 (vt_init lib dev handler)"
  by (simp add: vt_init_def performOmciTest_def newOmciTestRequest_def createOnu2gBaseGet_def newOmciCC_def
      getNextTid_def Let_def vt_inv_def token_defs verdicts_def taken_def is_verify_def)

lemma vt_timed_out: "vt_run lib s s' \<Longrightarrow> vt_wait s = TimedOut \<Longrightarrow> vt_wait s' = TimedOut"
  by (induction rule: vt_run.induct) (auto elim: vt_stepE)

lemma vt_run_trans: "vt_run lib s' s'' \<Longrightarrow> vt_run lib s s' \<Longrightarrow> vt_run lib s s''"
  by (induction rule: vt_run.induct) (auto intro: vt_then)

text \<open>The run is one of the channel.\<close>

lemma vt_step_cc: "vt_step lib s s' \<Longrightarrow> vt_cc s' = vt_cc s \<or> (\<exists>a. cc_step lib (vt_cc s) a (vt_cc s'))"
proof (induction rule: vt_step.induct)
  case (v_task s ts1 task ts2 cc' env)
  then show ?case
    by (cases task) (auto intro: step_tx step_deliver step_test_send)
next
  case (v_answer s ts1 cb hdr packet ts2 v e req')
  then have "runTask env (RxTask cb hdr packet) ((vt_cc s)\<lparr>ccTasks := ts1 @ ts2\<rparr>) = (vt_cc s)\<lparr>ccTasks := ts1 @ ts2\<rparr>" for env
    by (simp add: runTask_def)
  with step_deliver [OF v_answer(1), of lib] show ?case by auto
next
  case (v_receive rx s r cc')
  then show ?case using receiveMessage_is_step [of lib "vt_cc s" rx] by auto
qed (auto intro: step_draw step_send step_note)

section \<open>Properties\<close>

text \<open>C10: whatever else the channel does, at most one response of the verification test is ever
  handled; it always carries the identifier of the request, so the check of the identifier
  never fails, and the verdict is positive exactly for a Get response. \<open>createInterface\<close> takes
  this verdict or times out; once it has timed out, the goroutine that handles the response
  blocks at its send for ever, because nothing receives from the channel again.\<close>

theorem verify_handshake:
  assumes "vt_run lib (vt_init lib dev handler) s"
  shows "length (vt_answers s) \<le> 1 \<and>
    list_all (\<lambda>(hdr, e). TransactionID hdr = txSeqNo (vt_req s) \<and> e \<noteq> Some UnexpectedTransCorrId \<and>
      (e = None \<longleftrightarrow> hdrMessageType hdr = GetResponseType)) (vt_answers s) \<and>
    verdicts s = taken (vt_wait s) @ vt_sending s \<and>
    (vt_wait s = TimedOut \<and> vt_run lib s s' \<longrightarrow> vt_sending s' = verdicts s')"
proof -
  have i: "vt_inv 1 s" using vt_inv_run [OF assms vt_inv_init] .
  have "vt_sending s' = verdicts s'" if "vt_wait s = TimedOut" "vt_run lib s s'"
    using vt_inv_run [OF that(2) i] vt_timed_out [OF that(2,1)] by (simp add: vt_inv_def taken_def)
  moreover have "(\<lambda>(hdr, e). TransactionID hdr = txSeqNo (vt_req s) \<and> e \<noteq> Some UnexpectedTransCorrId \<and>
      (e = None \<longleftrightarrow> hdrMessageType hdr = GetResponseType)) a" if "answer_ok 1 a" for a
    using that i by (cases a) (simp add: answer_ok_def vt_inv_def)
  ultimately show ?thesis using i by (simp add: vt_inv_def list_all_iff)
qed

definition test_lib :: omciLib where
  "test_lib = permissive_lib\<lparr>lib_decode := (\<lambda>_. Decoded \<lparr>TransactionID = 1, hdrMessageType = GetResponseType,
     DeviceIdentifier = 10, hdrPayload = []\<rparr> None)\<rparr>"

text \<open>A response that comes after the timeout.\<close>

lemma late_response:
  "\<exists>s. vt_run test_lib (vt_init test_lib ''onu'' example_handler) s \<and> vt_wait s = TimedOut \<and> vt_sending s = [True]"
proof -
  let ?s0 = "vt_init test_lib ''onu'' example_handler"
  let ?s1 = "?s0\<lparr>vt_wait := TimedOut\<rparr>"
  let ?cb = "\<lparr>cbRespChannel = ChNil, cbFunctionOf = Some ReceiveOmciVerifyResponse\<rparr>"
  have i: "ccTasks (vt_cc ?s1) = [] @ SendTask (serialize test_lib GetRequest Onu2GClassID 0 0xE000 1) 1 ?cb # []"
      "txSeqNo (vt_req ?s0) = 1" "vt_wait ?s0 = Waiting" "vt_sending ?s0 = []"
    by (simp_all add: vt_init_def performOmciTest_def newOmciTestRequest_def createOnu2gBaseGet_def newOmciCC_def
        getNextTid_def Let_def)
  obtain s2 where 2: "vt_step test_lib ?s1 s2" "rxSchedulerMap (vt_cc s2) 1 = Some ?cb" "vt_wait s2 = TimedOut"
      "vt_sending s2 = []" "txSeqNo (vt_req s2) = 1"
    using v_task [OF i(1) _ refl] i by (fastforce simp: runTask_def send_def)
  let ?hdr = "\<lparr>TransactionID = 1, hdrMessageType = GetResponseType, DeviceIdentifier = 10, hdrPayload = []\<rparr>"
  let ?s3 = "s2\<lparr>vt_cc := (vt_cc s2)\<lparr>ccTasks := ccTasks (vt_cc s2) @ [RxTask ?cb ?hdr None],
    rxSchedulerMap := (rxSchedulerMap (vt_cc s2))(1 := None)\<rparr>\<rparr>"
  have "receiveMessage test_lib (replicate 44 0) (vt_cc s2) = (None, vt_cc ?s3)"
    using 2(2) by (simp add: receiveMessage_def test_lib_def msg_types AK_def)
  from v_receive [OF this] have 3: "vt_step test_lib s2 ?s3" by simp
  have t: "ccTasks (vt_cc ?s3) = ccTasks (vt_cc s2) @ RxTask ?cb ?hdr None # []" by simp
  obtain s4 where 4: "vt_step test_lib ?s3 s4" "vt_wait s4 = TimedOut" "vt_sending s4 = [True]"
    using v_answer [OF t] 2 by (fastforce simp: receiveOmciVerifyResponse_def)
  show ?thesis
    using vt_then [OF vt_then [OF vt_then [OF vt_then [OF vt_start v_timeout [OF i(3)]] 2(1)] 3] 4(1)] 4 by blast
qed

theorem verify_handshake_witness:
  "\<exists>s. vt_wait s = TimedOut \<and> vt_sending s = [True] \<and> verdicts s = [True] \<and> length (vt_answers s) \<le> 1"
proof -
  obtain s where s: "vt_run test_lib (vt_init test_lib ''onu'' example_handler) s" "vt_wait s = TimedOut"
      "vt_sending s = [True]"
    using late_response by blast
  note h = verify_handshake [OF s(1), of s]
  have 1: "length (vt_answers s) \<le> 1" and "verdicts s = taken (vt_wait s) @ vt_sending s"
    using h by blast+
  then have "verdicts s = [True]"
    using s(2,3) by (simp add: taken_def)
  with 1 s(2,3) show ?thesis by (intro exI [of _ s]) simp
qed

end
