(* ===== verification/Fsm.thy ===== *)
theory Fsm
  imports Prelude
begin

text \<open>
  The finite-state-machine engine every component of the adapter runs on
  (\<open>vendor/github.com/looplab/fsm/fsm.go\<close>): \<open>NewFSM\<close> builds the transition map
  from a table of event descriptions, \<open>Event\<close> fires an event, with the \<open>before_\<close>,
  \<open>enter_\<close> and \<open>after_\<close> callbacks in the order of the code. The adapter registers no
  \<open>leave_\<close> callback and never starts an asynchronous transition, so these parts of the
  engine have no branch here.

  Two locales state what the adapter's machines rely on: \<open>fsm_machine\<close> (a table that is
  deterministic and has no self-loop) and \<open>resettable_fsm\<close> (the protocol
  reset, resetting, restart, disabled that the four OMCI configuration machines share).
\<close>

section \<open>The engine\<close>

record ('ev, 'st) EventDesc =
  Name :: 'ev
  Src :: "'st list"
  Dst :: 'st

abbreviation ev :: "'ev \<Rightarrow> 'st list \<Rightarrow> 'st \<Rightarrow> ('ev, 'st) EventDesc" where
  "ev n ss d \<equiv> \<lparr>Name = n, Src = ss, Dst = d\<rparr>"

text \<open>\<open>f.transitions\<close>: a later description of the same event and source overwrites.\<close>

definition add_desc :: "('ev, 'st) EventDesc \<Rightarrow> ('ev \<times> 'st \<rightharpoonup> 'st) \<Rightarrow> ('ev \<times> 'st \<rightharpoonup> 'st)" where
  "add_desc e m = fold (\<lambda>s m. m((Name e, s) \<mapsto> Dst e)) (Src e) m"

definition NewFSM :: "('ev, 'st) EventDesc list \<Rightarrow> ('ev \<times> 'st \<rightharpoonup> 'st)" where
  "NewFSM events = fold add_desc events Map.empty"

text \<open>
  What a callback did to its event: nothing, or \<open>e.Cancel(err)\<close>, which marks the event
  as canceled and stores the error (possibly \<open>nil\<close>).
\<close>

datatype 'e callback_result = CbOk | CbCancel "'e option"

fun cb_err :: "'e callback_result \<Rightarrow> 'e option" where
  "cb_err CbOk = None"
| "cb_err (CbCancel e) = e"

record ('ev, 'st, 'w, 'e) Callbacks =
  before_cb :: "'ev \<Rightarrow> 'w \<Rightarrow> 'e callback_result \<times> 'w"
  enter_cb :: "'st \<Rightarrow> 'w \<Rightarrow> 'e callback_result \<times> 'w"
  after_cb :: "'ev \<Rightarrow> 'w \<Rightarrow> 'e callback_result \<times> 'w"

datatype ('ev, 'st, 'e) fsm_error =
    InvalidEventError 'ev 'st
  | UnknownEventError 'ev
  | CanceledError "'e option"
  | NoTransitionError "'e option"
  | EventErr 'e

definition known_event :: "('ev, 'st) EventDesc list \<Rightarrow> 'ev \<Rightarrow> bool" where
  "known_event events n = list_ex (\<lambda>e. Name e = n \<and> Src e \<noteq> []) events"

text \<open>
  \<open>FSM.Event\<close>. The first component of the result is the returned error (\<open>None\<close> for
  \<open>nil\<close>); a canceled event leaves the state alone, errors set by an \<open>enter_\<close> or
  \<open>after_\<close> callback are returned after the state has changed.
\<close>

definition Event :: "('ev, 'st) EventDesc list \<Rightarrow> ('ev, 'st, 'w, 'e) Callbacks \<Rightarrow> 'ev \<Rightarrow>
    'st \<times> 'w \<Rightarrow> ('ev, 'st, 'e) fsm_error option \<times> 'st \<times> 'w" where
  "Event events cb n sw =
     (let (cur, w) = sw in
      case NewFSM events (n, cur) of
        None \<Rightarrow>
          (Some (if known_event events n then InvalidEventError n cur else UnknownEventError n), cur, w)
      | Some dst \<Rightarrow>
          (case before_cb cb n w of
             (CbCancel e, w1) \<Rightarrow> (Some (CanceledError e), cur, w1)
           | (CbOk, w1) \<Rightarrow>
               if cur = dst then
                 (let (r, w2) = after_cb cb n w1 in (Some (NoTransitionError (cb_err r)), cur, w2))
               else
                 (let (r1, w2) = enter_cb cb dst w1; (r2, w3) = after_cb cb n w2;
                      err = (case cb_err r2 of None \<Rightarrow> cb_err r1 | Some e \<Rightarrow> Some e)
                  in (map_option EventErr err, dst, w3))))"

text \<open>
  All machines but the one of the device handler have \<open>enter_\<close> callbacks only, and none
  of these cancels.
\<close>

definition enter_only :: "('st \<Rightarrow> 'w \<Rightarrow> 'w) \<Rightarrow> ('ev, 'st, 'w, unit) Callbacks" where
  "enter_only en = \<lparr>before_cb = (\<lambda>_ w. (CbOk, w)), enter_cb = (\<lambda>s w. (CbOk, en s w)),
                    after_cb = (\<lambda>_ w. (CbOk, w))\<rparr>"

section \<open>The transition map\<close>

lemma fold_add_src:
  "fold (\<lambda>s m. m((n, s) \<mapsto> d)) ss m (n', s') =
     (if n' = n \<and> s' \<in> set ss then Some d else m (n', s'))"
  by (induction ss arbitrary: m) auto

lemma add_desc_apply:
  "add_desc e m (n, s) = (if Name e = n \<and> s \<in> set (Src e) then Some (Dst e) else m (n, s))"
  by (auto simp: add_desc_def fold_add_src)

definition fsm_keys :: "('ev, 'st) EventDesc list \<Rightarrow> ('ev \<times> 'st) list" where
  "fsm_keys events = concat (map (\<lambda>e. map (Pair (Name e)) (Src e)) events)"

lemma NewFSM_Nil [simp]: "NewFSM [] = Map.empty"
  by (simp add: NewFSM_def)

lemma NewFSM_snoc:
  "NewFSM (es @ [e]) (n, s) =
     (if Name e = n \<and> s \<in> set (Src e) then Some (Dst e) else NewFSM es (n, s))"
  by (simp add: NewFSM_def add_desc_apply)

lemma NewFSM_SomeD:
  "NewFSM es (n, s) = Some t \<Longrightarrow> \<exists>e \<in> set es. Name e = n \<and> s \<in> set (Src e) \<and> Dst e = t"
  by (induction es rule: rev_induct) (auto simp: NewFSM_snoc split: if_splits)

lemma NewFSM_None_iff: "NewFSM es (n, s) = None \<longleftrightarrow> (n, s) \<notin> set (fsm_keys es)"
  by (induction es rule: rev_induct) (auto simp: NewFSM_snoc fsm_keys_def)

lemma NewFSM_distinct:
  "distinct (fsm_keys es) \<Longrightarrow> e \<in> set es \<Longrightarrow> s \<in> set (Src e) \<Longrightarrow>
   NewFSM es (Name e, s) = Some (Dst e)"
proof (induction es rule: rev_induct)
  case Nil
  then show ?case by simp
next
  case (snoc x es)
  then have d: "distinct (fsm_keys es)" by (simp add: fsm_keys_def)
  show ?case
  proof (cases "e = x")
    case True
    with snoc.prems show ?thesis by (simp add: NewFSM_snoc)
  next
    case False
    with snoc.prems have e: "e \<in> set es" by simp
    then have "(Name e, s) \<in> set (fsm_keys es)"
      using snoc.prems(3) by (auto simp: fsm_keys_def)
    moreover have "set (fsm_keys es) \<inter> Pair (Name x) ` set (Src x) = {}"
      using snoc.prems(1) by (auto simp: fsm_keys_def)
    ultimately have "\<not> (Name x = Name e \<and> s \<in> set (Src x))"
      by (metis disjoint_iff imageI)
    then show ?thesis
      using snoc.IH [OF d e snoc.prems(3)] by (auto simp: NewFSM_snoc)
  qed
qed

section \<open>Firing events\<close>

lemma Event_enter_only:
  "Event events (enter_only en) n (cur, w) =
     (case NewFSM events (n, cur) of
        None \<Rightarrow> (Some (if known_event events n then InvalidEventError n cur else UnknownEventError n), cur, w)
      | Some dst \<Rightarrow> if cur = dst then (Some (NoTransitionError None), cur, w) else (None, dst, en dst w))"
  by (simp add: Event_def enter_only_def split: option.splits)

text \<open>\<open>Is\<close>, and the plain state change an event makes when no callback cancels it.\<close>

definition next_state :: "('ev, 'st) EventDesc list \<Rightarrow> 'ev \<Rightarrow> 'st \<Rightarrow> 'st" where
  "next_state events n s = (case NewFSM events (n, s) of None \<Rightarrow> s | Some t \<Rightarrow> t)"

lemma Event_enter_only_state:
  "fst (snd (Event events (enter_only en) n (s, w))) = next_state events n s"
  by (simp add: Event_enter_only next_state_def split: option.splits)

definition run_events :: "('ev, 'st) EventDesc list \<Rightarrow> 'ev list \<Rightarrow> 'st \<Rightarrow> 'st" where
  "run_events events ns s = fold (next_state events) ns s"

lemma run_events_Nil [simp]: "run_events events [] s = s"
  by (simp add: run_events_def)

lemma run_events_Cons [simp]:
  "run_events events (n # ns) s = run_events events ns (next_state events n s)"
  by (simp add: run_events_def)

lemma run_events_append:
  "run_events events (ms @ ns) s = run_events events ns (run_events events ms s)"
  by (simp add: run_events_def)

inductive fsm_reach :: "('ev, 'st) EventDesc list \<Rightarrow> 'st \<Rightarrow> 'st \<Rightarrow> bool" for events s where
  reach_init [fsm_intros]: "fsm_reach events s s"
| reach_step [fsm_intros]:
    "fsm_reach events s t \<Longrightarrow> NewFSM events (n, t) = Some u \<Longrightarrow> fsm_reach events s u"

lemma fsm_reach_run: "fsm_reach events s (run_events events ns s)"
proof (induction ns rule: rev_induct)
  case Nil
  show ?case by (simp add: fsm_intros)
next
  case (snoc n ns)
  then show ?case
    by (cases "NewFSM events (n, run_events events ns s)")
      (auto simp: run_events_append next_state_def intro: fsm_intros)
qed

section \<open>Contracts of the adapter's machines\<close>

locale fsm_machine =
  fixes events :: "('ev, 'st) EventDesc list"
  assumes deterministic: "distinct (fsm_keys events)"
    and no_self_loop: "list_all (\<lambda>e. Dst e \<notin> set (Src e)) events"
begin

lemma transition_iff:
  "NewFSM events (n, s) = Some t \<longleftrightarrow> (\<exists>e \<in> set events. Name e = n \<and> s \<in> set (Src e) \<and> Dst e = t)"
  using NewFSM_distinct [OF deterministic] by (auto dest: NewFSM_SomeD)

lemma transition_moves: "NewFSM events (n, s) = Some t \<Longrightarrow> t \<noteq> s"
  using no_self_loop by (auto dest!: NewFSM_SomeD simp: list_all_iff)

lemma Event_outcome:
  "Event events (enter_only en) n (s, w) =
     (case NewFSM events (n, s) of
        None \<Rightarrow> (Some (if known_event events n then InvalidEventError n s else UnknownEventError n), s, w)
      | Some t \<Rightarrow> (None, t, en t w))"
  by (auto simp: Event_enter_only split: option.splits dest: transition_moves)

text \<open>An event either succeeds and enters another state, or changes nothing at all.\<close>

lemma Event_error_no_effect:
  "Event events (enter_only en) n (s, w) = (Some e, s', w') \<Longrightarrow> s' = s \<and> w' = w"
  by (auto simp: Event_outcome split: option.splits)

lemma Event_ok_moves:
  "Event events (enter_only en) n (s, w) = (None, s', w') \<Longrightarrow>
   NewFSM events (n, s) = Some s' \<and> s' \<noteq> s \<and> w' = en s' w"
  by (auto simp: Event_outcome split: option.splits dest: transition_moves)

end

locale resettable_fsm = fsm_machine events for events :: "('ev, 'st) EventDesc list" +
  fixes evReset evRestart :: 'ev and stDisabled stResetting :: 'st
  assumes reset_active: "s \<noteq> stDisabled \<Longrightarrow> s \<noteq> stResetting \<Longrightarrow>
      NewFSM events (evReset, s) = Some stResetting"
    and reset_idle: "NewFSM events (evReset, stDisabled) = None"
    and reset_resetting: "NewFSM events (evReset, stResetting) = None"
    and restart_resetting: "NewFSM events (evRestart, stResetting) = Some stDisabled"
    and restart_disabled: "NewFSM events (evRestart, stDisabled) = None"
begin

text \<open>
  The recovery protocol: whatever state the machine is in, a reset followed by the
  restart that the resetting state spawns brings it back to disabled.
\<close>

lemma reset_restart_disables: "run_events events [evReset, evRestart] s = stDisabled"
  using reset_active [of s] reset_idle reset_resetting restart_resetting restart_disabled
  by (cases "s = stDisabled"; cases "s = stResetting") (auto simp: next_state_def)

lemma reset_only_enters_resetting:
  "next_state events evReset s = (if s = stDisabled then stDisabled else stResetting)"
  using reset_active [of s] reset_idle reset_resetting
  by (cases "s = stResetting") (auto simp: next_state_def)

lemma repeated_reset:
  "next_state events evReset (next_state events evReset s) = next_state events evReset s"
  using reset_resetting reset_idle by (auto simp: reset_only_enters_resetting)

end

end
