(* ===== verification/Config_Fsm.thy ===== *)
theory Config_Fsm
  imports Fsm Omci_Send
begin

text \<open>
  What the OMCI configuration machines share: the wait for the response of a multi-instance
  configuration (\<open>waitforOmciResponse\<close>), the loop that sends one managed entity after the
  other and waits after each, the message loop that ends with an abort message, and the
  comparison of a response with the last transmitted managed entity.

  While a loop waits, other goroutines work on the OMCI channel. A wait is therefore a pair
  of its result and the change the rest of the adapter made to the channel meanwhile.

  The locale \<open>config_phase\<close> is the contract between such a loop and its machine.
\<close>

datatype OnuDeviceEvent = DeviceStatusInit | MibDatabaseSync | OmciCapabilitiesDone
  | MibDownloadDone | UniLockStateDone | UniUnlockStateDone | UniAdminStateDone
  | PortLinkUp | PortLinkDw | OmciAniConfigDone | OmciVlanFilterDone

section \<open>Waiting for a response\<close>

datatype waitResult = WaitSuccess | WaitFailed | WaitTimeout

type_synonym wait = "waitResult \<times> (omciCC \<Rightarrow> omciCC)"

text \<open>\<open>waitforOmciResponse\<close> returns nil exactly for a positive response.\<close>

fun waitforOmciResponse :: "waitResult \<Rightarrow> bool" where
  "waitforOmciResponse WaitSuccess = True"
| "waitforOmciResponse WaitFailed = False"
| "waitforOmciResponse WaitTimeout = False"

type_synonym sender = "omciCC \<Rightarrow> ManagedEntity option \<times> omciCC"

text \<open>
  Send, remember the instance as last transmitted, wait; the first wait that fails ends the
  loop. When the list of waits is exhausted the wait times out. Besides the verdict and the
  channel the loop reports what it sent (\<open>None\<close>: the request could not be composed, in
  which case the loop waits nevertheless).
\<close>

fun sendAndWait :: "sender list \<Rightarrow> wait list \<Rightarrow> omciCC \<Rightarrow> bool \<times> ManagedEntity option list \<times> omciCC" where
  "sendAndWait [] ws oo = (True, [], oo)"
| "sendAndWait (s # ss) ws oo =
     (let (m, oo1) = s oo; oo2 = oo1\<lparr>pLastTxMeInstance := m\<rparr> in
      (case ws of
         [] \<Rightarrow> (False, [m], oo2)
       | (r, env) # ws' \<Rightarrow>
           if waitforOmciResponse r then
             (case sendAndWait ss ws' (env oo2) of (b, ms, oo3) \<Rightarrow> (b, m # ms, oo3))
           else (False, [m], env oo2)))"

definition quiet :: "waitResult \<Rightarrow> wait" where
  "quiet r = (r, id)"

lemma waitforOmciResponse_iff [simp]: "waitforOmciResponse r \<longleftrightarrow> r = WaitSuccess"
  by (cases r) simp_all

declare waitforOmciResponse.simps [simp del]

text \<open>The loop succeeds exactly when every wait it performs succeeds.\<close>

lemma sendAndWait_success:
  "fst (sendAndWait ss ws oo) \<longleftrightarrow>
     length ss \<le> length ws \<and> list_all (\<lambda>w. fst w = WaitSuccess) (take (length ss) ws)"
proof (induction ss arbitrary: ws oo)
  case Nil
  show ?case by simp
next
  case (Cons s ss)
  obtain m oo1 where s: "s oo = (m, oo1)" by fastforce
  show ?case
  proof (cases ws)
    case Nil
    then show ?thesis by (simp add: s)
  next
    case (Cons w ws')
    obtain r env where w: "w = (r, env)" by (cases w)
    show ?thesis
      using Cons.IH [of ws' "env (oo1\<lparr>pLastTxMeInstance := m\<rparr>)"]
      by (auto simp: Cons w s Let_def  split: prod.split)
  qed
qed

text \<open>It sends one request per instance, up to and including the one whose wait failed.\<close>

definition waits_ok :: "wait list \<Rightarrow> nat" where
  "waits_ok ws = length (takeWhile (\<lambda>w. fst w = WaitSuccess) ws)"

lemma sendAndWait_count:
  "length (fst (snd (sendAndWait ss ws oo))) = min (length ss) (Suc (waits_ok ws))"
proof (induction ss arbitrary: ws oo)
  case Nil
  show ?case by simp
next
  case (Cons s ss)
  obtain m oo1 where s: "s oo = (m, oo1)" by fastforce
  show ?case
  proof (cases ws)
    case Nil
    then show ?thesis by (simp add: s waits_ok_def)
  next
    case (Cons w ws')
    obtain r env where w: "w = (r, env)" by (cases w)
    show ?thesis
      using Cons.IH [of ws' "env (oo1\<lparr>pLastTxMeInstance := m\<rparr>)"]
      by (auto simp: Cons w s Let_def waits_ok_def split: prod.split)
  qed
qed

text \<open>When the library refuses nothing, the instances are those of the parameters.\<close>

definition sends_instance :: "sender \<Rightarrow> ManagedEntity \<Rightarrow> bool" where
  "sends_instance s m \<longleftrightarrow> (\<forall>oo. fst (s oo) = Some m)"

lemma sendAndWait_instances:
  assumes "list_all2 sends_instance ss ms"
  shows "fst (snd (sendAndWait ss ws oo)) = map Some (take (Suc (waits_ok ws)) ms)"
  using assms
proof (induction ss ms arbitrary: ws oo rule: list_all2_induct)
  case Nil
  show ?case by simp
next
  case (Cons s ss m ms)
  obtain oo1 where s: "s oo = (Some m, oo1)"
    using Cons.hyps(1) by (metis prod.collapse sends_instance_def)
  show ?case
  proof (cases ws)
    case Nil
    then show ?thesis by (simp add: s waits_ok_def)
  next
    case (Cons w ws')
    obtain r env where w: "w = (r, env)" by (cases w)
    show ?thesis
      using Cons.IH [of ws' "env (oo1\<lparr>pLastTxMeInstance := Some m\<rparr>)"]
      by (auto simp: Cons w s Let_def waits_ok_def split: prod.split)
  qed
qed

lemma sendMe_sends_instance:
  "(\<And>rq. lib_encodes lib rq) \<Longrightarrow> (\<And>rq. lib_serializes lib rq) \<Longrightarrow> lib_accepts lib c p \<Longrightarrow>
   sends_instance (sendMe lib ty defaults c timeout hp p ch)
     \<lparr>meClass = c, meEntity = EntityID p, meAttrs = Attributes p\<rparr>"
  by (auto simp: sends_instance_def sendMe_def prepareMe_def Let_def NewManagedEntity_def
      EncodeFrame_def serializeOmciLayer_def split: prod.splits)

lemma sendAndWait_first_failure:
  assumes "\<not> waitforOmciResponse r" and "length ws1 < length ss"
    and "list_all (\<lambda>w. fst w = WaitSuccess) ws1"
  shows "fst (sendAndWait ss (ws1 @ (r, env) # ws2) oo) = False"
proof (rule ccontr)
  assume "fst (sendAndWait ss (ws1 @ (r, env) # ws2) oo) \<noteq> False"
  then have "list_all (\<lambda>w. fst w = WaitSuccess) (take (length ss) (ws1 @ (r, env) # ws2))"
    by (simp add: sendAndWait_success)
  with assms(2) have "r = WaitSuccess"
    by (cases "length ss - length ws1") (auto simp: take_append)
  with assms(1) show False by simp
qed

section \<open>Responses\<close>

text \<open>
  \<open>EntityClass == pLastTxMeInstance.GetClassID() && \<dots>\<close>, then the switch on \<open>GetName\<close>.
  The methods have value receivers, so a nil instance panics.
\<close>

definition matchLastTx :: "ManagedEntity option \<Rightarrow> classID \<Rightarrow> u16 \<Rightarrow> string option outcome" where
  "matchLastTx lastTx c e =
     bind_outcome (deref lastTx)
       (\<lambda>m. Done (if c = meClass m \<and> e = meEntity m then Some (GetName m) else None))"

lemma matchLastTx_simps [panic_simps]:
  "matchLastTx None c e = Panic NilDeref"
  "matchLastTx (Some m) c e = Done (if c = meClass m \<and> e = meEntity m then Some (GetName m) else None)"
  by (simp_all add: matchLastTx_def)

lemma matchLastTx_bindD:
  "bind_outcome (matchLastTx lastTx c e) f = Done y \<Longrightarrow>
   \<exists>m. lastTx = Some m \<and> f (if c = meClass m \<and> e = meEntity m then Some (GetName m) else None) = Done y"
  by (cases lastTx) (simp_all add: panic_simps)

text \<open>
  The response layer that belongs to the message type, with its result; a handler returns
  early when the layer is missing or the result is not success.
\<close>

definition createOk :: "rxPacket \<Rightarrow> (classID \<times> u16) option" where
  "createOk packet =
     (case packet of
        Some (CreateResponse c e r) \<Rightarrow> if r \<noteq> me_Success then None else Some (c, e)
      | _ \<Rightarrow> None)"

definition setOk :: "rxPacket \<Rightarrow> (classID \<times> u16) option" where
  "setOk packet =
     (case packet of
        Some (SetResponse c e r) \<Rightarrow> if r \<noteq> me_Success then None else Some (c, e)
      | _ \<Rightarrow> None)"

section \<open>The message loop\<close>

text \<open>
  The loop over the messages of a communication channel. It ends with an abort message, and
  pauses when the channel is empty; the flag says whether it has ended, the list is what
  remains in the channel.
\<close>

fun processMessages :: "(omciHeader \<Rightarrow> rxPacket \<Rightarrow> 's \<Rightarrow> 's outcome) \<Rightarrow> Message list \<Rightarrow> 's \<Rightarrow>
    (bool \<times> Message list \<times> 's) outcome" where
  "processMessages h [] s = Done (False, [], s)"
| "processMessages h (TestMsg AbortMessageProcessing # ms) s = Done (True, ms, s)"
| "processMessages h (TestMsg LoadMibTemplateOk # ms) s = processMessages h ms s"
| "processMessages h (TestMsg LoadMibTemplateFailed # ms) s = processMessages h ms s"
| "processMessages h (TestMsg TimeOutOccurred # ms) s = processMessages h ms s"
| "processMessages h (OMCI hdr packet # ms) s =
     bind_outcome (h hdr packet s) (processMessages h ms)"

lemma processMessages_append:
  assumes "processMessages h ms s = Done (False, rest, s')"
  shows "rest = [] \<and> processMessages h (ms @ ns) s = processMessages h ns s'"
  using assms
  by (induction h ms s rule: processMessages.induct) (auto simp: panic_simps)

lemma processMessages_abort:
  assumes "processMessages h ms s = Done (False, rest, s')"
  shows "processMessages h (ms @ TestMsg AbortMessageProcessing # ns) s = Done (True, ns, s')"
  using processMessages_append [OF assms] by simp

lemma processMessages_invariant:
  assumes "\<And>hdr packet s s'. P s \<Longrightarrow> h hdr packet s = Done s' \<Longrightarrow> P s'"
  shows "processMessages h ms s = Done (b, rest, s') \<Longrightarrow> P s \<Longrightarrow> P s'"
  using assms
  by (induction h ms s rule: processMessages.induct) (auto simp: panic_simps)

section \<open>The contract of a configuration phase\<close>

text \<open>
  A phase of a machine: the state in which the loop runs, the event and the state of success,
  and the reset.
\<close>

locale config_phase = fsm_machine events for events :: "('ev, 'st) EventDesc list" +
  fixes stPhase stNext stResetting :: 'st and evDone evReset :: 'ev
  assumes done_phase: "NewFSM events (evDone, stPhase) = Some stNext"
    and reset_phase: "NewFSM events (evReset, stPhase) = Some stResetting"
    and next_not_resetting: "stNext \<noteq> stResetting"
begin

definition phase_event :: "sender list \<Rightarrow> wait list \<Rightarrow> omciCC \<Rightarrow> 'ev" where
  "phase_event ss ws oo = (if fst (sendAndWait ss ws oo) then evDone else evReset)"

text \<open>From its own state the phase leads to the next state exactly when all waits succeed,
  and to the resetting state otherwise; there is no third outcome.\<close>

lemma phase_outcome:
  "next_state events (phase_event ss ws oo) stPhase =
     (if length ss \<le> length ws \<and> list_all (\<lambda>w. fst w = WaitSuccess) (take (length ss) ws)
      then stNext else stResetting)"
  using done_phase reset_phase
  by (simp add: phase_event_def sendAndWait_success next_state_def)

lemma phase_next_iff:
  "next_state events (phase_event ss ws oo) stPhase = stNext \<longleftrightarrow>
     length ss \<le> length ws \<and> list_all (\<lambda>w. fst w = WaitSuccess) (take (length ss) ws)"
  using next_not_resetting by (simp add: phase_outcome)

text \<open>A phase without instances succeeds without any wait.\<close>

lemma phase_empty: "next_state events (phase_event [] ws oo) stPhase = stNext"
  by (simp add: phase_outcome)

end

end
