(* ===== verification/Served_Fsm.thy ===== *)
theory Served_Fsm
  imports Config_Fsm
begin

text \<open>
  The concurrency of a configuration machine. Entering its starting state starts a goroutine
  that serves the messages of the communication channel; entering its resetting state posts
  an abort message that ends one such goroutine, and starts another that fires the restart
  event. Goroutines run in any order.

  \<open>fsmWorld\<close> is the part of a machine's data that this concerns: the messages in its
  channel and its goroutines. The records of the machines extend it. The locale
  \<open>served_fsm\<close> states what a machine has to keep to; under it the number of serving
  goroutines is exactly accounted for in every interleaving.
\<close>

section \<open>Goroutines of a machine\<close>

datatype ('ev, 'x) goTask = GoEvent 'ev | GoMessages | GoWork 'x

record ('ev, 'x) fsmWorld =
  w_comm :: "Message list"
  w_tasks :: "('ev, 'x) goTask list"

abbreviation fsmAbortMsg :: Message where
  "fsmAbortMsg \<equiv> TestMsg AbortMessageProcessing"

definition go :: "('ev, 'x) goTask list \<Rightarrow> ('ev, 'x, 'm) fsmWorld_scheme \<Rightarrow> ('ev, 'x, 'm) fsmWorld_scheme" where
  "go ts w = w\<lparr>w_tasks := w_tasks w @ ts\<rparr>"

definition post :: "Message \<Rightarrow> ('ev, 'x, 'm) fsmWorld_scheme \<Rightarrow> ('ev, 'x, 'm) fsmWorld_scheme" where
  "post m w = w\<lparr>w_comm := w_comm w @ [m]\<rparr>"

definition runEvent :: "('ev, 'st) EventDesc list \<Rightarrow> ('st \<Rightarrow> 'w \<Rightarrow> 'w) \<Rightarrow> 'ev \<Rightarrow> 'st \<times> 'w \<Rightarrow> 'st \<times> 'w" where
  "runEvent events enter e s = snd (Event events (enter_only enter) e s)"

text \<open>One turn of a serving goroutine: it works off what the channel holds.\<close>

definition serveMessages ::
    "(omciHeader \<Rightarrow> rxPacket \<Rightarrow> 'st \<times> ('ev, 'x, 'm) fsmWorld_scheme \<Rightarrow> ('st \<times> ('ev, 'x, 'm) fsmWorld_scheme) outcome) \<Rightarrow>
     'st \<times> ('ev, 'x, 'm) fsmWorld_scheme \<Rightarrow> ('st \<times> ('ev, 'x, 'm) fsmWorld_scheme) outcome" where
  "serveMessages h s =
     bind_outcome (processMessages h (w_comm (snd s)) (fst s, (snd s)\<lparr>w_comm := []\<rparr>))
       (\<lambda>(ended, rest, st, w).
          Done (st, w\<lparr>w_comm := rest @ w_comm w,
                      w_tasks := w_tasks w @ (if ended then [] else [GoMessages])\<rparr>))"

text \<open>
  The steps of a machine: a goroutine runs, a response arrives, the device handler fires one
  of the events \<open>external\<close>, or something else changes that does not concern channel and
  goroutines. \<open>work x\<close> is the nondeterministic effect of the machine's own goroutines.
\<close>

inductive served_step ::
    "('ev, 'st) EventDesc list \<Rightarrow> ('st \<Rightarrow> ('ev, 'x, 'm) fsmWorld_scheme \<Rightarrow> ('ev, 'x, 'm) fsmWorld_scheme) \<Rightarrow>
     (omciHeader \<Rightarrow> rxPacket \<Rightarrow> 'st \<times> ('ev, 'x, 'm) fsmWorld_scheme \<Rightarrow> ('st \<times> ('ev, 'x, 'm) fsmWorld_scheme) outcome) \<Rightarrow>
     ('x \<Rightarrow> 'st \<times> ('ev, 'x, 'm) fsmWorld_scheme \<Rightarrow> 'st \<times> ('ev, 'x, 'm) fsmWorld_scheme \<Rightarrow> bool) \<Rightarrow>
     'ev list \<Rightarrow> 'st \<times> ('ev, 'x, 'm) fsmWorld_scheme \<Rightarrow> 'st \<times> ('ev, 'x, 'm) fsmWorld_scheme \<Rightarrow> bool"
  for events enter h work external where
  st_event: "w_tasks w = ts1 @ GoEvent e # ts2 \<Longrightarrow>
    served_step events enter h work external (st, w) (runEvent events enter e (st, w\<lparr>w_tasks := ts1 @ ts2\<rparr>))"
| st_messages: "w_tasks w = ts1 @ GoMessages # ts2 \<Longrightarrow>
    serveMessages h (st, w\<lparr>w_tasks := ts1 @ ts2\<rparr>) = Done s' \<Longrightarrow>
    served_step events enter h work external (st, w) s'"
| st_work: "w_tasks w = ts1 @ GoWork x # ts2 \<Longrightarrow> work x (st, w\<lparr>w_tasks := ts1 @ ts2\<rparr>) s' \<Longrightarrow>
    served_step events enter h work external (st, w) s'"
| st_receive: "served_step events enter h work external (st, w) (st, post (OMCI hdr packet) w)"
| st_external: "e \<in> set external \<Longrightarrow>
    served_step events enter h work external s (runEvent events enter e s)"
| st_other: "w_comm w' = w_comm w \<Longrightarrow> w_tasks w' = w_tasks w \<Longrightarrow>
    served_step events enter h work external (st, w) (st, w')"

inductive served_reach ::
    "('ev, 'st) EventDesc list \<Rightarrow> ('st \<Rightarrow> ('ev, 'x, 'm) fsmWorld_scheme \<Rightarrow> ('ev, 'x, 'm) fsmWorld_scheme) \<Rightarrow>
     (omciHeader \<Rightarrow> rxPacket \<Rightarrow> 'st \<times> ('ev, 'x, 'm) fsmWorld_scheme \<Rightarrow> ('st \<times> ('ev, 'x, 'm) fsmWorld_scheme) outcome) \<Rightarrow>
     ('x \<Rightarrow> 'st \<times> ('ev, 'x, 'm) fsmWorld_scheme \<Rightarrow> 'st \<times> ('ev, 'x, 'm) fsmWorld_scheme \<Rightarrow> bool) \<Rightarrow>
     'ev list \<Rightarrow> 'st \<times> ('ev, 'x, 'm) fsmWorld_scheme \<Rightarrow> 'st \<times> ('ev, 'x, 'm) fsmWorld_scheme \<Rightarrow> bool"
  for events enter h work external s where
  sr_init: "served_reach events enter h work external s s"
| sr_step: "served_reach events enter h work external s s' \<Longrightarrow>
    served_step events enter h work external s' s'' \<Longrightarrow>
    served_reach events enter h work external s s''"

inductive_cases served_stepE: "served_step events enter h work external s s'"

section \<open>Accounting\<close>

definition loops :: "('ev, 'x, 'm) fsmWorld_scheme \<Rightarrow> nat" where
  "loops w = count_list (w_tasks w) GoMessages"

definition restarts :: "'ev \<Rightarrow> ('ev, 'x, 'm) fsmWorld_scheme \<Rightarrow> nat" where
  "restarts e w = count_list (w_tasks w) (GoEvent e)"

definition aborts :: "('ev, 'x, 'm) fsmWorld_scheme \<Rightarrow> nat" where
  "aborts w = count_list (w_comm w) fsmAbortMsg"

definition events_among :: "'ev list \<Rightarrow> ('ev, 'x, 'm) fsmWorld_scheme \<Rightarrow> bool" where
  "events_among es w = list_all (\<lambda>t. case t of GoEvent e \<Rightarrow> e \<in> set es | _ \<Rightarrow> True) (w_tasks w)"

lemmas accounting = loops_def restarts_def aborts_def events_among_def go_def post_def

lemma accounting_cong:
  "w_comm w' = w_comm w \<Longrightarrow> w_tasks w' = w_tasks w \<Longrightarrow>
   loops w' = loops w \<and> restarts e w' = restarts e w \<and> aborts w' = aborts w \<and>
   events_among es w' = events_among es w"
  by (simp add: accounting)

lemma count_list_append' [simp]: "count_list (xs @ ys) x = count_list xs x + count_list ys x"
  by (induction xs) auto

lemma go_accounting [simp]:
  "loops (go ts w) = loops w + count_list ts GoMessages"
  "restarts e (go ts w) = restarts e w + count_list ts (GoEvent e)"
  "aborts (go ts w) = aborts w"
  "events_among es (go ts w) \<longleftrightarrow> events_among es w \<and>
     list_all (\<lambda>t. case t of GoEvent e \<Rightarrow> e \<in> set es | _ \<Rightarrow> True) ts"
  by (simp_all add: accounting)

lemma post_accounting [simp]:
  "loops (post m w) = loops w"
  "restarts e (post m w) = restarts e w"
  "aborts (post m w) = aborts w + (if m = fsmAbortMsg then 1 else 0)"
  "events_among es (post m w) = events_among es w"
  by (simp_all add: accounting)

lemma processMessages_aborts:
  "processMessages h ms s = Done (ended, rest, s') \<Longrightarrow>
   count_list ms fsmAbortMsg = count_list rest fsmAbortMsg + (if ended then 1 else 0) \<and>
   (\<not> ended \<longrightarrow> rest = [])"
  by (induction h ms s rule: processMessages.induct) (auto simp: panic_simps)

section \<open>The contract\<close>

text \<open>
  A step of the machine's own code changes the data without touching channel or goroutines,
  and may fire one event other than the restart.
\<close>

definition local_or_event ::
    "('ev, 'st) EventDesc list \<Rightarrow> ('st \<Rightarrow> ('ev, 'x, 'm) fsmWorld_scheme \<Rightarrow> ('ev, 'x, 'm) fsmWorld_scheme) \<Rightarrow>
     'ev list \<Rightarrow> 'ev \<Rightarrow> 'st \<times> ('ev, 'x, 'm) fsmWorld_scheme \<Rightarrow> 'st \<times> ('ev, 'x, 'm) fsmWorld_scheme \<Rightarrow> bool" where
  "local_or_event events enter fired evRestart s s' \<longleftrightarrow>
     (\<exists>w'. w_comm w' = w_comm (snd s) \<and> w_tasks w' = w_tasks (snd s) \<and>
        (s' = (fst s, w') \<or> (\<exists>e \<in> set fired. e \<noteq> evRestart \<and> s' = runEvent events enter e (fst s, w'))))"

lemma local_stays:
  "w_comm w' = w_comm w \<Longrightarrow> w_tasks w' = w_tasks w \<Longrightarrow>
   local_or_event events enter fired evRestart (st, w) (st, w')"
  by (auto simp: local_or_event_def)

lemma local_fires:
  "w_comm w' = w_comm w \<Longrightarrow> w_tasks w' = w_tasks w \<Longrightarrow> e \<in> set fired \<Longrightarrow> e \<noteq> evRestart \<Longrightarrow>
   local_or_event events enter fired evRestart (st, w) (runEvent events enter e (st, w'))"
  by (auto simp: local_or_event_def)

lemmas local_intros [fsm_intros] = local_stays local_fires

locale served_fsm = fsm_machine events for events :: "('ev, 'st) EventDesc list" +
  fixes enter :: "'st \<Rightarrow> ('ev, 'x, 'm) fsmWorld_scheme \<Rightarrow> ('ev, 'x, 'm) fsmWorld_scheme"
    and handler :: "omciHeader \<Rightarrow> rxPacket \<Rightarrow> 'st \<times> ('ev, 'x, 'm) fsmWorld_scheme \<Rightarrow>
      ('st \<times> ('ev, 'x, 'm) fsmWorld_scheme) outcome"
    and work :: "'x \<Rightarrow> 'st \<times> ('ev, 'x, 'm) fsmWorld_scheme \<Rightarrow> 'st \<times> ('ev, 'x, 'm) fsmWorld_scheme \<Rightarrow> bool"
    and external fired :: "'ev list"
    and stDisabled stStarting stResetting :: 'st
    and evRestart :: 'ev
  assumes states_distinct: "stDisabled \<noteq> stStarting" "stDisabled \<noteq> stResetting" "stStarting \<noteq> stResetting"
    and enter_loops: "loops (enter t w) = loops w + (if t = stStarting then 1 else 0)"
    and enter_restarts: "restarts evRestart (enter t w) = restarts evRestart w + (if t = stResetting then 1 else 0)"
    and enter_aborts: "aborts (enter t w) = aborts w + (if t = stResetting then 1 else 0)"
    and enter_fired: "events_among fired w \<Longrightarrow> events_among fired (enter t w)"
    and external_fired: "e \<in> set external \<Longrightarrow> e \<in> set fired \<and> e \<noteq> evRestart"
    and fired_table: "e \<in> set fired \<Longrightarrow> e \<noteq> evRestart \<Longrightarrow> NewFSM events (e, s) = Some t \<Longrightarrow>
      s \<noteq> stResetting \<and> t \<noteq> stDisabled \<and> (s = stDisabled \<longleftrightarrow> t = stStarting)"
    and restart_table: "NewFSM events (evRestart, stResetting) = Some stDisabled"
    and handler_local: "handler hdr packet sw = Done sw' \<Longrightarrow>
      local_or_event events enter fired evRestart sw sw'"
    and work_local: "work x sw sw' \<Longrightarrow> local_or_event events enter fired evRestart sw sw'"
begin

text \<open>\<open>k\<close> is the number of serving goroutines not counted as tasks, less the abort messages
  not in the channel.\<close>

definition account :: "int \<Rightarrow> 'st \<times> ('ev, 'x, 'm) fsmWorld_scheme \<Rightarrow> bool" where
  "account k s \<longleftrightarrow>
     events_among fired (snd s) \<and>
     restarts evRestart (snd s) = (if fst s = stResetting then 1 else 0) \<and>
     int (loops (snd s)) + k =
       int (aborts (snd s)) + (if fst s = stDisabled \<or> fst s = stResetting then 0 else 1)"

lemma account_event:
  assumes "e \<in> set fired" and "e \<noteq> evRestart" and "account k (st, w)"
  shows "account k (runEvent events enter e (st, w))"
proof (cases "NewFSM events (e, st)")
  case None
  with assms(3) show ?thesis by (simp add: runEvent_def Event_outcome)
next
  case (Some t)
  with fired_table [OF assms(1,2) Some] assms(3) states_distinct show ?thesis
    by (auto simp: runEvent_def Event_outcome account_def enter_loops enter_restarts enter_aborts
        enter_fired split: if_splits)
qed

lemma account_local:
  assumes "local_or_event events enter fired evRestart s s'" and "account k s"
  shows "account k s'"
proof -
  obtain w' where w: "w_comm w' = w_comm (snd s)" "w_tasks w' = w_tasks (snd s)"
    and c: "s' = (fst s, w') \<or> (\<exists>e \<in> set fired. e \<noteq> evRestart \<and> s' = runEvent events enter e (fst s, w'))"
    using assms(1) by (auto simp: local_or_event_def)
  from w assms(2) have "account k (fst s, w')"
    by (simp add: account_def accounting_cong [OF w])
  with c show ?thesis by (auto intro: account_event)
qed

lemma account_process:
  "processMessages handler ms s = Done (ended, rest, s') \<Longrightarrow> account k s \<Longrightarrow> account k s'"
  by (rule processMessages_invariant [where P = "account k" and h = handler])
    (auto intro: account_local handler_local)

lemma account_serve:
  assumes "serveMessages handler (st, w\<lparr>w_tasks := ts1 @ ts2\<rparr>) = Done s'"
    and "w_tasks w = ts1 @ GoMessages # ts2" and "account 0 (st, w)"
  shows "account 0 s'"
proof -
  let ?w0 = "w\<lparr>w_tasks := ts1 @ ts2, w_comm := []\<rparr>"
  from assms(1) obtain ended rest st' w' where
    p: "processMessages handler (w_comm w) (st, ?w0) = Done (ended, rest, st', w')"
    and s': "s' = (st', w'\<lparr>w_comm := rest @ w_comm w',
      w_tasks := w_tasks w' @ (if ended then [] else [GoMessages])\<rparr>)"
    by (auto simp: serveMessages_def panic_simps)
  let ?k = "1 - int (count_list (w_comm w) fsmAbortMsg)"
  from assms(2,3) have "account ?k (st, ?w0)"
    by (auto simp: account_def accounting)
  from account_process [OF p this] have "account ?k (st', w')" .
  with processMessages_aborts [OF p] show ?thesis
    by (auto simp: s' account_def accounting split: if_splits)
qed

lemma account_step:
  assumes "served_step events enter handler work external s s'" and "account 0 s"
  shows "account 0 s'"
  using assms
proof (cases rule: served_step.cases)
  case (st_event w ts1 e ts2 st)
  show ?thesis
  proof (cases "e = evRestart")
    case False
    have "e \<in> set fired" and "account 0 (st, w\<lparr>w_tasks := ts1 @ ts2\<rparr>)"
      using st_event assms(2) False by (auto simp: account_def accounting)
    with False account_event st_event show ?thesis by auto
  next
    case True
    with st_event assms(2) have r: "st = stResetting"
      by (auto simp: account_def accounting split: if_splits)
    with True st_event assms(2) show ?thesis
      using restart_table states_distinct
      by (auto simp: runEvent_def Event_outcome account_def enter_loops enter_restarts enter_aborts
          intro!: enter_fired) (auto simp: accounting)
  qed
next
  case (st_messages w ts1 ts2 st)
  then show ?thesis using assms(2) account_serve by blast
next
  case (st_work w ts1 x ts2 st)
  from st_work assms(2) have "account 0 (st, w\<lparr>w_tasks := ts1 @ ts2\<rparr>)"
    by (auto simp: account_def accounting)
  then show ?thesis using st_work account_local work_local by blast
next
  case (st_receive st w hdr packet)
  with assms(2) show ?thesis by (simp add: account_def accounting)
next
  case (st_external e)
  with assms(2) external_fired show ?thesis by (metis account_event prod.collapse)
next
  case (st_other w' w st)
  with assms(2) accounting_cong [OF st_other(3,4)] show ?thesis by (simp add: account_def)
qed

lemma account_reach:
  "served_reach events enter handler work external s s' \<Longrightarrow> account 0 s \<Longrightarrow> account 0 s'"
  by (induction rule: served_reach.induct) (auto intro: account_step)

text \<open>
  In every state that is reached from an idle machine the serving goroutines are exactly the
  pending abort messages plus one if the machine is active: an active machine is always
  served, and once the aborts are read an idle one is not.
\<close>

lemma served:
  assumes "served_reach events enter handler work external s s'" and "account 0 s"
  shows "loops (snd s') = aborts (snd s') +
    (if fst s' = stDisabled \<or> fst s' = stResetting then 0 else 1)"
proof -
  from account_reach [OF assms] show ?thesis by (auto simp: account_def split: if_splits)
qed

lemma account_idle:
  "w_tasks w = [] \<Longrightarrow> w_comm w = [] \<Longrightarrow> account 0 (stDisabled, w)"
  using states_distinct by (simp add: account_def accounting)

text \<open>The restart that a reset has started always leads back to the idle state.\<close>

lemma restart_pending:
  assumes "served_reach events enter handler work external s s'" and "account 0 s"
    and "fst s' = stResetting"
  shows "\<exists>s''. served_step events enter handler work external s' s'' \<and> fst s'' = stDisabled"
proof -
  obtain st w where s: "s' = (st, w)" by (cases s')
  from account_reach [OF assms(1,2)] have "account 0 s'" .
  with assms(3) s have "GoEvent evRestart \<in> set (w_tasks w)"
    using count_notin [of "GoEvent evRestart" "w_tasks w"]
    by (auto simp: account_def accounting)
  then obtain ts1 ts2 where t: "w_tasks w = ts1 @ GoEvent evRestart # ts2"
    by (auto dest: split_list)
  have "fst (runEvent events enter evRestart (stResetting, w\<lparr>w_tasks := ts1 @ ts2\<rparr>)) = stDisabled"
    using restart_table by (simp add: runEvent_def Event_outcome)
  moreover have "served_step events enter handler work external s'
      (runEvent events enter evRestart (stResetting, w\<lparr>w_tasks := ts1 @ ts2\<rparr>))"
    using st_event [OF t, of events enter handler work external stResetting] s assms(3) by simp
  ultimately show ?thesis by blast
qed

end

end
