(* ===== verification/Lock_Fsm.thy ===== *)
theory Lock_Fsm
  imports Served_Fsm
begin

text \<open>
  Locking and unlocking the UNI ports of an ONU (\<open>uniportadmin.go\<close>): the state machine of
  \<open>newLockStateFsm\<close>, its callbacks, the handling of responses and the loop over the UNI
  ports.

  The machine interprets \<open>resettable_fsm\<close> and \<open>served_fsm\<close>, its port loop
  \<open>config_phase\<close>, for both directions.
\<close>

section \<open>The machine\<close>

datatype uniEvent = uniEvStart | uniEvStartAdmin | uniEvRxUnisResp | uniEvRxOnugResp
  | uniEvTimeoutSimple | uniEvTimeoutUnis | uniEvReset | uniEvRestart

datatype uniState = uniStDisabled | uniStStarting | uniStSettingUnis | uniStSettingOnuG
  | uniStAdminDone | uniStResetting

definition lockEvents :: "bool \<Rightarrow> (uniEvent, uniState) EventDesc list" where
  "lockEvents aAdminState =
     (if aAdminState then
        [ev uniEvStart [uniStDisabled] uniStStarting,
         ev uniEvStartAdmin [uniStStarting] uniStSettingUnis,
         ev uniEvRxUnisResp [uniStSettingUnis] uniStSettingOnuG,
         ev uniEvRxOnugResp [uniStSettingOnuG] uniStAdminDone,
         ev uniEvTimeoutSimple [uniStSettingOnuG] uniStStarting,
         ev uniEvTimeoutUnis [uniStSettingUnis] uniStStarting,
         ev uniEvReset [uniStStarting, uniStSettingOnuG, uniStSettingUnis, uniStAdminDone] uniStResetting,
         ev uniEvRestart [uniStStarting, uniStSettingOnuG, uniStSettingUnis, uniStAdminDone,
           uniStResetting] uniStDisabled]
      else
        [ev uniEvStart [uniStDisabled] uniStStarting,
         ev uniEvStartAdmin [uniStStarting] uniStSettingOnuG,
         ev uniEvRxOnugResp [uniStSettingOnuG] uniStSettingUnis,
         ev uniEvRxUnisResp [uniStSettingUnis] uniStAdminDone,
         ev uniEvTimeoutSimple [uniStSettingOnuG] uniStStarting,
         ev uniEvTimeoutUnis [uniStSettingUnis] uniStStarting,
         ev uniEvReset [uniStStarting, uniStSettingOnuG, uniStSettingUnis, uniStAdminDone] uniStResetting,
         ev uniEvRestart [uniStStarting, uniStSettingOnuG, uniStSettingUnis, uniStAdminDone,
           uniStResetting] uniStDisabled])"

datatype lockWork = AdminSet

record lockStateFsm = "(uniEvent, lockWork) fsmWorld" +
  l_cc :: omciCC
  l_adminState :: bool
  l_requestEvent :: OnuDeviceEvent
  l_chan :: channel
  l_responses :: "bool list"
  l_notified :: "OnuDeviceEvent list"

definition newLockStateFsm :: "omciCC \<Rightarrow> bool \<Rightarrow> OnuDeviceEvent \<Rightarrow> uniState \<times> lockStateFsm" where
  "newLockStateFsm cc aAdminState aRequestEvent =
     (uniStDisabled,
      \<lparr>w_comm = [], w_tasks = [], l_cc = cc, l_adminState = aAdminState,
       l_requestEvent = aRequestEvent, l_chan = (if aAdminState then ChLock else ChUnlock),
       l_responses = [], l_notified = []\<rparr>)"

definition setSuccessEvent :: "OnuDeviceEvent \<Rightarrow> lockStateFsm \<Rightarrow> lockStateFsm" where
  "setSuccessEvent aEvent w = w\<lparr>l_requestEvent := aEvent\<rparr>"

section \<open>Callbacks\<close>

definition omciAdminState :: "lockStateFsm \<Rightarrow> u8" where
  "omciAdminState w = (if \<not> l_adminState w then 0 else 1)"

definition adminAttributes :: "lockStateFsm \<Rightarrow> attrs" where
  "adminAttributes w = [(''AdministrativeState'', AU8 (omciAdminState w))]"

text \<open>The response channel is unbuffered, so draining a used one does nothing.\<close>

definition enterAdminStartingState :: "lockStateFsm \<Rightarrow> lockStateFsm" where
  "enterAdminStartingState w = go [GoMessages, GoEvent uniEvStartAdmin] w"

definition enterSettingOnuGState :: "omciLib \<Rightarrow> lockStateFsm \<Rightarrow> lockStateFsm" where
  "enterSettingOnuGState lib w =
     (let (meInstance, cc) = sendSetOnuGLS lib ConstDefaultOmciTimeout True (adminAttributes w)
            (l_chan w) (l_cc w)
      in w\<lparr>l_cc := cc\<lparr>pLastTxMeInstance := meInstance\<rparr>\<rparr>)"

definition enterSettingUnisState :: "lockStateFsm \<Rightarrow> lockStateFsm" where
  "enterSettingUnisState w = go [GoWork AdminSet] w"

definition enterAdminDoneState :: "lockStateFsm \<Rightarrow> lockStateFsm" where
  "enterAdminDoneState w =
     go [GoEvent uniEvReset] (w\<lparr>l_notified := l_notified w @ [l_requestEvent w]\<rparr>)"

definition enterResettingState_lock :: "lockStateFsm \<Rightarrow> lockStateFsm" where
  "enterResettingState_lock w = go [GoEvent uniEvRestart] (post fsmAbortMsg w)"

fun lock_enter :: "omciLib \<Rightarrow> uniState \<Rightarrow> lockStateFsm \<Rightarrow> lockStateFsm" where
  "lock_enter lib uniStStarting w = enterAdminStartingState w"
| "lock_enter lib uniStSettingOnuG w = enterSettingOnuGState lib w"
| "lock_enter lib uniStSettingUnis w = enterSettingUnisState w"
| "lock_enter lib uniStAdminDone w = enterAdminDoneState w"
| "lock_enter lib uniStResetting w = enterResettingState_lock w"
| "lock_enter lib uniStDisabled w = w"

text \<open>The table is fixed when the machine is created: \<open>locking\<close> is its direction.\<close>

definition lockEvent :: "omciLib \<Rightarrow> bool \<Rightarrow> uniEvent \<Rightarrow> uniState \<times> lockStateFsm \<Rightarrow> uniState \<times> lockStateFsm" where
  "lockEvent lib locking e s = runEvent (lockEvents locking) (lock_enter lib) e s"

section \<open>Responses\<close>

definition handleOmciLockStateMessage ::
    "omciLib \<Rightarrow> bool \<Rightarrow> omciHeader \<Rightarrow> rxPacket \<Rightarrow> uniState \<times> lockStateFsm \<Rightarrow> (uniState \<times> lockStateFsm) outcome" where
  "handleOmciLockStateMessage lib locking hdr packet s =
     (if hdrMessageType hdr = SetResponseType then
        (case setOk packet of
           None \<Rightarrow> Done s
         | Some (c, e) \<Rightarrow>
             bind_outcome (matchLastTx (pLastTxMeInstance (l_cc (snd s))) c e)
               (\<lambda>r. case r of
                  None \<Rightarrow> Done s
                | Some n \<Rightarrow>
                    if n = ''OnuG'' then Done (lockEvent lib locking uniEvRxOnugResp s)
                    else if n = ''UniG'' \<or> n = ''VEIP'' then
                      Done (fst s, (snd s)\<lparr>l_responses := l_responses (snd s) @ [True]\<rparr>)
                    else Done s))
      else Done s)"

section \<open>The loop over the UNI ports\<close>

definition uniAdminSender :: "omciLib \<Rightarrow> lockStateFsm \<Rightarrow> onuUniPort \<Rightarrow> sender option" where
  "uniAdminSender lib w uniPort =
     (if portType uniPort = uniPPTP then
        Some (sendSetUniGLS lib (entityID uniPort) ConstDefaultOmciTimeout True (adminAttributes w) (l_chan w))
      else if portType uniPort = uniVEIP then
        Some (sendSetVeipLS lib (entityID uniPort) ConstDefaultOmciTimeout True (adminAttributes w) (l_chan w))
      else None)"

definition uniAdminSenders :: "omciLib \<Rightarrow> lockStateFsm \<Rightarrow> onuUniPort list \<Rightarrow> sender list" where
  "uniAdminSenders lib w unis = List.map_filter (uniAdminSender lib w) unis"

text \<open>\<open>unis\<close>: the ports of the device in the order in which Go happens to iterate the map.\<close>

definition performUniPortAdminSet ::
    "omciLib \<Rightarrow> bool \<Rightarrow> onuUniPort list \<Rightarrow> wait list \<Rightarrow> uniState \<times> lockStateFsm \<Rightarrow> uniState \<times> lockStateFsm" where
  "performUniPortAdminSet lib locking unis ws s =
     (case sendAndWait (uniAdminSenders lib (snd s) unis) ws (l_cc (snd s)) of
        (success, _, cc) \<Rightarrow>
          lockEvent lib locking (if success then uniEvRxUnisResp else uniEvReset)
            (fst s, (snd s)\<lparr>l_cc := cc\<rparr>))"

section \<open>Goroutines\<close>

definition processOmciLockMessages ::
    "omciLib \<Rightarrow> bool \<Rightarrow> uniState \<times> lockStateFsm \<Rightarrow> (uniState \<times> lockStateFsm) outcome" where
  "processOmciLockMessages lib locking s = serveMessages (handleOmciLockStateMessage lib locking) s"

text \<open>The port loop, with any iteration order of the ports and any results of its waits.\<close>

inductive lockWorks ::
    "omciLib \<Rightarrow> bool \<Rightarrow> onuUniPort list \<Rightarrow> lockWork \<Rightarrow> uniState \<times> lockStateFsm \<Rightarrow> uniState \<times> lockStateFsm \<Rightarrow> bool"
  for lib locking unis where
  admin_set: "set unis' = set unis \<Longrightarrow> length unis' = length unis \<Longrightarrow>
    lockWorks lib locking unis AdminSet s (performUniPortAdminSet lib locking unis' ws s)"

inductive_cases lockWorksE: "lockWorks lib locking unis x s s'"

definition lockExternal :: "uniEvent list" where
  "lockExternal = [uniEvStart, uniEvReset]"

section \<open>Interpretations\<close>

lemmas lock_table = lockEvents_def NewFSM_def add_desc_def next_state_def

interpretation lock: resettable_fsm "lockEvents True" uniEvReset uniEvRestart uniStDisabled uniStResetting
proof (unfold_locales, goal_cases)
  case (3 s)
  then show ?case by (cases s) (simp_all add: lock_table)
qed (simp_all add: lock_table fsm_keys_def)

interpretation unlock: resettable_fsm "lockEvents False" uniEvReset uniEvRestart uniStDisabled uniStResetting
proof (unfold_locales, goal_cases)
  case (3 s)
  then show ?case by (cases s) (simp_all add: lock_table)
qed (simp_all add: lock_table fsm_keys_def)

interpretation lock_phase: config_phase "lockEvents True"
    uniStSettingUnis uniStSettingOnuG uniStResetting uniEvRxUnisResp uniEvReset
  by unfold_locales (simp_all add: lock_table)

interpretation unlock_phase: config_phase "lockEvents False"
    uniStSettingUnis uniStAdminDone uniStResetting uniEvRxUnisResp uniEvReset
  by unfold_locales (simp_all add: lock_table)

definition lockFired :: "uniEvent list" where
  "lockFired = [uniEvStart, uniEvStartAdmin, uniEvRxUnisResp, uniEvRxOnugResp, uniEvReset, uniEvRestart]"

lemma lockEvent_outcome:
  "lockEvent lib locking e (st, w) =
     (case NewFSM (lockEvents locking) (e, st) of
        None \<Rightarrow> (st, w) | Some t \<Rightarrow> (t, lock_enter lib t w))"
  by (cases locking)
    (auto simp: lockEvent_def runEvent_def lock.Event_outcome unlock.Event_outcome split: option.splits)

lemmas lock_enter_defs = enterAdminStartingState_def enterSettingOnuGState_def
  enterSettingUnisState_def enterAdminDoneState_def enterResettingState_lock_def

lemma lock_enter_accounting:
  "loops (lock_enter lib t w) = loops w + (if t = uniStStarting then 1 else 0)"
  "restarts uniEvRestart (lock_enter lib t w) = restarts uniEvRestart w + (if t = uniStResetting then 1 else 0)"
  "aborts (lock_enter lib t w) = aborts w + (if t = uniStResetting then 1 else 0)"
  "events_among lockFired w \<Longrightarrow> events_among lockFired (lock_enter lib t w)"
  by (cases t; simp add: lock_enter_defs accounting lockFired_def split: prod.split)+

lemma lock_fired_table:
  "e \<in> set lockFired \<Longrightarrow> e \<noteq> uniEvRestart \<Longrightarrow> NewFSM (lockEvents locking) (e, s) = Some t \<Longrightarrow>
   s \<noteq> uniStResetting \<and> t \<noteq> uniStDisabled \<and> (s = uniStDisabled \<longleftrightarrow> t = uniStStarting)"
  by (cases locking) (auto simp: lockFired_def lock_table split: if_splits)

lemma lock_handler_local:
  "handleOmciLockStateMessage lib locking hdr packet s = Done s' \<Longrightarrow>
   local_or_event (lockEvents locking) (lock_enter lib) lockFired uniEvRestart s s'"
  by (cases s)
    (auto simp: handleOmciLockStateMessage_def lockEvent_def lockFired_def
      dest!: matchLastTx_bindD split: if_split_asm option.split_asm intro!: fsm_intros)

lemma lock_work_local:
  "lockWorks lib locking unis x s s' \<Longrightarrow>
   local_or_event (lockEvents locking) (lock_enter lib) lockFired uniEvRestart s s'"
  by (cases s; erule lockWorksE)
    (auto simp: performUniPortAdminSet_def lockEvent_def lockFired_def
      split: prod.split intro!: fsm_intros)

interpretation lock_served: served_fsm "lockEvents True" "lock_enter lib" "handleOmciLockStateMessage lib True"
    "lockWorks lib True unis" lockExternal lockFired uniStDisabled uniStStarting uniStResetting uniEvRestart
  for lib unis
proof (unfold_locales, goal_cases)
  case (8 e)
  then show ?case by (auto simp: lockExternal_def lockFired_def)
next
  case (9 e s t)
  then show ?case by (rule lock_fired_table)
qed (simp_all add: lock_enter_accounting lock_handler_local lock_work_local lock.restart_resetting)

interpretation unlock_served: served_fsm "lockEvents False" "lock_enter lib" "handleOmciLockStateMessage lib False"
    "lockWorks lib False unis" lockExternal lockFired uniStDisabled uniStStarting uniStResetting uniEvRestart
  for lib unis
proof (unfold_locales, goal_cases)
  case (8 e)
  then show ?case by (auto simp: lockExternal_def lockFired_def)
next
  case (9 e s t)
  then show ?case by (rule lock_fired_table)
qed (simp_all add: lock_enter_accounting lock_handler_local lock_work_local unlock.restart_resetting)

section \<open>Properties\<close>

lemma length_map_filter: "length (List.map_filter f xs) = length (filter (\<lambda>x. f x \<noteq> None) xs)"
  by (induction xs) (auto simp: List.map_filter_def)

lemma length_uniAdminSenders:
  "length (uniAdminSenders lib w unis) =
     length (filter (\<lambda>p. portType p = uniPPTP \<or> portType p = uniVEIP) unis)"
proof -
  have "(\<lambda>p. uniAdminSender lib w p \<noteq> None) = (\<lambda>p. portType p = uniPPTP \<or> portType p = uniVEIP)"
    by (auto simp: uniAdminSender_def)
  then show ?thesis by (simp add: uniAdminSenders_def length_map_filter)
qed

text \<open>The loop over the UNI ports leaves its state in exactly two ways: when each of the
  ports of a supported type is acknowledged positively it goes on (to the ONU-G when locking, to
  the report of success when unlocking), and after any failed or missing response it resets.\<close>

lemma performUniPortAdminSet_outcome:
  "fst (performUniPortAdminSet lib locking unis ws (uniStSettingUnis, w)) =
     (let n = length (filter (\<lambda>p. portType p = uniPPTP \<or> portType p = uniVEIP) unis) in
      if n \<le> length ws \<and> list_all (\<lambda>x. fst x = WaitSuccess) (take n ws)
      then (if locking then uniStSettingOnuG else uniStAdminDone) else uniStResetting)"
proof -
  let ?ss = "uniAdminSenders lib w unis"
  obtain b ms cc where r: "sendAndWait ?ss ws (l_cc w) = (b, ms, cc)"
    by (cases "sendAndWait ?ss ws (l_cc w)")
  have "fst (performUniPortAdminSet lib locking unis ws (uniStSettingUnis, w)) =
      next_state (lockEvents locking) (if fst (sendAndWait ?ss ws (l_cc w)) then uniEvRxUnisResp else uniEvReset)
        uniStSettingUnis"
    by (auto simp: performUniPortAdminSet_def r lockEvent_outcome next_state_def split: option.splits)
  then show ?thesis
    using lock_phase.phase_outcome [of ?ss ws "l_cc w"] unlock_phase.phase_outcome [of ?ss ws "l_cc w"]
    by (simp add: lock_phase.phase_event_def unlock_phase.phase_event_def length_uniAdminSenders Let_def)
qed

text \<open>The executions of the lock and of the unlock machine.\<close>

definition lock_reach ::
    "omciLib \<Rightarrow> bool \<Rightarrow> onuUniPort list \<Rightarrow> uniState \<times> lockStateFsm \<Rightarrow> uniState \<times> lockStateFsm \<Rightarrow> bool" where
  "lock_reach lib locking unis =
     served_reach (lockEvents locking) (lock_enter lib) (handleOmciLockStateMessage lib locking)
       (lockWorks lib locking unis) lockExternal"

definition lock_step ::
    "omciLib \<Rightarrow> bool \<Rightarrow> onuUniPort list \<Rightarrow> uniState \<times> lockStateFsm \<Rightarrow> uniState \<times> lockStateFsm \<Rightarrow> bool" where
  "lock_step lib locking unis =
     served_step (lockEvents locking) (lock_enter lib) (handleOmciLockStateMessage lib locking)
       (lockWorks lib locking unis) lockExternal"

lemma newLockStateFsm_account:
  "lock_served.account 0 (newLockStateFsm cc locking e)"
  "unlock_served.account 0 (newLockStateFsm cc locking e)"
  by (simp_all add: newLockStateFsm_def lock_served.account_idle unlock_served.account_idle)

text \<open>C12: in every interleaving of the goroutines, responses and requests of a lock machine, the
  goroutines that serve its channel are exactly the abort messages still unread plus one while the
  machine is active; so an active machine is always served and no server outlives the aborts.\<close>

theorem lock_machine_served:
  assumes "lock_reach lib locking unis (newLockStateFsm cc locking e) (st, w)"
  shows "loops w = aborts w + (if st = uniStDisabled \<or> st = uniStResetting then 0 else 1)"
proof (cases locking)
  case True
  with assms lock_served.served [OF _ newLockStateFsm_account(1), of lib unis cc True e "(st, w)"]
  show ?thesis by (simp add: lock_reach_def)
next
  case False
  with assms unlock_served.served [OF _ newLockStateFsm_account(2), of lib unis cc False e "(st, w)"]
  show ?thesis by (simp add: lock_reach_def)
qed

theorem lock_machine_served_witness:
  "loops (snd (lockEvent permissive_lib True uniEvStart (newLockStateFsm example_cc True UniLockStateDone))) = 1"
proof -
  let ?s = "lockEvent permissive_lib True uniEvStart (newLockStateFsm example_cc True UniLockStateDone)"
  have "lock_reach permissive_lib True [] (newLockStateFsm example_cc True UniLockStateDone) ?s"
    unfolding lock_reach_def lockEvent_def
    by (rule sr_step [OF sr_init st_external]) (simp add: lockExternal_def)
  then have "lock_reach permissive_lib True [] (newLockStateFsm example_cc True UniLockStateDone) (fst ?s, snd ?s)"
    by simp
  note lock_machine_served [OF this]
  then show ?thesis
    by (simp add: newLockStateFsm_def lockEvent_outcome lock_table lock_enter_defs accounting)
qed

text \<open>Recovery: in every reachable state a reset leads an active machine to the resetting
  state, where a goroutine is pending whose step leads back to the idle state.\<close>

lemma lock_machine_recovers:
  assumes "lock_reach lib locking unis (newLockStateFsm cc locking e) (st, w)"
    and "st \<noteq> uniStDisabled"
  shows "\<exists>s1 s2. s1 = (if st = uniStResetting then (st, w) else lockEvent lib locking uniEvReset (st, w)) \<and>
    fst s1 = uniStResetting \<and> lock_step lib locking unis s1 s2 \<and> fst s2 = uniStDisabled"
proof -
  let ?s1 = "if st = uniStResetting then (st, w) else lockEvent lib locking uniEvReset (st, w)"
  have "fst (lockEvent lib locking uniEvReset (st, w)) = uniStResetting" if "st \<noteq> uniStResetting"
    using that assms(2) lock.reset_active [of st] unlock.reset_active [of st]
    by (cases locking) (simp_all add: lockEvent_outcome)
  then have 1: "fst ?s1 = uniStResetting" by simp
  have "lock_reach lib locking unis (newLockStateFsm cc locking e) (lockEvent lib locking uniEvReset (st, w))"
    using assms(1) unfolding lock_reach_def lockEvent_def
    by (rule sr_step) (auto simp: lockExternal_def intro: st_external)
  with assms(1) have 2: "lock_reach lib locking unis (newLockStateFsm cc locking e) ?s1" by (cases "st = uniStResetting") simp_all
  have "\<exists>s2. lock_step lib locking unis ?s1 s2 \<and> fst s2 = uniStDisabled"
  proof (cases locking)
    case True
    with lock_served.restart_pending [OF _ newLockStateFsm_account(1) 1] 2 show ?thesis
      by (simp add: lock_reach_def lock_step_def)
  next
    case False
    with unlock_served.restart_pending [OF _ newLockStateFsm_account(2) 1] 2 show ?thesis
      by (simp add: lock_reach_def lock_step_def)
  qed
  with 1 show ?thesis by blast
qed

lemma lock_machine_recovers_witness:
  "\<exists>s2. lock_step permissive_lib True []
     (lockEvent permissive_lib True uniEvReset
       (lockEvent permissive_lib True uniEvStart (newLockStateFsm example_cc True UniLockStateDone))) s2 \<and>
     fst s2 = uniStDisabled"
proof -
  let ?s = "lockEvent permissive_lib True uniEvStart (newLockStateFsm example_cc True UniLockStateDone)"
  have r: "lock_reach permissive_lib True [] (newLockStateFsm example_cc True UniLockStateDone) ?s"
    unfolding lock_reach_def lockEvent_def
    by (rule sr_step [OF sr_init st_external]) (simp add: lockExternal_def)
  have st: "fst ?s = uniStStarting"
    by (simp add: newLockStateFsm_def lockEvent_outcome lock_table)
  obtain w where s: "?s = (uniStStarting, w)" using st by (metis prod.collapse)
  show ?thesis
    using lock_machine_recovers [OF r [unfolded s]] by (auto simp: s)
qed

text \<open>While a VEIP is being locked or unlocked no response of the ONU, whatever it holds, ends
  the wait or moves the machine: the handler looks for the name ''VEIP'', the class is called
  ''VirtualEthernetInterfacePoint''.\<close>

lemma veip_never_acknowledged:
  assumes "pLastTxMeInstance (l_cc w) = Some m" and "meClass m = VirtualEthernetInterfacePointClassID"
  shows "handleOmciLockStateMessage lib locking hdr packet (st, w) = Done (st, w)"
proof -
  have "GetName m = ''VirtualEthernetInterfacePoint''"
    using assms(2) by (simp add: GetName_def me_name_def class_ids)
  with assms(1) show ?thesis
    by (auto simp: handleOmciLockStateMessage_def panic_simps split: option.splits)
qed

lemma veip_never_acknowledged_witness:
  "handleOmciLockStateMessage permissive_lib True
     \<lparr>TransactionID = 1, hdrMessageType = SetResponseType, DeviceIdentifier = 10, hdrPayload = []\<rparr>
     (Some (SetResponse VirtualEthernetInterfacePointClassID 257 me_Success))
     (uniStSettingUnis, (snd (newLockStateFsm
        (example_cc\<lparr>pLastTxMeInstance := Some \<lparr>meClass = VirtualEthernetInterfacePointClassID, meEntity = 257,
          meAttrs = []\<rparr>\<rparr>) True UniLockStateDone)))
   = Done (uniStSettingUnis, (snd (newLockStateFsm
        (example_cc\<lparr>pLastTxMeInstance := Some \<lparr>meClass = VirtualEthernetInterfacePointClassID, meEntity = 257,
          meAttrs = []\<rparr>\<rparr>) True UniLockStateDone)))"
  by (rule veip_never_acknowledged [where m = "\<lparr>meClass = VirtualEthernetInterfacePointClassID,
      meEntity = 257, meAttrs = []\<rparr>"]) (simp_all add: newLockStateFsm_def)

end
