(* ===== verification/Vlan_Config.thy ===== *)
theory Vlan_Config
  imports Served_Fsm
begin

text \<open>
  The VLAN configuration of a UNI port (\<open>omci_vlan_config.go\<close>): the parameters derived
  from a flow, the bytes of the extended VLAN tagging operation rules, the state machine with
  its callbacks, the loop that sets the rules one after the other, and the handling of the
  responses.

  The machine interprets \<open>resettable_fsm\<close> and \<open>served_fsm\<close>, the rule loop
  \<open>config_phase\<close>.
\<close>

section \<open>Rule bytes\<close>

definition cDefaultDownstreamMode :: u8 where "cDefaultDownstreamMode = 0"
definition cDefaultTpid :: u16 where "cDefaultTpid = 0x8100"

definition cPrioIgnoreTag :: u32 where "cPrioIgnoreTag = 15"
definition cPrioDefaultFilter :: u32 where "cPrioDefaultFilter = 14"
definition cPrioDoNotFilter :: u32 where "cPrioDoNotFilter = 8"
definition cDoNotFilterVid :: u32 where "cDoNotFilterVid = 4096"
definition cDoNotFilterTPID :: u32 where "cDoNotFilterTPID = 0"
definition cDoNotFilterEtherType :: u32 where "cDoNotFilterEtherType = 0"
definition cDoNotAddPrio :: u32 where "cDoNotAddPrio = 15"
definition cCopyPrioFromInner :: u32 where "cCopyPrioFromInner = 8"
definition cDontCareVid :: u32 where "cDontCareVid = 0"
definition cDontCareTpid :: u32 where "cDontCareTpid = 0"
definition cSetOutputTpidCopyDei :: u32 where "cSetOutputTpidCopyDei = 4"

definition OFPVID_PRESENT :: u32 where "OFPVID_PRESENT = 4096"

lemmas vlan_consts = cPrioIgnoreTag_def cPrioDefaultFilter_def cPrioDoNotFilter_def
  cDoNotFilterVid_def cDoNotFilterTPID_def cDoNotFilterEtherType_def cDoNotAddPrio_def
  cCopyPrioFromInner_def cDontCareVid_def cDontCareTpid_def cSetOutputTpidCopyDei_def
  OFPVID_PRESENT_def

text \<open>The words of a rule: filters for the outer and the inner tag, then their treatments.\<close>

definition filterWord :: "u32 \<Rightarrow> u32 \<Rightarrow> u32 \<Rightarrow> u32 \<Rightarrow> u32" where
  "filterWord prio vid tpid etherType =
     push_bit 28 prio OR push_bit 15 vid OR push_bit 12 tpid OR push_bit 0 etherType"

definition treatWord :: "u32 \<Rightarrow> u32 \<Rightarrow> u32 \<Rightarrow> u32 \<Rightarrow> u32" where
  "treatWord ttr prio vid tpid =
     push_bit 30 ttr OR push_bit 16 prio OR push_bit 3 vid OR push_bit 0 tpid"

definition evtocdRule :: "u32 \<Rightarrow> u32 \<Rightarrow> u32 \<Rightarrow> u32 \<Rightarrow> u8 list" where
  "evtocdRule filterOuter filterInner treatOuter treatInner =
     PutUint32 filterOuter @ PutUint32 filterInner @ PutUint32 treatOuter @ PutUint32 treatInner"

text \<open>The common first and third words: no outer tag is filtered, no outer tag is added.\<close>

definition noOuterFilter :: u32 where
  "noOuterFilter = push_bit 28 cPrioIgnoreTag OR push_bit 15 cDoNotFilterVid OR push_bit 12 cDoNotFilterTPID"

definition noOuterTag :: "u32 \<Rightarrow> u32" where
  "noOuterTag ttr = treatWord ttr cDoNotAddPrio cDontCareVid cDontCareTpid"

text \<open>What an OLT reads back from the bytes: priority, VID, TPID; tags to remove first.\<close>

definition rule_filter :: "nat \<Rightarrow> u8 list \<Rightarrow> nat \<times> nat \<times> nat" where
  "rule_filter off bs =
     (let w = Uint32 (drop off bs) in
      (unat (take_bit 4 (drop_bit 28 w)), unat (take_bit 13 (drop_bit 15 w)), unat (take_bit 3 (drop_bit 12 w))))"

definition rule_treat :: "nat \<Rightarrow> u8 list \<Rightarrow> nat \<times> nat \<times> nat \<times> nat" where
  "rule_treat off bs =
     (let w = Uint32 (drop off bs) in
      (unat (take_bit 2 (drop_bit 30 w)), unat (take_bit 4 (drop_bit 16 w)),
       unat (take_bit 13 (drop_bit 3 w)), unat (take_bit 3 w)))"

section \<open>The machine\<close>

datatype vlanEvent = vlanEvStart | vlanEvWaitTechProf | vlanEvContinueConfig | vlanEvStartConfig
  | vlanEvRxConfigVtfd | vlanEvRxConfigEvtocd | vlanEvReset | vlanEvRestart

datatype vlanState = vlanStDisabled | vlanStStarting | vlanStWaitingTechProf | vlanStConfigVtfd
  | vlanStConfigEvtocd | vlanStConfigDone | vlanStCleanEvtocd | vlanStCleanVtfd
  | vlanStCleanupDone | vlanStResetting

definition vlanEvents :: "(vlanEvent, vlanState) EventDesc list" where
  "vlanEvents =
     [ev vlanEvStart [vlanStDisabled] vlanStStarting,
      ev vlanEvWaitTechProf [vlanStStarting] vlanStWaitingTechProf,
      ev vlanEvContinueConfig [vlanStWaitingTechProf] vlanStConfigVtfd,
      ev vlanEvStartConfig [vlanStStarting] vlanStConfigVtfd,
      ev vlanEvRxConfigVtfd [vlanStConfigVtfd] vlanStConfigEvtocd,
      ev vlanEvRxConfigEvtocd [vlanStConfigEvtocd] vlanStConfigDone,
      ev vlanEvReset [vlanStStarting, vlanStWaitingTechProf, vlanStConfigVtfd, vlanStConfigEvtocd,
        vlanStConfigDone, vlanStCleanEvtocd, vlanStCleanVtfd, vlanStCleanupDone] vlanStResetting,
      ev vlanEvRestart [vlanStResetting] vlanStDisabled]"

text \<open>The goroutines: the decision in the starting state, the rule loop, the removal request.\<close>

datatype vlanWork = DecideTechProf | ConfigEvtocdEntries | RemoveVlanFilterFsm

record uniVlanConfigFsm = "(vlanEvent, vlanWork) fsmWorld" +
  v_cc :: omciCC
  v_uni :: onuUniPort
  v_techProfileID :: u16
  v_requestEvent :: OnuDeviceEvent
  v_acceptIncrementalEvto :: bool
  v_matchVid :: u32
  v_matchPcp :: u32
  v_tagsToRemove :: u32
  v_setVid :: u32
  v_setPcp :: u32
  v_vtfdID :: u16
  v_evtocdID :: u16
  v_responses :: "bool list"
  v_notified :: "OnuDeviceEvent list"
  v_removalRequested :: bool

definition NewUniVlanConfigFsm ::
    "omciCC \<Rightarrow> onuUniPort \<Rightarrow> u16 \<Rightarrow> OnuDeviceEvent \<Rightarrow> bool \<Rightarrow> u16 \<Rightarrow> u16 \<Rightarrow> u8 \<Rightarrow> vlanState \<times> uniVlanConfigFsm" where
  "NewUniVlanConfigFsm cc apUniPort aTechProfileID aRequestEvent aAcceptIncrementalEvto
       aMatchVlan aSetVlan aSetPcp =
     (let noFilter = (ucast aMatchVlan = OFPVID_PRESENT); pcp = ucast aSetPcp in
      (vlanStDisabled,
       \<lparr>w_comm = [], w_tasks = [], v_cc = cc, v_uni = apUniPort, v_techProfileID = aTechProfileID,
        v_requestEvent = aRequestEvent, v_acceptIncrementalEvto = aAcceptIncrementalEvto,
        v_matchVid = ucast aMatchVlan,
        v_matchPcp = (if noFilter then cPrioIgnoreTag else cPrioDoNotFilter),
        v_tagsToRemove = (if noFilter then 0 else 1),
        v_setVid = ucast aSetVlan,
        v_setPcp = (if noFilter \<and> pcp = cCopyPrioFromInner then 0 else pcp),
        v_vtfdID = 0, v_evtocdID = 0, v_responses = [], v_notified = [], v_removalRequested = False\<rparr>))"

definition vlanChan :: "uniVlanConfigFsm \<Rightarrow> channel" where
  "vlanChan w = ChVlan (uniID (v_uni w))"

section \<open>Callbacks\<close>

definition enterConfigStarting :: "uniVlanConfigFsm \<Rightarrow> uniVlanConfigFsm" where
  "enterConfigStarting w = go [GoMessages, GoWork DecideTechProf] w"

definition vtfdParams :: "uniVlanConfigFsm \<Rightarrow> ParamData" where
  "vtfdParams w =
     \<lparr>EntityID = v_vtfdID w,
      Attributes = [(''VlanFilterList'', AU16s (ucast (v_setVid w) # replicate 11 0)),
                    (''ForwardOperation'', AU8 0x10), (''NumberOfEntries'', AU8 1)]\<rparr>"

definition enterConfigVtfd :: "omciLib \<Rightarrow> uniVlanConfigFsm \<Rightarrow> uniVlanConfigFsm" where
  "enterConfigVtfd lib w =
     (if v_setVid w = OFPVID_PRESENT then go [GoEvent vlanEvRxConfigVtfd] w
      else
        (let (meInstance, cc) = sendCreateVtfdVar lib ConstDefaultOmciTimeout True (vlanChan w)
               (vtfdParams w) (v_cc w)
         in w\<lparr>v_cc := cc\<lparr>pLastTxMeInstance := meInstance\<rparr>\<rparr>))"

definition enterConfigEvtocd :: "uniVlanConfigFsm \<Rightarrow> uniVlanConfigFsm" where
  "enterConfigEvtocd w = go [GoWork ConfigEvtocdEntries] w"

definition enterVlanConfigDone :: "uniVlanConfigFsm \<Rightarrow> uniVlanConfigFsm" where
  "enterVlanConfigDone w = w\<lparr>v_notified := v_notified w @ [v_requestEvent w]\<rparr>"

definition enterVlanCleanupDone :: "uniVlanConfigFsm \<Rightarrow> uniVlanConfigFsm" where
  "enterVlanCleanupDone w = go [GoEvent vlanEvReset] w"

definition enterResetting_vlan :: "uniVlanConfigFsm \<Rightarrow> uniVlanConfigFsm" where
  "enterResetting_vlan w = go [GoEvent vlanEvRestart] (post fsmAbortMsg w)"

definition enterDisabled_vlan :: "uniVlanConfigFsm \<Rightarrow> uniVlanConfigFsm" where
  "enterDisabled_vlan w = go [GoWork RemoveVlanFilterFsm] w"

fun vlan_enter :: "omciLib \<Rightarrow> vlanState \<Rightarrow> uniVlanConfigFsm \<Rightarrow> uniVlanConfigFsm" where
  "vlan_enter lib vlanStStarting w = enterConfigStarting w"
| "vlan_enter lib vlanStConfigVtfd w = enterConfigVtfd lib w"
| "vlan_enter lib vlanStConfigEvtocd w = enterConfigEvtocd w"
| "vlan_enter lib vlanStConfigDone w = enterVlanConfigDone w"
| "vlan_enter lib vlanStCleanVtfd w = w"
| "vlan_enter lib vlanStCleanEvtocd w = w"
| "vlan_enter lib vlanStCleanupDone w = enterVlanCleanupDone w"
| "vlan_enter lib vlanStResetting w = enterResetting_vlan w"
| "vlan_enter lib vlanStDisabled w = enterDisabled_vlan w"
| "vlan_enter lib vlanStWaitingTechProf w = w"

definition fireVlan :: "omciLib \<Rightarrow> vlanEvent \<Rightarrow> vlanState \<times> uniVlanConfigFsm \<Rightarrow> vlanState \<times> uniVlanConfigFsm" where
  "fireVlan lib e s = runEvent vlanEvents (vlan_enter lib) e s"

text \<open>The goroutine of the starting state; \<open>tpDone\<close> is \<open>getTechProfileDone\<close> at that time.\<close>

definition decideTechProf :: "omciLib \<Rightarrow> bool \<Rightarrow> vlanState \<times> uniVlanConfigFsm \<Rightarrow> vlanState \<times> uniVlanConfigFsm" where
  "decideTechProf lib tpDone s =
     (let w = snd s;
          w' = w\<lparr>v_vtfdID := macBridgePortAniEID + entityID (v_uni w) + v_techProfileID w,
                 v_evtocdID := macBridgeServiceProfileEID + ucast (macBpNo (v_uni w))\<rparr>
      in fireVlan lib (if tpDone then vlanEvStartConfig else vlanEvWaitTechProf) (fst s, w'))"

section \<open>Responses\<close>

definition handleOmciVlanConfigMessage ::
    "omciLib \<Rightarrow> omciHeader \<Rightarrow> rxPacket \<Rightarrow> vlanState \<times> uniVlanConfigFsm \<Rightarrow> (vlanState \<times> uniVlanConfigFsm) outcome" where
  "handleOmciVlanConfigMessage lib hdr packet s =
     (if hdrMessageType hdr = CreateResponseType then
        (case createOk packet of
           None \<Rightarrow> Done s
         | Some (c, e) \<Rightarrow>
             bind_outcome (matchLastTx (pLastTxMeInstance (v_cc (snd s))) c e)
               (\<lambda>r. case r of
                  None \<Rightarrow> Done s
                | Some n \<Rightarrow>
                    if n = ''VlanTaggingFilterData'' then Done (fireVlan lib vlanEvRxConfigVtfd s)
                    else Done s))
      else if hdrMessageType hdr = SetResponseType then
        (case setOk packet of
           None \<Rightarrow> Done s
         | Some (c, e) \<Rightarrow>
             bind_outcome (matchLastTx (pLastTxMeInstance (v_cc (snd s))) c e)
               (\<lambda>r. case r of
                  None \<Rightarrow> Done s
                | Some n \<Rightarrow>
                    if n = ''ExtendedVlanTaggingOperationConfigurationData'' then
                      Done (fst s, (snd s)\<lparr>v_responses := v_responses (snd s) @ [True]\<rparr>)
                    else Done s))
      else Done s)"

definition processOmciVlanMessages ::
    "omciLib \<Rightarrow> vlanState \<times> uniVlanConfigFsm \<Rightarrow> (vlanState \<times> uniVlanConfigFsm) outcome" where
  "processOmciVlanMessages lib s = serveMessages (handleOmciVlanConfigMessage lib) s"

section \<open>The rule loop\<close>

definition tpidParams :: "uniVlanConfigFsm \<Rightarrow> ParamData" where
  "tpidParams w =
     \<lparr>EntityID = v_evtocdID w,
      Attributes = [(''InputTpid'', AU16 cDefaultTpid), (''OutputTpid'', AU16 cDefaultTpid),
                    (''DownstreamMode'', AU8 cDefaultDownstreamMode)]\<rparr>"

definition ruleParams :: "uniVlanConfigFsm \<Rightarrow> u8 list \<Rightarrow> ParamData" where
  "ruleParams w sliceEvtocdRule =
     \<lparr>EntityID = v_evtocdID w,
      Attributes = [(''ReceivedFrameVlanTaggingOperationTable'', AOctets sliceEvtocdRule)]\<rparr>"

definition transparentRule :: "u8 list" where
  "transparentRule = evtocdRule noOuterFilter
     (filterWord cPrioDefaultFilter cDoNotFilterVid cDoNotFilterTPID cDoNotFilterEtherType)
     (noOuterTag 0)
     (push_bit 16 cDoNotAddPrio OR push_bit 3 cDontCareVid OR push_bit 0 cSetOutputTpidCopyDei)"

definition translationRule :: "uniVlanConfigFsm \<Rightarrow> u8 list" where
  "translationRule w = evtocdRule noOuterFilter
     (filterWord (v_matchPcp w) (v_matchVid w) cDoNotFilterTPID cDoNotFilterEtherType)
     (noOuterTag (v_tagsToRemove w))
     (push_bit 16 (v_setPcp w) OR push_bit 3 (v_setVid w) OR push_bit 0 cSetOutputTpidCopyDei)"

definition untaggedRule :: "uniVlanConfigFsm \<Rightarrow> u8 list" where
  "untaggedRule w = evtocdRule noOuterFilter
     (filterWord cPrioIgnoreTag cDoNotFilterVid cDoNotFilterTPID cDoNotFilterEtherType)
     (noOuterTag 0)
     (push_bit 16 0 OR push_bit 3 (v_setVid w) OR push_bit 0 cSetOutputTpidCopyDei)"

definition priotaggedRule :: "uniVlanConfigFsm \<Rightarrow> u8 list" where
  "priotaggedRule w = evtocdRule noOuterFilter
     (filterWord cPrioDoNotFilter 0 cDoNotFilterTPID cDoNotFilterEtherType)
     (noOuterTag 1)
     (push_bit 16 cCopyPrioFromInner OR push_bit 3 (v_setVid w) OR push_bit 0 cSetOutputTpidCopyDei)"

definition evtocdEntries :: "uniVlanConfigFsm \<Rightarrow> ParamData list" where
  "evtocdEntries w =
     tpidParams w #
     (if v_setVid w = OFPVID_PRESENT then [ruleParams w transparentRule]
      else if v_acceptIncrementalEvto w then [ruleParams w (translationRule w)]
      else [ruleParams w (untaggedRule w), ruleParams w (priotaggedRule w)])"

definition evtocdSenders :: "omciLib \<Rightarrow> uniVlanConfigFsm \<Rightarrow> sender list" where
  "evtocdSenders lib w =
     map (sendSetEvtocdVar lib ConstDefaultOmciTimeout True (vlanChan w)) (evtocdEntries w)"

definition performConfigEvtocdEntries ::
    "omciLib \<Rightarrow> wait list \<Rightarrow> vlanState \<times> uniVlanConfigFsm \<Rightarrow> vlanState \<times> uniVlanConfigFsm" where
  "performConfigEvtocdEntries lib ws s =
     (case sendAndWait (evtocdSenders lib (snd s)) ws (v_cc (snd s)) of
        (success, _, cc) \<Rightarrow>
          fireVlan lib (if success then vlanEvRxConfigEvtocd else vlanEvReset)
            (fst s, (snd s)\<lparr>v_cc := cc\<rparr>))"

inductive vlanWorks ::
    "omciLib \<Rightarrow> vlanWork \<Rightarrow> vlanState \<times> uniVlanConfigFsm \<Rightarrow> vlanState \<times> uniVlanConfigFsm \<Rightarrow> bool"
  for lib where
  decide: "vlanWorks lib DecideTechProf s (decideTechProf lib tpDone s)"
| evtocd: "vlanWorks lib ConfigEvtocdEntries s (performConfigEvtocdEntries lib ws s)"
| remove_fsm: "vlanWorks lib RemoveVlanFilterFsm (st, w) (st, w\<lparr>v_removalRequested := True\<rparr>)"

inductive_cases vlanWorksE: "vlanWorks lib x s s'"

definition vlanExternal :: "vlanEvent list" where
  "vlanExternal = [vlanEvStart, vlanEvContinueConfig, vlanEvReset]"

section \<open>Interpretations\<close>

lemmas vlan_table = vlanEvents_def NewFSM_def add_desc_def next_state_def

interpretation vlan: resettable_fsm vlanEvents vlanEvReset vlanEvRestart vlanStDisabled vlanStResetting
proof (unfold_locales, goal_cases)
  case (3 s)
  then show ?case by (cases s) (simp_all add: vlan_table)
qed (simp_all add: vlan_table fsm_keys_def)

interpretation evtocd_phase: config_phase vlanEvents
    vlanStConfigEvtocd vlanStConfigDone vlanStResetting vlanEvRxConfigEvtocd vlanEvReset
  by unfold_locales (simp_all add: vlan_table)

definition vlanFired :: "vlanEvent list" where
  "vlanFired = [vlanEvStart, vlanEvWaitTechProf, vlanEvContinueConfig, vlanEvStartConfig,
     vlanEvRxConfigVtfd, vlanEvRxConfigEvtocd, vlanEvReset, vlanEvRestart]"

lemma fireVlan_outcome:
  "fireVlan lib e (st, w) =
     (case NewFSM vlanEvents (e, st) of None \<Rightarrow> (st, w) | Some t \<Rightarrow> (t, vlan_enter lib t w))"
  by (auto simp: fireVlan_def runEvent_def vlan.Event_outcome split: option.splits)

lemmas vlan_enter_defs = enterConfigStarting_def enterConfigVtfd_def enterConfigEvtocd_def
  enterVlanConfigDone_def enterVlanCleanupDone_def enterResetting_vlan_def enterDisabled_vlan_def

lemma in_vlanFired [simp]: "e \<in> set vlanFired"
  by (cases e) (simp_all add: vlanFired_def)

lemma v_cc_accounting [simp]:
  "loops (w\<lparr>v_cc := cc\<rparr>) = loops w" "restarts e (w\<lparr>v_cc := cc\<rparr>) = restarts e w"
  "aborts (w\<lparr>v_cc := cc\<rparr>) = aborts w" "events_among es (w\<lparr>v_cc := cc\<rparr>) = events_among es w"
  "loops (w\<lparr>v_notified := ns\<rparr>) = loops w" "restarts e (w\<lparr>v_notified := ns\<rparr>) = restarts e w"
  "aborts (w\<lparr>v_notified := ns\<rparr>) = aborts w" "events_among es (w\<lparr>v_notified := ns\<rparr>) = events_among es w"
  by (simp_all add: accounting)

lemma enterConfigVtfd_accounting [simp]:
  "loops (enterConfigVtfd lib w) = loops w"
  "restarts vlanEvRestart (enterConfigVtfd lib w) = restarts vlanEvRestart w"
  "aborts (enterConfigVtfd lib w) = aborts w"
  "events_among vlanFired (enterConfigVtfd lib w) = events_among vlanFired w"
  by (simp_all add: enterConfigVtfd_def split: prod.split)

lemma vlan_enter_accounting:
  "loops (vlan_enter lib t w) = loops w + (if t = vlanStStarting then 1 else 0)"
  "restarts vlanEvRestart (vlan_enter lib t w) = restarts vlanEvRestart w + (if t = vlanStResetting then 1 else 0)"
  "aborts (vlan_enter lib t w) = aborts w + (if t = vlanStResetting then 1 else 0)"
  "events_among vlanFired w \<Longrightarrow> events_among vlanFired (vlan_enter lib t w)"
  by (cases t; simp add: enterConfigStarting_def enterConfigEvtocd_def enterVlanConfigDone_def
      enterVlanCleanupDone_def enterResetting_vlan_def enterDisabled_vlan_def)+

lemma vlan_handler_local:
  "handleOmciVlanConfigMessage lib hdr packet s = Done s' \<Longrightarrow>
   local_or_event vlanEvents (vlan_enter lib) vlanFired vlanEvRestart s s'"
  by (cases s)
    (auto simp: handleOmciVlanConfigMessage_def fireVlan_def
      dest!: matchLastTx_bindD split: if_split_asm option.split_asm intro!: fsm_intros)

lemma vlan_work_local:
  "vlanWorks lib x s s' \<Longrightarrow> local_or_event vlanEvents (vlan_enter lib) vlanFired vlanEvRestart s s'"
  by (cases s; erule vlanWorksE)
    (auto simp: performConfigEvtocdEntries_def decideTechProf_def fireVlan_def Let_def
      split: prod.split intro!: fsm_intros)

interpretation vlan_served: served_fsm vlanEvents "vlan_enter lib" "handleOmciVlanConfigMessage lib"
    "vlanWorks lib" vlanExternal vlanFired vlanStDisabled vlanStStarting vlanStResetting vlanEvRestart
  for lib
proof (unfold_locales, goal_cases)
  case (8 e)
  then show ?case by (auto simp: vlanExternal_def)
next
  case (9 e s t)
  then show ?case by (cases e) (auto simp: vlan_table split: if_splits)
qed (simp_all add: vlan_enter_accounting vlan_handler_local vlan_work_local vlan.restart_resetting)

section \<open>Decoding rules\<close>

lemma drop_PutUint32: "drop 4 (PutUint32 v @ rest) = rest"
  by (simp add: PutUint32_def)

lemma evtocdRule_words:
  "Uint32 (drop 0 (evtocdRule a b c d)) = a" "Uint32 (drop 4 (evtocdRule a b c d)) = b"
  "Uint32 (drop 8 (evtocdRule a b c d)) = c" "Uint32 (drop 12 (evtocdRule a b c d)) = d"
proof -
  show "Uint32 (drop 0 (evtocdRule a b c d)) = a" by (simp add: evtocdRule_def)
  show "Uint32 (drop 4 (evtocdRule a b c d)) = b" by (simp add: evtocdRule_def)
  have "drop 8 xs = drop 4 (drop 4 xs)" "drop 12 xs = drop 4 (drop 4 (drop 4 xs))" for xs :: "u8 list"
    by simp_all
  moreover have "Uint32 (PutUint32 d) = d" using Uint32_PutUint32 [of d "[]"] by simp
  ultimately show "Uint32 (drop 8 (evtocdRule a b c d)) = c" "Uint32 (drop 12 (evtocdRule a b c d)) = d"
    by (simp_all only: evtocdRule_def drop_PutUint32 Uint32_PutUint32)
qed

lemma unat_less_bits: "unat (w :: u32) < 2 ^ k \<Longrightarrow> bit w n \<Longrightarrow> n < k"
  using unat_less_bits_clear [of w k n] by linarith

lemma filterWord_fields:
  assumes "unat prio < 16" "unat vid < 8192" "unat tpid < 8"
  shows "take_bit 4 (drop_bit 28 (filterWord prio vid tpid 0)) = prio"
    and "take_bit 13 (drop_bit 15 (filterWord prio vid tpid 0)) = vid"
    and "take_bit 3 (drop_bit 12 (filterWord prio vid tpid 0)) = tpid"
  using unat_less_bits [of prio 4] unat_less_bits [of vid 13] unat_less_bits [of tpid 3] assms
  by (intro bit_word_eqI; simp_all only: filterWord_def bit_iffs bit_take_bit_iff; force)+

lemma treatWord_fields:
  assumes "unat ttr < 4" "unat prio < 16" "unat vid < 8192" "unat tpid < 8"
  shows "take_bit 2 (drop_bit 30 (treatWord ttr prio vid tpid)) = ttr"
    and "take_bit 4 (drop_bit 16 (treatWord ttr prio vid tpid)) = prio"
    and "take_bit 13 (drop_bit 3 (treatWord ttr prio vid tpid)) = vid"
    and "take_bit 3 (treatWord ttr prio vid tpid) = tpid"
  using unat_less_bits [of ttr 2] unat_less_bits [of prio 4] unat_less_bits [of vid 13]
    unat_less_bits [of tpid 3] assms
  by (intro bit_word_eqI; simp_all only: treatWord_def bit_iffs bit_take_bit_iff; force)+

lemma noOuterFilter_eq: "noOuterFilter = filterWord 15 4096 0 0"
  by (simp add: noOuterFilter_def filterWord_def vlan_consts)

lemma innerTreat_eq: "push_bit 16 prio OR push_bit 3 vid OR push_bit 0 tpid = treatWord 0 prio vid tpid"
  by (simp add: treatWord_def)

lemma rule_fields:
  fixes fp fv ttr tp tv :: u32
  defines "bs \<equiv> evtocdRule noOuterFilter (filterWord fp fv 0 0) (noOuterTag ttr)
    (push_bit 16 tp OR push_bit 3 tv OR push_bit 0 cSetOutputTpidCopyDei)"
  assumes "unat fp < 16" "unat fv < 8192" "unat ttr < 4" "unat tp < 16" "unat tv < 8192"
  shows "length bs = 16" and "rule_filter 0 bs = (15, 4096, 0)"
    and "rule_filter 4 bs = (unat fp, unat fv, 0)"
    and "rule_treat 8 bs = (unat ttr, 15, 0, 0)"
    and "rule_treat 12 bs = (0, unat tp, unat tv, 4)"
proof -
  show "length bs = 16" by (simp add: bs_def evtocdRule_def)
  show "rule_filter 0 bs = (15, 4096, 0)"
    using filterWord_fields [of 15 4096 0]
    by (simp only: rule_filter_def bs_def evtocdRule_words noOuterFilter_eq Let_def) simp
  show "rule_filter 4 bs = (unat fp, unat fv, 0)"
    using filterWord_fields [of fp fv 0] assms
    by (simp only: rule_filter_def bs_def evtocdRule_words Let_def) simp
  show "rule_treat 8 bs = (unat ttr, 15, 0, 0)"
    using treatWord_fields [of ttr 15 0 0] assms
    by (simp only: rule_treat_def bs_def evtocdRule_words noOuterTag_def vlan_consts Let_def) simp
  show "rule_treat 12 bs = (0, unat tp, unat tv, 4)"
    using treatWord_fields [of 0 tp tv 4] assms
    by (simp only: rule_treat_def bs_def evtocdRule_words innerTreat_eq vlan_consts Let_def) simp
qed

section \<open>Properties\<close>

lemma unat_ucast_u16_u32 [simp]: "unat (ucast (x :: u16) :: u32) = unat x"
  using unat_u16_less [of x] by (simp add: unsigned_ucast_eq take_bit_nat_eq_self)

lemma unat_ucast_u8_u32 [simp]: "unat (ucast (x :: u8) :: u32) = unat x"
  using unat_u8_less [of x] by (simp add: unsigned_ucast_eq take_bit_nat_eq_self)

lemma ucast_u8_eq_8: "(ucast (x :: u8) :: u32) = 8 \<longleftrightarrow> unat x = 8"
proof
  assume "(ucast x :: u32) = 8"
  then have "unat (ucast x :: u32) = unat (8 :: u32)" by simp
  then show "unat x = 8" by simp
next
  assume "unat x = 8"
  then have "unat (ucast x :: u32) = unat (8 :: u32)" by simp
  then show "(ucast x :: u32) = 8" by (rule word_unat_eq_iff [THEN iffD2])
qed

lemma ucast_u16_eq_4096: "(ucast (x :: u16) :: u32) = 4096 \<longleftrightarrow> unat x = 4096"
proof
  assume "(ucast x :: u32) = 4096"
  then have "unat (ucast x :: u32) = unat (4096 :: u32)" by simp
  then show "unat x = 4096" by simp
next
  assume "unat x = 4096"
  then have "unat (ucast x :: u32) = unat (4096 :: u32)" by simp
  then show "(ucast x :: u32) = 4096" by (rule word_unat_eq_iff [THEN iffD2])
qed

text \<open>The fields of the translation rule.\<close>

lemma translationRule_bits:
  assumes "unat matchVlan < 8192" and "unat setVlan < 8192" and "unat setPcp < 16"
    and "w = snd (NewUniVlanConfigFsm cc uni tp e incr matchVlan setVlan setPcp)"
  shows "length (translationRule w) = 16 \<and>
    rule_filter 0 (translationRule w) = (15, 4096, 0) \<and>
    rule_filter 4 (translationRule w) = (if unat matchVlan = 4096 then 15 else 8, unat matchVlan, 0) \<and>
    rule_treat 8 (translationRule w) = (if unat matchVlan = 4096 then 0 else 1, 15, 0, 0) \<and>
    rule_treat 12 (translationRule w) =
      (0, if unat matchVlan = 4096 \<and> unat setPcp = 8 then 0 else unat setPcp, unat setVlan, 4)"
proof -
  have t: "translationRule w = evtocdRule noOuterFilter (filterWord (v_matchPcp w) (v_matchVid w) 0 0)
      (noOuterTag (v_tagsToRemove w))
      (push_bit 16 (v_setPcp w) OR push_bit 3 (v_setVid w) OR push_bit 0 cSetOutputTpidCopyDei)"
    by (simp add: translationRule_def vlan_consts)
  have w: "v_matchPcp w = (if unat matchVlan = 4096 then 15 else 8)" "v_matchVid w = ucast matchVlan"
    "v_tagsToRemove w = (if unat matchVlan = 4096 then 0 else 1)" "v_setVid w = ucast setVlan"
    "v_setPcp w = (if unat matchVlan = 4096 \<and> unat setPcp = 8 then 0 else ucast setPcp)"
    by (simp_all add: assms(4) NewUniVlanConfigFsm_def vlan_consts Let_def ucast_u16_eq_4096 ucast_u8_eq_8)
  note f = rule_fields [of "v_matchPcp w" "v_matchVid w" "v_tagsToRemove w" "v_setPcp w" "v_setVid w"]
  show ?thesis
    unfolding t using f assms(1-3) by (simp add: w)
qed

text \<open>C28: the VLAN translation rule is well formed for every flow with 13-bit VIDs and a 4-bit
  priority: it has 16 bytes, touches no outer tag, and its bit fields read back as the requested
  match and treatment; a flow that matches no VLAN ("present" only) filters nothing, removes no
  tag and never copies the priority from a missing inner tag.\<close>

theorem translationRule_fields:
  assumes "unat matchVlan < 8192" and "unat setVlan < 8192" and "unat setPcp < 16"
    and "w = snd (NewUniVlanConfigFsm cc uni tp e incr matchVlan setVlan setPcp)"
  shows "length (translationRule w) = 16 \<and>
    rule_filter 0 (translationRule w) = (15, 4096, 0) \<and>
    rule_filter 4 (translationRule w) = (if unat matchVlan = 4096 then 15 else 8, unat matchVlan, 0) \<and>
    rule_treat 8 (translationRule w) = (if unat matchVlan = 4096 then 0 else 1, 15, 0, 0) \<and>
    rule_treat 12 (translationRule w) =
      (0, if unat matchVlan = 4096 \<and> unat setPcp = 8 then 0 else unat setPcp, unat setVlan, 4)"
  by (rule translationRule_bits [OF assms])

theorem translationRule_fields_witness:
  "rule_filter 4 (translationRule (snd (NewUniVlanConfigFsm example_cc example_uni 64 OmciVlanFilterDone True 100 200 3)))
     = (8, 100, 0)"
  using translationRule_fields [OF _ _ _ refl, of 100 200 3 example_cc example_uni 64 OmciVlanFilterDone True] by simp

text \<open>C29: without the incremental option a non-transparent flow is configured by exactly three
  requests: the TPIDs, then a rule that tags untagged frames with the configured VID and priority
  0, then one that replaces the tag of priority-tagged frames, keeping their priority; a
  transparent flow by the TPIDs and a rule that leaves single-tagged frames as they are.\<close>

theorem stacking_rules:
  assumes "unat setVlan < 8192"
    and "w = snd (NewUniVlanConfigFsm cc uni tp e False matchVlan setVlan setPcp)"
  shows "evtocdEntries w =
      (if unat setVlan = 4096 then [tpidParams w, ruleParams w transparentRule]
       else [tpidParams w, ruleParams w (untaggedRule w), ruleParams w (priotaggedRule w)]) \<and>
    rule_filter 4 transparentRule = (14, 4096, 0) \<and> rule_treat 8 transparentRule = (0, 15, 0, 0) \<and>
    rule_treat 12 transparentRule = (0, 15, 0, 4) \<and>
    rule_filter 4 (untaggedRule w) = (15, 4096, 0) \<and> rule_treat 8 (untaggedRule w) = (0, 15, 0, 0) \<and>
    rule_treat 12 (untaggedRule w) = (0, 0, unat setVlan, 4) \<and>
    rule_filter 4 (priotaggedRule w) = (8, 0, 0) \<and> rule_treat 8 (priotaggedRule w) = (1, 15, 0, 0) \<and>
    rule_treat 12 (priotaggedRule w) = (0, 8, unat setVlan, 4)"
proof -
  have w: "v_setVid w = ucast setVlan" "\<not> v_acceptIncrementalEvto w"
    by (simp_all add: assms(2) NewUniVlanConfigFsm_def Let_def)
  have t: "transparentRule = evtocdRule noOuterFilter (filterWord 14 4096 0 0) (noOuterTag 0)
      (push_bit 16 15 OR push_bit 3 0 OR push_bit 0 cSetOutputTpidCopyDei)"
    by (simp add: transparentRule_def vlan_consts)
  have u: "untaggedRule w = evtocdRule noOuterFilter (filterWord 15 4096 0 0) (noOuterTag 0)
      (push_bit 16 0 OR push_bit 3 (v_setVid w) OR push_bit 0 cSetOutputTpidCopyDei)"
    by (simp only: untaggedRule_def vlan_consts)
  have p: "priotaggedRule w = evtocdRule noOuterFilter (filterWord 8 0 0 0) (noOuterTag 1)
      (push_bit 16 8 OR push_bit 3 (v_setVid w) OR push_bit 0 cSetOutputTpidCopyDei)"
    by (simp only: priotaggedRule_def vlan_consts)
  have "evtocdEntries w =
      (if unat setVlan = 4096 then [tpidParams w, ruleParams w transparentRule]
       else [tpidParams w, ruleParams w (untaggedRule w), ruleParams w (priotaggedRule w)])"
    by (simp add: evtocdEntries_def w ucast_u16_eq_4096 OFPVID_PRESENT_def)
  moreover have "rule_filter 4 transparentRule = (14, 4096, 0)" "rule_treat 8 transparentRule = (0, 15, 0, 0)"
    "rule_treat 12 transparentRule = (0, 15, 0, 4)"
    unfolding t by (subst rule_fields; simp)+
  moreover have "rule_filter 4 (untaggedRule w) = (15, 4096, 0)" "rule_treat 8 (untaggedRule w) = (0, 15, 0, 0)"
    "rule_treat 12 (untaggedRule w) = (0, 0, unat setVlan, 4)"
    unfolding u using assms(1) by (subst rule_fields; simp add: w)+
  moreover have "rule_filter 4 (priotaggedRule w) = (8, 0, 0)" "rule_treat 8 (priotaggedRule w) = (1, 15, 0, 0)"
    "rule_treat 12 (priotaggedRule w) = (0, 8, unat setVlan, 4)"
    unfolding p using assms(1) by (subst rule_fields; simp add: w)+
  ultimately show ?thesis by blast
qed

theorem stacking_rules_witness:
  "length (evtocdEntries (snd (NewUniVlanConfigFsm example_cc example_uni 64 OmciVlanFilterDone False 4096 200 0))) = 3"
  using stacking_rules [OF _ refl, of 200 example_cc example_uni 64 OmciVlanFilterDone 4096 0] by simp

text \<open>The rule loop reports the configuration done exactly when every request it has to make
  (two or three) is acknowledged positively, and resets the machine otherwise; it makes no request
  after the first that is not acknowledged.\<close>

lemma performConfigEvtocdEntries_outcome:
  "let n = (if v_setVid w = OFPVID_PRESENT \<or> v_acceptIncrementalEvto w then 2 else 3) in
   fst (performConfigEvtocdEntries lib ws (vlanStConfigEvtocd, w)) =
     (if n \<le> length ws \<and> list_all (\<lambda>x. fst x = WaitSuccess) (take n ws)
      then vlanStConfigDone else vlanStResetting) \<and>
   length (fst (snd (sendAndWait (evtocdSenders lib w) ws (v_cc w)))) = min n (Suc (waits_ok ws))"
proof -
  let ?ss = "evtocdSenders lib w"
  obtain b ms cc where r: "sendAndWait ?ss ws (v_cc w) = (b, ms, cc)"
    by (cases "sendAndWait ?ss ws (v_cc w)")
  have n: "length ?ss = (if v_setVid w = OFPVID_PRESENT \<or> v_acceptIncrementalEvto w then 2 else 3)"
    by (simp add: evtocdSenders_def evtocdEntries_def)
  have "fst (performConfigEvtocdEntries lib ws (vlanStConfigEvtocd, w)) =
      next_state vlanEvents (if fst (sendAndWait ?ss ws (v_cc w)) then vlanEvRxConfigEvtocd else vlanEvReset)
        vlanStConfigEvtocd"
    by (auto simp: performConfigEvtocdEntries_def r fireVlan_outcome next_state_def split: option.splits)
  then show ?thesis
    using evtocd_phase.phase_outcome [of ?ss ws "v_cc w"] sendAndWait_count [of ?ss ws "v_cc w"]
    by (simp add: evtocd_phase.phase_event_def n Let_def)
qed

text \<open>The requests themselves, when the library refuses none.\<close>

lemma evtocd_instances:
  assumes "\<And>rq. lib_encodes lib rq" and "\<And>rq. lib_serializes lib rq" and "\<And>c p. lib_accepts lib c p"
  shows "fst (snd (sendAndWait (evtocdSenders lib w) ws (v_cc w))) =
    map (\<lambda>p. Some \<lparr>meClass = ExtendedVlanTaggingOperationConfigurationDataClassID,
                     meEntity = EntityID p, meAttrs = Attributes p\<rparr>)
      (take (Suc (waits_ok ws)) (evtocdEntries w))"
proof -
  let ?me = "\<lambda>p. \<lparr>meClass = ExtendedVlanTaggingOperationConfigurationDataClassID,
    meEntity = EntityID p, meAttrs = Attributes p\<rparr>"
  have "list_all2 sends_instance (evtocdSenders lib w) (map ?me (evtocdEntries w))"
    unfolding evtocdSenders_def list_all2_map1 list_all2_map2
    by (rule list.rel_refl_strong)
      (use assms sendMe_sends_instance in \<open>auto simp: sends_instance_def sendSetEvtocdVar_def\<close>)
  from sendAndWait_instances [OF this] show ?thesis by (simp add: take_map o_def)
qed

text \<open>The executions of a VLAN machine.\<close>

definition vlan_reach ::
    "omciLib \<Rightarrow> vlanState \<times> uniVlanConfigFsm \<Rightarrow> vlanState \<times> uniVlanConfigFsm \<Rightarrow> bool" where
  "vlan_reach lib = served_reach vlanEvents (vlan_enter lib) (handleOmciVlanConfigMessage lib)
     (vlanWorks lib) vlanExternal"

lemma vlan_new_account: "vlan_served.account 0 (NewUniVlanConfigFsm cc uni tp e incr m sv pcp)"
  by (simp add: NewUniVlanConfigFsm_def Let_def vlan_served.account_idle)

text \<open>C11: in every interleaving of its goroutines, responses and requests a VLAN machine that is
  active is served by exactly one goroutine more than there are unread abort messages, and an idle
  or resetting one by exactly as many; a machine in the resetting state has its restart pending.\<close>

theorem vlan_machine_served:
  assumes "vlan_reach lib (NewUniVlanConfigFsm cc uni tp e incr m sv pcp) (st, w)"
  shows "loops w = aborts w + (if st = vlanStDisabled \<or> st = vlanStResetting then 0 else 1) \<and>
    (st = vlanStResetting \<longrightarrow> GoEvent vlanEvRestart \<in> set (w_tasks w))"
  using vlan_served.served [OF _ vlan_new_account, of lib _ _ _ _ _ _ _ _ "(st, w)"]
    vlan_served.account_reach [OF _ vlan_new_account, of lib _ _ _ _ _ _ _ _ "(st, w)"] assms
    count_notin [of "GoEvent vlanEvRestart" "w_tasks w"]
  by (fastforce simp: vlan_reach_def vlan_served.account_def restarts_def)

theorem vlan_machine_served_witness:
  "loops (snd (fireVlan permissive_lib vlanEvStart
     (NewUniVlanConfigFsm example_cc example_uni 64 OmciVlanFilterDone True 4096 200 0))) = 1"
proof -
  let ?n = "NewUniVlanConfigFsm example_cc example_uni 64 OmciVlanFilterDone True 4096 200 0"
  let ?s = "fireVlan permissive_lib vlanEvStart ?n"
  have "vlan_reach permissive_lib ?n ?s"
    unfolding vlan_reach_def fireVlan_def
    by (rule sr_step [OF sr_init st_external]) (simp add: vlanExternal_def)
  then have "vlan_reach permissive_lib ?n (fst ?s, snd ?s)" by simp
  note vlan_machine_served [OF this]
  then show ?thesis
    by (simp add: NewUniVlanConfigFsm_def Let_def fireVlan_outcome vlan_table
        enterConfigStarting_def accounting)
qed

text \<open>A response to a request that could not be composed ends the process: the machine
  remembers the missing instance as nil and the handler of the next positive response
  dereferences it.\<close>

lemma vlan_nil_instance_panics:
  assumes "pLastTxMeInstance (v_cc w) = None"
  shows "handleOmciVlanConfigMessage lib hdr packet (st, w) =
     (if hdrMessageType hdr = CreateResponseType \<and> createOk packet \<noteq> None \<or>
         hdrMessageType hdr = SetResponseType \<and> setOk packet \<noteq> None
      then Panic NilDeref else Done (st, w))"
  using assms by (auto simp: handleOmciVlanConfigMessage_def panic_simps msg_types split: option.splits)

lemma vlan_nil_instance_panics_witness:
  "handleOmciVlanConfigMessage permissive_lib
     \<lparr>TransactionID = 1, hdrMessageType = SetResponseType, DeviceIdentifier = 10, hdrPayload = []\<rparr>
     (Some (SetResponse 171 513 me_Success))
     (NewUniVlanConfigFsm example_cc example_uni 64 OmciVlanFilterDone True 4096 200 0)
   = Panic NilDeref"
proof -
  let ?n = "NewUniVlanConfigFsm example_cc example_uni 64 OmciVlanFilterDone True 4096 200 0"
  have "pLastTxMeInstance (v_cc (snd ?n)) = None"
    by (simp add: NewUniVlanConfigFsm_def Let_def newOmciCC_def example_cc_def)
  from vlan_nil_instance_panics [OF this, of permissive_lib
      "\<lparr>TransactionID = 1, hdrMessageType = SetResponseType, DeviceIdentifier = 10, hdrPayload = []\<rparr>"
      "Some (SetResponse 171 513 me_Success)" "fst ?n"]
  show ?thesis by (simp add: setOk_def)
qed

end
