(* ===== verification/Tech_Prof.thy ===== *)
theory Tech_Prof
  imports Platform "HOL-Library.AList"
begin

text \<open>
  The tech profiles of the UNI ports of an ONU (\<open>onu_uni_tp.go\<close>): the paths of the
  profiles and their persistence, the reading of a profile into the configuration of T-CONT
  and GEM ports, the completion state, and the steps of \<open>configureUniTp\<close>.

  The key value store and the JSON codec are parameters: what a read returns, and whether a
  write succeeds. The channels of the processing steps are unbuffered, so goroutines that
  have not been received from wait in the order of their sends.
\<close>

section \<open>Data\<close>

record tTechProfileIndication =
  techProfileType :: string
  techProfileID :: u16
  techProfileConfigDone :: bool

record tcontParamStruct =
  allocID :: u16
  schedPolicy :: u8

record gemPortParamStruct =
  gemPortID :: u16
  gem_direction :: u8
  gemPortEncState :: u8
  prioQueueIndex :: u8
  pbitString :: string
  discardPolicy :: string
  queueSchedPolicy :: string
  queueWeight :: u8

record tcontGemList =
  tcontParams :: tcontParamStruct
  mapGemPortParams :: "(u16 \<times> gemPortParamStruct) list"

text \<open>The configuration of a UNI is a map with the single T-CONT index 0.\<close>

type_synonym tMapPonAniConfig = "u16 \<rightharpoonup> tcontGemList"

record onuPersistentData =
  PersOnuID :: u32
  PersIntfID :: u32
  PersSnr :: string
  PersAdminState :: string
  PersOperState :: string
  PersUniTpPath :: "(u32 \<times> string) list"

datatype tp_error = KVStoreNotSet | UniNotFound | TechProfileReadIssue | AniSideConfigFailed
  | NoTcontGemData | NoAniSideData | PersistentDataNotWritten | UnableToUnmarshal | NoTpDataFound
  | UnableToReadKV | UnableToDeleteKV

record onuUniTechProf =
  mapUniTpPath :: "(u32 \<times> string) list"
  sOnuPersistentData :: onuPersistentData
  hasTechProfileKVStore :: bool
  hasOnuKVStore :: bool
  chTpConfigProcessingStep :: "u8 list"
  chTpKvProcessingStep :: "u8 list"
  mapUniTpIndication :: "u8 \<rightharpoonup> tTechProfileIndication"
  mapPonAniConfig :: "u8 \<rightharpoonup> tMapPonAniConfig"
  procResult :: "tp_error option"

definition emptyPersistentData :: onuPersistentData where
  "emptyPersistentData = \<lparr>PersOnuID = 0, PersIntfID = 0, PersSnr = [], PersAdminState = [],
     PersOperState = [], PersUniTpPath = []\<rparr>"

definition newOnuUniTechProf :: "bool \<Rightarrow> bool \<Rightarrow> onuUniTechProf" where
  "newOnuUniTechProf tpStore onuStore =
     \<lparr>mapUniTpPath = [], sOnuPersistentData = emptyPersistentData\<lparr>PersUniTpPath := [(0, [])]\<rparr>,
      hasTechProfileKVStore = tpStore, hasOnuKVStore = onuStore, chTpConfigProcessingStep = [],
      chTpKvProcessingStep = [], mapUniTpIndication = Map.empty, mapPonAniConfig = Map.empty,
      procResult = None\<rparr>"

definition resetProcessingErrorIndication :: "onuUniTechProf \<Rightarrow> onuUniTechProf" where
  "resetProcessingErrorIndication tp = tp\<lparr>procResult := None\<rparr>"

section \<open>Paths\<close>

definition updateOnuUniTpPath :: "u32 \<Rightarrow> string \<Rightarrow> onuUniTechProf \<Rightarrow> bool \<times> onuUniTechProf" where
  "updateOnuUniTpPath aUniID aPathString tp =
     (case map_of (mapUniTpPath tp) aUniID of
        Some existingPath \<Rightarrow>
          if existingPath \<noteq> aPathString then
            (if aPathString = [] then
               (True, tp\<lparr>mapUniTpPath := AList.delete aUniID (mapUniTpPath tp)\<rparr>)
             else (True, tp\<lparr>mapUniTpPath := AList.update aUniID aPathString (mapUniTpPath tp)\<rparr>))
          else (False, tp)
      | None \<Rightarrow>
          if aPathString = [] then (False, tp)
          else (True, tp\<lparr>mapUniTpPath := AList.update aUniID aPathString (mapUniTpPath tp)\<rparr>))"

section \<open>Persistence\<close>

text \<open>
  The store of one ONU: nothing, the encoding of persistent data, or bytes that are not.
  \<open>put\<close> and \<open>marshal\<close> may fail.
\<close>

datatype 'b kv_read = KvError | KvNothing | KvBytes 'b

definition storePersistentData ::
    "(onuPersistentData \<Rightarrow> 'b option) \<Rightarrow> ('b \<Rightarrow> bool) \<Rightarrow> u32 \<times> u32 \<times> string \<Rightarrow> u8 \<Rightarrow>
     onuUniTechProf \<times> 'b kv_read \<Rightarrow> onuUniTechProf \<times> 'b kv_read" where
  "storePersistentData marshal putOk ids aProcessingStep s =
     (let (tp, kv) = s;
          (onuId, intfId, snr) = ids;
          d = \<lparr>PersOnuID = onuId, PersIntfID = intfId, PersSnr = snr, PersAdminState = ''up'',
               PersOperState = ''active'', PersUniTpPath = mapUniTpPath tp\<rparr>;
          tp' = tp\<lparr>sOnuPersistentData := d\<rparr>;
          signal = (\<lambda>step. tp'\<lparr>chTpKvProcessingStep := chTpKvProcessingStep tp' @ [step]\<rparr>)
      in (case marshal d of
            None \<Rightarrow> (signal 0, kv)
          | Some v \<Rightarrow> if putOk v then (signal aProcessingStep, KvBytes v) else (signal 0, kv)))"

definition restorePersistentData ::
    "('b \<Rightarrow> onuPersistentData option) \<Rightarrow> 'b kv_read \<Rightarrow> onuUniTechProf \<Rightarrow> tp_error option \<times> onuUniTechProf" where
  "restorePersistentData unmarshal kv tp =
     (let tp' = tp\<lparr>mapUniTpPath := [], sOnuPersistentData := emptyPersistentData\<rparr> in
      (case kv of
         KvError \<Rightarrow> (Some UnableToReadKV, tp')
       | KvNothing \<Rightarrow> (Some NoTpDataFound, tp')
       | KvBytes v \<Rightarrow>
           (case unmarshal v of
              None \<Rightarrow> (Some UnableToUnmarshal, tp')
            | Some d \<Rightarrow>
                (None, tp'\<lparr>sOnuPersistentData := d,
                           mapUniTpPath := fold (\<lambda>(u, p). AList.update u p) (PersUniTpPath d) []\<rparr>))))"

definition deletePersistentData :: "bool \<Rightarrow> 'b kv_read \<Rightarrow> tp_error option \<times> 'b kv_read" where
  "deletePersistentData ok kv = (if ok then (None, KvNothing) else (Some UnableToDeleteKV, kv))"

definition restoreFromOnuTpPathKvStore ::
    "('b \<Rightarrow> onuPersistentData option) \<Rightarrow> 'b kv_read \<Rightarrow> onuUniTechProf \<Rightarrow> tp_error option \<times> onuUniTechProf" where
  "restoreFromOnuTpPathKvStore unmarshal kv tp =
     (if \<not> hasOnuKVStore tp then (Some KVStoreNotSet, tp) else restorePersistentData unmarshal kv tp)"

definition deleteOnuTpPathKvStore :: "bool \<Rightarrow> onuUniTechProf \<Rightarrow> 'b kv_read \<Rightarrow> tp_error option \<times> 'b kv_read" where
  "deleteOnuTpPathKvStore ok tp kv =
     (if \<not> hasOnuKVStore tp then (Some KVStoreNotSet, kv) else deletePersistentData ok kv)"

section \<open>Waiting for a processing step\<close>

text \<open>
  \<open>waitForTimeoutOrCompletion\<close>: either the context is done first, or the longest waiting
  sender is received. With no sender the wait can only end with the context.
\<close>

fun waitForTimeoutOrCompletion :: "bool \<Rightarrow> u8 list \<Rightarrow> u8 \<Rightarrow> bool \<times> u8 list" where
  "waitForTimeoutOrCompletion timedOut [] aProcessingStep = (False, [])"
| "waitForTimeoutOrCompletion timedOut (rxStep # ch) aProcessingStep =
     (if timedOut then (False, rxStep # ch) else (rxStep = aProcessingStep, ch))"

definition updateOnuTpPathKvStore ::
    "(onuPersistentData \<Rightarrow> 'b option) \<Rightarrow> ('b \<Rightarrow> bool) \<Rightarrow> u32 \<times> u32 \<times> string \<Rightarrow> bool \<Rightarrow>
     onuUniTechProf \<times> 'b kv_read \<Rightarrow> onuUniTechProf \<times> 'b kv_read" where
  "updateOnuTpPathKvStore marshal putOk ids timedOut s =
     (if \<not> hasOnuKVStore (fst s) then ((fst s)\<lparr>procResult := Some KVStoreNotSet\<rparr>, snd s)
      else
        (let (tp, kv) = storePersistentData marshal putOk ids 1 s;
             (ok, ch) = waitForTimeoutOrCompletion timedOut (chTpKvProcessingStep tp) 1;
             tp' = tp\<lparr>chTpKvProcessingStep := ch\<rparr>
         in (if ok then tp' else tp'\<lparr>procResult := Some PersistentDataNotWritten\<rparr>, kv)))"

section \<open>Reading a tech profile\<close>

record iGemPortAttribute =
  GemportID :: u32
  PbitMap :: string
  AesEncryption :: string
  SchedulingPolicy :: string
  PriorityQueue :: u32
  Weight :: u32
  DiscardPolicy :: string

record TechProfile =
  NumGemPorts :: u32
  UsAllocID :: u32
  UsQSchedPolicy :: string
  UpstreamGemPortAttributeList :: "iGemPortAttribute list"
  DownstreamGemPortAttributeList :: "iGemPortAttribute list"

definition binaryStringPrefix :: string where "binaryStringPrefix = ''0b''"

definition gemOf :: "iGemPortAttribute \<Rightarrow> gemPortParamStruct" where
  "gemOf content =
     \<lparr>gemPortID = ucast (GemportID content), gem_direction = 3,
      gemPortEncState = (if AesEncryption content = ''True'' then 1 else 0),
      prioQueueIndex = ucast (PriorityQueue content),
      pbitString = TrimPrefix (PbitMap content) binaryStringPrefix,
      discardPolicy = DiscardPolicy content, queueSchedPolicy = SchedulingPolicy content,
      queueWeight = ucast (Weight content)\<rparr>"

text \<open>
  The loop over the upstream GEM ports: it ends at the number of ports the profile claims,
  and gives up on a priority queue above 7. The result is \<open>None\<close> for the rejection.
\<close>

fun readGemPorts :: "u32 \<Rightarrow> nat \<Rightarrow> iGemPortAttribute list \<Rightarrow> (u16 \<times> gemPortParamStruct) list \<Rightarrow>
    (u16 \<times> gemPortParamStruct) list option" where
  "readGemPorts n pos [] m = Some m"
| "readGemPorts n pos (content # cs) m =
     (if of_nat pos = n then Some m
      else if 7 < PriorityQueue content then None
      else readGemPorts n (Suc pos) cs (AList.update (of_nat pos) (gemOf content) m))"

definition emptyGem :: gemPortParamStruct where
  "emptyGem = \<lparr>gemPortID = 0, gem_direction = 0, gemPortEncState = 0, prioQueueIndex = 0,
     pbitString = [], discardPolicy = [], queueSchedPolicy = [], queueWeight = 0\<rparr>"

datatype 'b tp_read = TpReadError | TpNothing | TpBadJson | TpProfile 'b

definition signalStep :: "u8 \<Rightarrow> onuUniTechProf \<Rightarrow> onuUniTechProf" where
  "signalStep step tp = tp\<lparr>chTpConfigProcessingStep := chTpConfigProcessingStep tp @ [step]\<rparr>"

definition setIndication :: "u8 \<Rightarrow> tTechProfileIndication \<Rightarrow> onuUniTechProf \<Rightarrow> onuUniTechProf" where
  "setIndication u i tp = tp\<lparr>mapUniTpIndication := (mapUniTpIndication tp)(u \<mapsto> i)\<rparr>"

definition setAniConfig :: "u8 \<Rightarrow> tMapPonAniConfig option \<Rightarrow> onuUniTechProf \<Rightarrow> onuUniTechProf" where
  "setAniConfig u c tp = tp\<lparr>mapPonAniConfig := (mapPonAniConfig tp)(u := c)\<rparr>"

text \<open>The configuration a profile describes, and the final log loop, which reads UNI 0.\<close>

definition buildAniConfig :: "u8 \<Rightarrow> u8 \<Rightarrow> TechProfile \<Rightarrow> onuUniTechProf \<Rightarrow> onuUniTechProf outcome" where
  "buildAniConfig aUniID aProcessingStep tpInst tp =
     (case readGemPorts (NumGemPorts tpInst) 0 (UpstreamGemPortAttributeList tpInst) [(0, emptyGem)] of
        None \<Rightarrow> Done (signalStep 0 (setAniConfig aUniID None tp))
      | Some gems \<Rightarrow>
          if UpstreamGemPortAttributeList tpInst = [] \<or> NumGemPorts tpInst = 0 then
            Done (signalStep 0 (setAniConfig aUniID None tp))
          else
            (let params = \<lparr>allocID = ucast (UsAllocID tpInst),
                           schedPolicy = (if UsQSchedPolicy tpInst = ''StrictPrio'' then 1 else 2)\<rparr>;
                 tp' = setAniConfig aUniID
                   (Some [0 \<mapsto> \<lparr>tcontParams = params, mapGemPortParams = gems\<rparr>]) tp
             in bind_outcome (deref (mapPonAniConfig tp' 0))
                  (\<lambda>c. bind_outcome (deref (c 0)) (\<lambda>_. Done (signalStep aProcessingStep tp')))))"

definition readAniSideConfigFromTechProfile ::
    "(string \<Rightarrow> TechProfile tp_read) \<Rightarrow> u8 \<Rightarrow> string \<Rightarrow> u8 \<Rightarrow> onuUniTechProf \<Rightarrow> onuUniTechProf outcome" where
  "readAniSideConfigFromTechProfile kvGet aUniID aPathString aProcessingStep tp =
     (let subStringSlice = go_split (CHR ''/'') aPathString in
      if length subStringSlice \<le> 2 then Done (signalStep 0 tp)
      else
        (let (ind, tp1) =
               (case mapUniTpIndication tp aUniID of
                  Some i \<Rightarrow> (i, setAniConfig aUniID None tp)
                | None \<Rightarrow> (\<lparr>techProfileType = [], techProfileID = 0, techProfileConfigDone = False\<rparr>, tp));
             ind1 = ind\<lparr>techProfileType := subStringSlice ! 0\<rparr>
         in (case ParseUint (subStringSlice ! 1) 10 32 of
               None \<Rightarrow> Done (signalStep 0 (setIndication aUniID ind1 tp1))
             | Some profID \<Rightarrow>
                 (let tp2 = setIndication aUniID (ind1\<lparr>techProfileID := of_nat profID\<rparr>) tp1 in
                  (case kvGet aPathString of
                     TpReadError \<Rightarrow> Done (signalStep 0 tp2)
                   | TpNothing \<Rightarrow> Done (signalStep 0 tp2)
                   | TpBadJson \<Rightarrow> Done (signalStep 0 tp2)
                   | TpProfile tpInst \<Rightarrow>
                       bind_outcome (go_index (DownstreamGemPortAttributeList tpInst) 0)
                         (\<lambda>_. buildAniConfig aUniID aProcessingStep tpInst tp2))))))"

section \<open>Completion\<close>

definition setConfigDone :: "u8 \<Rightarrow> bool \<Rightarrow> onuUniTechProf \<Rightarrow> onuUniTechProf" where
  "setConfigDone aUniID aState tp =
     (case mapUniTpIndication tp aUniID of
        Some i \<Rightarrow> setIndication aUniID (i\<lparr>techProfileConfigDone := aState\<rparr>) tp
      | None \<Rightarrow> tp)"

definition getTechProfileDone :: "u8 \<Rightarrow> u16 \<Rightarrow> onuUniTechProf \<Rightarrow> bool" where
  "getTechProfileDone aUniID aTpID tp =
     (case mapUniTpIndication tp aUniID of
        Some i \<Rightarrow> techProfileID i = aTpID \<and> techProfileConfigDone i
      | None \<Rightarrow> False)"

section \<open>Configuring a UNI\<close>

text \<open>
  \<open>configureUniTp\<close>. \<open>late1\<close> and \<open>late2\<close> say whether the context is done before the
  respective step is received; \<open>setAni\<close> is what the ANI configuration machine has done to
  this state by then, \<open>resetAni\<close> the reset of that machine after a failure.
\<close>

definition receiveStep :: "bool \<Rightarrow> u8 \<Rightarrow> onuUniTechProf \<Rightarrow> bool \<times> onuUniTechProf" where
  "receiveStep late step tp =
     (case waitForTimeoutOrCompletion late (chTpConfigProcessingStep tp) step of
        (ok, ch) \<Rightarrow> (ok, tp\<lparr>chTpConfigProcessingStep := ch\<rparr>))"

definition configureUniTp ::
    "(string \<Rightarrow> TechProfile tp_read) \<Rightarrow> u8 list \<Rightarrow> (u8 \<Rightarrow> onuUniTechProf \<Rightarrow> onuUniTechProf) \<Rightarrow>
     (onuUniTechProf \<Rightarrow> onuUniTechProf) \<Rightarrow> bool \<Rightarrow> bool \<Rightarrow> u8 \<Rightarrow> string \<Rightarrow> onuUniTechProf \<Rightarrow> onuUniTechProf outcome" where
  "configureUniTp kvGet uniIDs setAni resetAni late1 late2 aUniID aPathString tp =
     (if \<not> hasTechProfileKVStore tp then Done (tp\<lparr>procResult := Some KVStoreNotSet\<rparr>)
      else if aUniID \<notin> set uniIDs then Done (tp\<lparr>procResult := Some UniNotFound\<rparr>)
      else
        bind_outcome (readAniSideConfigFromTechProfile kvGet aUniID aPathString 1 tp)
          (\<lambda>tp1.
             (case receiveStep late1 1 tp1 of
                (False, tp2) \<Rightarrow> Done (tp2\<lparr>procResult := Some TechProfileReadIssue\<rparr>)
              | (True, tp2) \<Rightarrow>
                  (case mapPonAniConfig tp2 aUniID of
                     None \<Rightarrow> Done (tp2\<lparr>procResult := Some NoAniSideData\<rparr>)
                   | Some valuePA \<Rightarrow>
                       (case valuePA 0 of
                          None \<Rightarrow> Done (tp2\<lparr>procResult := Some NoTcontGemData\<rparr>)
                        | Some _ \<Rightarrow>
                            (case receiveStep late2 2 (setAni 2 tp2) of
                               (True, tp3) \<Rightarrow> Done tp3
                             | (False, tp3) \<Rightarrow>
                                 Done (resetAni (tp3\<lparr>procResult := Some AniSideConfigFailed\<rparr>))))))))"

section \<open>Lemmas\<close>

definition paths_wf :: "onuUniTechProf \<Rightarrow> bool" where
  "paths_wf tp \<longleftrightarrow> distinct (map fst (mapUniTpPath tp)) \<and> [] \<notin> snd ` set (mapUniTpPath tp)"

lemma paths_wf_new [simp]: "paths_wf (newOnuUniTechProf a b)"
  by (simp add: paths_wf_def newOnuUniTechProf_def)

lemma set_update_subset': "set (AList.update k v m) \<subseteq> insert (k, v) (set m)"
  by (induction m) auto

lemma set_delete_subset: "set (AList.delete k m) \<subseteq> set m"
  by (auto simp: AList.delete_eq)

lemma paths_wf_updateOnuUniTpPath:
  assumes "paths_wf tp" shows "paths_wf (snd (updateOnuUniTpPath u p tp))"
  using assms set_update_subset' [of u p "mapUniTpPath tp"] set_delete_subset [of u "mapUniTpPath tp"]
  by (auto simp: paths_wf_def updateOnuUniTpPath_def distinct_update distinct_delete
      split: option.splits)






lemma setAniConfig_simps [simp]:
  "mapPonAniConfig (setAniConfig u c tp) = (mapPonAniConfig tp)(u := c)"
  "mapUniTpIndication (setAniConfig u c tp) = mapUniTpIndication tp"
  "chTpConfigProcessingStep (setAniConfig u c tp) = chTpConfigProcessingStep tp"
  by (simp_all add: setAniConfig_def)

lemma setIndication_simps [simp]:
  "mapPonAniConfig (setIndication u i tp) = mapPonAniConfig tp"
  "mapUniTpIndication (setIndication u i tp) = (mapUniTpIndication tp)(u \<mapsto> i)"
  "chTpConfigProcessingStep (setIndication u i tp) = chTpConfigProcessingStep tp"
  by (simp_all add: setIndication_def)

lemma signalStep_simps [simp]:
  "mapPonAniConfig (signalStep step tp) = mapPonAniConfig tp"
  "mapUniTpIndication (signalStep step tp) = mapUniTpIndication tp"
  "chTpConfigProcessingStep (signalStep step tp) = chTpConfigProcessingStep tp @ [step]"
  by (simp_all add: signalStep_def)



section \<open>Properties\<close>

text \<open>Updating the tech profile path of a UNI reports a change exactly when there is one, sets
  or, for an empty path, removes this entry and no other, and keeps the path map well formed.\<close>

lemma updateOnuUniTpPath_exact:
  assumes "paths_wf tp"
  shows "(fst (updateOnuUniTpPath u p tp) \<longleftrightarrow>
      map_of (mapUniTpPath tp) u \<noteq> (if p = [] then None else Some p)) \<and>
    map_of (mapUniTpPath (snd (updateOnuUniTpPath u p tp))) =
      (map_of (mapUniTpPath tp))(u := if p = [] then None else Some p) \<and>
    paths_wf (snd (updateOnuUniTpPath u p tp))"
proof -
  have "map_of (mapUniTpPath tp) u \<noteq> Some []"
    using assms by (force simp: paths_wf_def dest: map_of_SomeD)
  moreover have "map_of (AList.delete u m) = (map_of m)(u := None)" for m :: "(u32 \<times> string) list"
    by (simp add: delete_conv')
  ultimately show ?thesis
    using paths_wf_updateOnuUniTpPath [OF assms, of u p]
    by (auto simp: updateOnuUniTpPath_def update_conv' split: option.splits)
qed

lemma updateOnuUniTpPath_exact_witness:
  "fst (updateOnuUniTpPath 1 ''XGS/64/uni'' (newOnuUniTechProf True True)) \<and>
   map_of (mapUniTpPath (snd (updateOnuUniTpPath 1 ''XGS/64/uni'' (newOnuUniTechProf True True)))) 1 =
     Some ''XGS/64/uni''"
  using updateOnuUniTpPath_exact [OF paths_wf_new, of 1 "''XGS/64/uni''" True True]
  by (simp add: newOnuUniTechProf_def)


definition example_tp :: onuUniTechProf where
  "example_tp = snd (updateOnuUniTpPath 0 ''XGS/64/uni'' (newOnuUniTechProf True True))"



definition example_gem :: iGemPortAttribute where
  "example_gem = \<lparr>GemportID = 1024, PbitMap = ''0b11111111'', AesEncryption = ''True'',
     SchedulingPolicy = ''WRR'', PriorityQueue = 3, Weight = 10, DiscardPolicy = []\<rparr>"

definition example_profile :: TechProfile where
  "example_profile = \<lparr>NumGemPorts = 1, UsAllocID = 1024, UsQSchedPolicy = ''StrictPrio'',
     UpstreamGemPortAttributeList = [example_gem], DownstreamGemPortAttributeList = [example_gem]\<rparr>"

lemma example_path: "go_split (CHR ''/'') ''XGS/64/uni'' = [''XGS'', ''64'', ''uni'']"
  by simp

lemma example_parse: "ParseUint ''64'' 10 32 = Some 64"
  by (simp add: ParseUint_def char_digit_def Let_def)


text \<open>The tech profile of a UNI other than UNI 0 can only be used once UNI 0 has one: otherwise
  reading a perfectly valid profile panics, in a loop that only writes the log.\<close>

lemma readAniSideConfig_needs_uni_0:
  assumes "mapPonAniConfig tp 0 = None" and "u \<noteq> 0"
    and "2 < length (go_split (CHR ''/'') path)"
    and "ParseUint (go_split (CHR ''/'') path ! 1) 10 32 \<noteq> None"
    and "kvGet path = TpProfile tpInst" and "DownstreamGemPortAttributeList tpInst \<noteq> []"
    and "readGemPorts (NumGemPorts tpInst) 0 (UpstreamGemPortAttributeList tpInst) [(0, emptyGem)] \<noteq> None"
    and "UpstreamGemPortAttributeList tpInst \<noteq> []" and "NumGemPorts tpInst \<noteq> 0"
  shows "readAniSideConfigFromTechProfile kvGet u path step tp = Panic NilDeref"
  using assms
  by (auto simp: readAniSideConfigFromTechProfile_def buildAniConfig_def Let_def split: option.splits)

lemma readAniSideConfig_needs_uni_0_witness:
  "readAniSideConfigFromTechProfile (\<lambda>_. TpProfile example_profile) 1 ''XGS/64/uni'' 1 example_tp = Panic NilDeref"
  by (rule readAniSideConfig_needs_uni_0 [where tpInst = example_profile])
    (simp_all add: example_tp_def updateOnuUniTpPath_def newOnuUniTechProf_def example_parse
      example_profile_def example_gem_def)

text \<open>A tech profile counts as done exactly when the machine has finished for the UNI since the
  profile was read, and only for the identifier that was read; other UNIs are not affected.\<close>

lemma getTechProfileDone_setConfigDone:
  "getTechProfileDone u tpid (setConfigDone u' b tp) =
     (if u = u' then b \<and> (\<exists>i. mapUniTpIndication tp u = Some i \<and> techProfileID i = tpid)
      else getTechProfileDone u tpid tp)"
  by (auto simp: getTechProfileDone_def setConfigDone_def split: option.splits)

text \<open>An abandoned step is taken for the next one: when the context of a configuration ends
  before the profile is read, the late step stays in the channel, and the configuration of
  another UNI accepts it at once as its own.\<close>

lemma stale_step_accepted:
  assumes "chTpConfigProcessingStep tp = []" and "step \<noteq> 0"
    and "readAniSideConfigFromTechProfile kvGet u path step tp = Done tp1"
    and "chTpConfigProcessingStep tp1 = [step]"
    and "receiveStep True step tp1 = (ok1, tp2)"
  shows "\<not> ok1 \<and> fst (receiveStep False step tp2)"
  using assms by (auto simp: receiveStep_def)

lemma stale_step_accepted_witness:
  "\<exists>tp1. fst (receiveStep False 1 (snd (receiveStep True 1 tp1))) \<and>
    readAniSideConfigFromTechProfile (\<lambda>_. TpProfile example_profile) 0 ''XGS/64/uni'' 1 example_tp = Done tp1"
proof -
  let ?r = "readAniSideConfigFromTechProfile (\<lambda>_. TpProfile example_profile) 0 ''XGS/64/uni'' 1 example_tp"
  have m: "mapUniTpIndication example_tp = Map.empty" "mapPonAniConfig example_tp = Map.empty"
    "chTpConfigProcessingStep example_tp = []"
    by (simp_all add: example_tp_def updateOnuUniTpPath_def newOnuUniTechProf_def)
  obtain tp' where r: "?r = Done tp'" and ch: "chTpConfigProcessingStep tp' = [1]"
    by (simp add: readAniSideConfigFromTechProfile_def example_parse m example_profile_def
        buildAniConfig_def example_gem_def Let_def)
  from stale_step_accepted [OF m(3) _ r ch, of "fst (receiveStep True 1 tp')" "snd (receiveStep True 1 tp')"]
  show ?thesis using r by auto
qed

end
