(* ===== verification/Ani_Config.thy ===== *)
theory Ani_Config
  imports Served_Fsm Tech_Prof "HOL-Library.Multiset"
begin

text \<open>
  The configuration of the ANI side for one UNI (\<open>omci_ani_config.go\<close>): the state machine of
  \<open>newUniPonAniConfigFsm\<close>, the evaluation of the tech profile against the MIB data base, the
  loops over GEM ports and priority queues, and the assignment of priorities to GEM ports in
  the 802.1p mapper; and the start of the machine by the tech profile (\<open>onu_uni_tp.go\<close>).

  A panic in a callback ends the process; \<open>a_crash\<close> keeps it.
\<close>

section \<open>The machine\<close>

datatype aniEvent = aniEvStart | aniEvStartConfig | aniEvRxDot1pmapCResp | aniEvRxMbpcdResp
  | aniEvRxTcontsResp | aniEvRxGemntcpsResp | aniEvRxGemiwsResp | aniEvRxPrioqsResp
  | aniEvRxDot1pmapSResp | aniEvTimeoutSimple | aniEvTimeoutMids | aniEvReset | aniEvRestart

datatype aniState = aniStDisabled | aniStStarting | aniStCreatingDot1PMapper | aniStCreatingMBPCD
  | aniStSettingTconts | aniStCreatingGemNCTPs | aniStCreatingGemIWs | aniStSettingPQs
  | aniStSettingDot1PMapper | aniStConfigDone | aniStResetting

definition aniEvents :: "(aniEvent, aniState) EventDesc list" where
  "aniEvents =
     [ev aniEvStart [aniStDisabled] aniStStarting,
      ev aniEvStartConfig [aniStStarting] aniStCreatingDot1PMapper,
      ev aniEvRxDot1pmapCResp [aniStCreatingDot1PMapper] aniStCreatingMBPCD,
      ev aniEvRxMbpcdResp [aniStCreatingMBPCD] aniStSettingTconts,
      ev aniEvRxTcontsResp [aniStSettingTconts] aniStCreatingGemNCTPs,
      ev aniEvRxGemntcpsResp [aniStCreatingGemNCTPs] aniStCreatingGemIWs,
      ev aniEvRxGemiwsResp [aniStCreatingGemIWs] aniStSettingPQs,
      ev aniEvRxPrioqsResp [aniStSettingPQs] aniStSettingDot1PMapper,
      ev aniEvRxDot1pmapSResp [aniStSettingDot1PMapper] aniStConfigDone,
      ev aniEvTimeoutSimple [aniStCreatingDot1PMapper, aniStCreatingMBPCD, aniStSettingTconts,
        aniStSettingDot1PMapper] aniStStarting,
      ev aniEvTimeoutMids [aniStCreatingGemNCTPs, aniStCreatingGemIWs, aniStSettingPQs] aniStStarting,
      ev aniEvReset [aniStStarting, aniStCreatingDot1PMapper, aniStCreatingMBPCD, aniStSettingTconts,
        aniStCreatingGemNCTPs, aniStCreatingGemIWs, aniStSettingPQs, aniStSettingDot1PMapper,
        aniStConfigDone] aniStResetting,
      ev aniEvRestart [aniStResetting] aniStDisabled]"

datatype aniWork = PrepareConfig | CreatingGemNCTPs | CreatingGemIWs | SettingPQs
  | VerifyUniVlanConfig

record ponAniGemPortAttribs =
  g_gemPortID :: u16
  g_upQueueID :: u16
  g_downQueueID :: u16
  g_direction :: u8
  g_qosPolicy :: string
  g_weight :: u8
  g_pbitString :: string

record uniPonAniConfigFsm = "(aniEvent, aniWork) fsmWorld" +
  a_cc :: omciCC
  a_uni :: onuUniPort
  a_tp :: onuUniTechProf
  a_db :: onuDeviceDB
  a_techProfileID :: u16
  a_requestEvent :: OnuDeviceEvent
  a_responses :: "bool list"
  a_aniConfigCompleted :: bool
  a_procStep :: u8
  a_chanSet :: bool
  a_mapperSP0ID :: u16
  a_macBPCD0ID :: u16
  a_tcont0ID :: u16
  a_alloc0ID :: u16
  a_gemPortAttribs :: "ponAniGemPortAttribs list"
  a_notified :: "OnuDeviceEvent list"
  a_vlanVerified :: nat
  a_crash :: "panic option"

definition newUniPonAniConfigFsm ::
    "omciCC \<Rightarrow> onuUniPort \<Rightarrow> onuUniTechProf \<Rightarrow> onuDeviceDB \<Rightarrow> u16 \<Rightarrow> OnuDeviceEvent \<Rightarrow> aniState \<times> uniPonAniConfigFsm" where
  "newUniPonAniConfigFsm cc apUniPort apUniTechProf apOnuDB aTechProfileID aRequestEvent =
     (aniStDisabled,
      \<lparr>w_comm = [], w_tasks = [], a_cc = cc, a_uni = apUniPort, a_tp = apUniTechProf, a_db = apOnuDB,
       a_techProfileID = aTechProfileID, a_requestEvent = aRequestEvent, a_responses = [],
       a_aniConfigCompleted = False, a_procStep = 0, a_chanSet = False, a_mapperSP0ID = 0,
       a_macBPCD0ID = 0, a_tcont0ID = 0, a_alloc0ID = 0, a_gemPortAttribs = [], a_notified = [],
       a_vlanVerified = 0, a_crash = None\<rparr>)"

definition setFsmCompleteChannel :: "u8 \<Rightarrow> uniPonAniConfigFsm \<Rightarrow> uniPonAniConfigFsm" where
  "setFsmCompleteChannel aProcStep w = w\<lparr>a_procStep := aProcStep, a_chanSet := True\<rparr>"

section \<open>From the tech profile to managed entities\<close>

text \<open>
  The search for the upstream and the downstream queue of a GEM port among the queues of the
  data base. The state holds the two queue identifiers found so far and whether each has been
  found for this port; the search ends when both have.
\<close>

fun findQueues :: "(rat \<Rightarrow> u32) \<Rightarrow> onuDeviceDB \<Rightarrow> u32 \<Rightarrow> u32 \<Rightarrow> u16 list \<Rightarrow> u16 \<times> u16 \<Rightarrow> bool \<times> bool \<Rightarrow>
    (u16 \<times> u16) outcome" where
  "findQueues f2u db usMask dsMask [] qs found = Done qs"
| "findQueues f2u db usMask dsMask (key # keys) (up, down) (usFound, dsFound) =
     (case GetMe db PriorityQueueClassID key of
        None \<Rightarrow> findQueues f2u db usMask dsMask keys (up, down) (usFound, dsFound)
      | Some meAttributes \<Rightarrow>
          (let returnVal = attr_at meAttributes ''RelatedPort'' in
           if returnVal = ANil then findQueues f2u db usMask dsMask keys (up, down) (usFound, dsFound)
           else
             bind_outcome (getUint32Attrib f2u returnVal)
               (\<lambda>r. case r of
                  Inl _ \<Rightarrow> findQueues f2u db usMask dsMask keys (up, down) (usFound, dsFound)
                | Inr relatedPort \<Rightarrow>
                    (let isUp = (relatedPort = usMask);
                         isDown = (\<not> isUp \<and> (relatedPort AND 0xFFFFFF) = dsMask \<and> key < 0x8000);
                         up' = (if isUp then key else up); down' = (if isDown then key else down)
                     in if (usFound \<or> isUp) \<and> (dsFound \<or> isDown) then Done (up', down')
                        else findQueues f2u db usMask dsMask keys (up', down')
                               (usFound \<or> isUp, dsFound \<or> isDown)))))"

definition usQrelPortMask :: "u16 \<Rightarrow> u8 \<Rightarrow> u32" where
  "usQrelPortMask tcont prio = push_bit 16 (ucast tcont) + ucast prio"

definition dsQrelPortMask :: "u8 \<Rightarrow> u8 \<Rightarrow> u32" where
  "dsQrelPortMask uni prio = push_bit 16 (ucast (uni + 1)) + ucast prio"

text \<open>
  One turn of the loop over the GEM ports. The attributes are collected in one variable that
  outlives the turn: without a queue in the data base the port identifier, and without a
  matching queue the queue identifiers, are those of the port before.
\<close>

definition gemAttribs ::
    "(rat \<Rightarrow> u32) \<Rightarrow> onuDeviceDB \<Rightarrow> u16 \<Rightarrow> u8 \<Rightarrow> gemPortParamStruct \<Rightarrow> ponAniGemPortAttribs \<Rightarrow> ponAniGemPortAttribs outcome" where
  "gemAttribs f2u db tcont uni gemEntry lo =
     (let keys = getSortedInstKeys db PriorityQueueClassID in
      bind_outcome
        (if keys = [] then Done lo
         else
           bind_outcome
             (findQueues f2u db (usQrelPortMask tcont (prioQueueIndex gemEntry))
                (dsQrelPortMask uni (prioQueueIndex gemEntry)) keys
                (g_upQueueID lo, g_downQueueID lo) (False, False))
             (\<lambda>(up, down). Done (lo\<lparr>g_gemPortID := gemPortID gemEntry, g_upQueueID := up,
                                   g_downQueueID := down\<rparr>)))
        (\<lambda>lo. Done (lo\<lparr>g_direction := gem_direction gemEntry, g_qosPolicy := queueSchedPolicy gemEntry,
                       g_weight := queueWeight gemEntry, g_pbitString := pbitString gemEntry\<rparr>)))"

fun collectGems ::
    "(rat \<Rightarrow> u32) \<Rightarrow> onuDeviceDB \<Rightarrow> u16 \<Rightarrow> u8 \<Rightarrow> gemPortParamStruct list \<Rightarrow> ponAniGemPortAttribs \<Rightarrow> ponAniGemPortAttribs list outcome" where
  "collectGems f2u db tcont uni [] lo = Done []"
| "collectGems f2u db tcont uni (g # gs) lo =
     bind_outcome (gemAttribs f2u db tcont uni g lo)
       (\<lambda>lo'. bind_outcome (collectGems f2u db tcont uni gs lo') (\<lambda>rest. Done (lo' # rest)))"

definition noGem :: ponAniGemPortAttribs where
  "noGem = \<lparr>g_gemPortID = 0, g_upQueueID = 0, g_downQueueID = 0, g_direction = 0, g_qosPolicy = [],
     g_weight = 0, g_pbitString = []\<rparr>"

text \<open>
  \<open>prepareAndEnterConfigState\<close> before its event. Go ranges over a map in any order: \<open>range_gems\<close>
  brings the GEM ports of the T-CONT into the order of this run.
\<close>

definition prepareConfig ::
    "(rat \<Rightarrow> u32) \<Rightarrow> ((u16 \<times> gemPortParamStruct) list \<Rightarrow> gemPortParamStruct list) \<Rightarrow> uniPonAniConfigFsm \<Rightarrow> uniPonAniConfigFsm outcome" where
  "prepareConfig f2u range_gems w =
     (let mapperSP0ID = ieeeMapperServiceProfileEID + ucast (macBpNo (a_uni w)) + a_techProfileID w;
          macBPCD0ID = macBridgePortAniEID + entityID (a_uni w) + a_techProfileID w;
          tcont0ID = (case getSortedInstKeys (a_db w) TContClassID of [] \<Rightarrow> a_tcont0ID w | k # _ \<Rightarrow> k)
      in bind_outcome (deref (mapPonAniConfig (a_tp w) (uniID (a_uni w))))
           (\<lambda>c. bind_outcome (deref (c 0))
              (\<lambda>t. bind_outcome (collectGems f2u (a_db w) tcont0ID (uniID (a_uni w))
                        (range_gems (mapGemPortParams t)) noGem)
                 (\<lambda>gems. Done (w\<lparr>a_mapperSP0ID := mapperSP0ID, a_macBPCD0ID := macBPCD0ID,
                    a_tcont0ID := tcont0ID, a_alloc0ID := allocID (tcontParams t),
                    a_gemPortAttribs := a_gemPortAttribs w @ gems\<rparr>)))))"

section \<open>Callbacks\<close>

definition enterConfigStartingState :: "uniPonAniConfigFsm \<Rightarrow> uniPonAniConfigFsm" where
  "enterConfigStartingState w =
     go [GoMessages, GoWork PrepareConfig] (w\<lparr>a_responses := [], a_gemPortAttribs := []\<rparr>)"

text \<open>A request whose instance becomes the last transmitted one.\<close>

definition transmit :: "sender \<Rightarrow> uniPonAniConfigFsm \<Rightarrow> uniPonAniConfigFsm" where
  "transmit s w =
     (case s (a_cc w) of (meInstance, cc) \<Rightarrow> w\<lparr>a_cc := cc\<lparr>pLastTxMeInstance := meInstance\<rparr>\<rparr>)"

definition enterCreatingDot1PMapper :: "omciLib \<Rightarrow> uniPonAniConfigFsm \<Rightarrow> uniPonAniConfigFsm" where
  "enterCreatingDot1PMapper lib w =
     transmit (sendCreateDot1PMapper lib ConstDefaultOmciTimeout True (a_mapperSP0ID w) ChAni) w"

definition mbpcdParams :: "uniPonAniConfigFsm \<Rightarrow> ParamData" where
  "mbpcdParams w =
     \<lparr>EntityID = a_macBPCD0ID w,
      Attributes =
        [(''BridgeIdPointer'', AU16 (macBridgeServiceProfileEID + ucast (macBpNo (a_uni w)))),
         (''PortNum'', AInt 0xFF), (''TpType'', AInt 3), (''TpPointer'', AU16 (a_mapperSP0ID w))]\<rparr>"

definition enterCreatingMBPCD :: "omciLib \<Rightarrow> uniPonAniConfigFsm \<Rightarrow> uniPonAniConfigFsm" where
  "enterCreatingMBPCD lib w =
     transmit (sendCreateMBPConfigDataVar lib ConstDefaultOmciTimeout True ChAni (mbpcdParams w)) w"

definition tcontSetParams :: "uniPonAniConfigFsm \<Rightarrow> ParamData" where
  "tcontSetParams w = \<lparr>EntityID = a_tcont0ID w, Attributes = [(''AllocId'', AU16 (a_alloc0ID w))]\<rparr>"

definition enterSettingTconts :: "omciLib \<Rightarrow> uniPonAniConfigFsm \<Rightarrow> uniPonAniConfigFsm" where
  "enterSettingTconts lib w =
     transmit (sendSetTcontVar lib ConstDefaultOmciTimeout True ChAni (tcontSetParams w)) w"

definition enterCreatingGemNCTPs :: "uniPonAniConfigFsm \<Rightarrow> uniPonAniConfigFsm" where
  "enterCreatingGemNCTPs w = go [GoWork CreatingGemNCTPs] w"

definition enterCreatingGemIWs :: "uniPonAniConfigFsm \<Rightarrow> uniPonAniConfigFsm" where
  "enterCreatingGemIWs w = go [GoWork CreatingGemIWs] w"

definition enterSettingPQs :: "uniPonAniConfigFsm \<Rightarrow> uniPonAniConfigFsm" where
  "enterSettingPQs w = go [GoWork SettingPQs] w"

text \<open>
  The 802.1p mapper. The priority map of a GEM port is a string of eight binary digits, most
  significant first; the array assigns to each priority a GEM port, the first one that claims
  it. A shorter string is indexed out of range.
\<close>

definition pbitStep :: "ponAniGemPortAttribs \<Rightarrow> nat \<Rightarrow> u16 list \<Rightarrow> u16 list outcome" where
  "pbitStep g i arr =
     bind_outcome (go_index (g_pbitString g) (7 - i))
       (\<lambda>c. Done (if char_digit c = Some 1 \<and> arr ! i = 0 then arr[i := g_gemPortID g] else arr))"

definition prioGemPortArray :: "ponAniGemPortAttribs list \<Rightarrow> u16 list outcome" where
  "prioGemPortArray gems =
     fold_outcome (\<lambda>g. fold_outcome (pbitStep g) [0..<8]) gems (replicate 8 0)"

definition pbitAttribute :: "nat \<Rightarrow> string" where
  "pbitAttribute i = ''InterworkTpPointerForPBitPriority'' @ format_nat i"

definition mapperParams :: "uniPonAniConfigFsm \<Rightarrow> u16 list \<Rightarrow> ParamData" where
  "mapperParams w arr =
     \<lparr>EntityID = a_mapperSP0ID w,
      Attributes = map (\<lambda>i. (pbitAttribute i, AU16 (arr ! i))) (filter (\<lambda>i. arr ! i \<noteq> 0) [0..<8])\<rparr>"

definition enterSettingDot1PMapper :: "omciLib \<Rightarrow> uniPonAniConfigFsm \<Rightarrow> uniPonAniConfigFsm outcome" where
  "enterSettingDot1PMapper lib w =
     bind_outcome (prioGemPortArray (a_gemPortAttribs w))
       (\<lambda>arr.
          (let meParams = mapperParams w arr;
               w' = (if Attributes meParams = [] then go [GoEvent aniEvReset] w else w)
           in Done (transmit (sendSetDot1PMapperVar lib ConstDefaultOmciTimeout True ChAni meParams) w')))"

definition enterAniConfigDone :: "uniPonAniConfigFsm \<Rightarrow> uniPonAniConfigFsm" where
  "enterAniConfigDone w = go [GoEvent aniEvReset] (w\<lparr>a_aniConfigCompleted := True\<rparr>)"

definition enterResettingState_ani :: "uniPonAniConfigFsm \<Rightarrow> uniPonAniConfigFsm" where
  "enterResettingState_ani w = go [GoEvent aniEvRestart] (post fsmAbortMsg w)"

definition notifyCompleted :: "uniPonAniConfigFsm \<Rightarrow> uniPonAniConfigFsm" where
  "notifyCompleted w =
     (if a_aniConfigCompleted w then
        w\<lparr>a_notified := a_notified w @ [a_requestEvent w], a_aniConfigCompleted := False\<rparr>
      else w)"

definition enterDisabledState_ani :: "uniPonAniConfigFsm \<Rightarrow> uniPonAniConfigFsm" where
  "enterDisabledState_ani w =
     (let w1 = notifyCompleted w;
          tp = setConfigDone (uniID (a_uni w1)) True (a_tp w1)
      in go [GoWork VerifyUniVlanConfig]
           (if a_chanSet w1 then w1\<lparr>a_tp := signalStep (a_procStep w1) tp, a_chanSet := False\<rparr>
            else w1\<lparr>a_tp := tp\<rparr>))"

definition crashed :: "(uniPonAniConfigFsm \<Rightarrow> uniPonAniConfigFsm outcome) \<Rightarrow> uniPonAniConfigFsm \<Rightarrow> uniPonAniConfigFsm" where
  "crashed f w = (case f w of Done w' \<Rightarrow> w' | Panic p \<Rightarrow> w\<lparr>a_crash := Some p\<rparr>)"

fun ani_enter :: "omciLib \<Rightarrow> aniState \<Rightarrow> uniPonAniConfigFsm \<Rightarrow> uniPonAniConfigFsm" where
  "ani_enter lib aniStStarting w = enterConfigStartingState w"
| "ani_enter lib aniStCreatingDot1PMapper w = enterCreatingDot1PMapper lib w"
| "ani_enter lib aniStCreatingMBPCD w = enterCreatingMBPCD lib w"
| "ani_enter lib aniStSettingTconts w = enterSettingTconts lib w"
| "ani_enter lib aniStCreatingGemNCTPs w = enterCreatingGemNCTPs w"
| "ani_enter lib aniStCreatingGemIWs w = enterCreatingGemIWs w"
| "ani_enter lib aniStSettingPQs w = enterSettingPQs w"
| "ani_enter lib aniStSettingDot1PMapper w = crashed (enterSettingDot1PMapper lib) w"
| "ani_enter lib aniStConfigDone w = enterAniConfigDone w"
| "ani_enter lib aniStResetting w = enterResettingState_ani w"
| "ani_enter lib aniStDisabled w = enterDisabledState_ani w"

definition fireAni :: "omciLib \<Rightarrow> aniEvent \<Rightarrow> aniState \<times> uniPonAniConfigFsm \<Rightarrow> aniState \<times> uniPonAniConfigFsm" where
  "fireAni lib e s = runEvent aniEvents (ani_enter lib) e s"

definition prepareAndEnterConfigState ::
    "omciLib \<Rightarrow> (rat \<Rightarrow> u32) \<Rightarrow> ((u16 \<times> gemPortParamStruct) list \<Rightarrow> gemPortParamStruct list) \<Rightarrow>
     aniState \<times> uniPonAniConfigFsm \<Rightarrow> (aniState \<times> uniPonAniConfigFsm) outcome" where
  "prepareAndEnterConfigState lib f2u range_gems s =
     bind_outcome (prepareConfig f2u range_gems (snd s)) (\<lambda>w. Done (fireAni lib aniEvStartConfig (fst s, w)))"

section \<open>Responses\<close>

definition handleOmciAniConfigCreateResponseMessage ::
    "omciLib \<Rightarrow> rxPacket \<Rightarrow> aniState \<times> uniPonAniConfigFsm \<Rightarrow> (aniState \<times> uniPonAniConfigFsm) outcome" where
  "handleOmciAniConfigCreateResponseMessage lib packet s =
     (case createOk packet of
        None \<Rightarrow> Done s
      | Some (c, e) \<Rightarrow>
          bind_outcome (matchLastTx (pLastTxMeInstance (a_cc (snd s))) c e)
            (\<lambda>r. case r of
               None \<Rightarrow> Done s
             | Some n \<Rightarrow>
                 if n = ''Ieee8021PMapperServiceProfile'' then Done (fireAni lib aniEvRxDot1pmapCResp s)
                 else if n = ''MacBridgePortConfigurationData'' then Done (fireAni lib aniEvRxMbpcdResp s)
                 else if n = ''GemPortNetworkCtp'' \<or> n = ''GemInterworkingTerminationPoint'' then
                   Done (fst s, (snd s)\<lparr>a_responses := a_responses (snd s) @ [True]\<rparr>)
                 else Done s))"

definition handleOmciAniConfigSetResponseMessage ::
    "omciLib \<Rightarrow> rxPacket \<Rightarrow> aniState \<times> uniPonAniConfigFsm \<Rightarrow> (aniState \<times> uniPonAniConfigFsm) outcome" where
  "handleOmciAniConfigSetResponseMessage lib packet s =
     (case setOk packet of
        None \<Rightarrow> Done s
      | Some (c, e) \<Rightarrow>
          bind_outcome (matchLastTx (pLastTxMeInstance (a_cc (snd s))) c e)
            (\<lambda>r. case r of
               None \<Rightarrow> Done s
             | Some n \<Rightarrow>
                 if n = ''TCont'' then Done (fireAni lib aniEvRxTcontsResp s)
                 else if n = ''PriorityQueue'' then
                   Done (fst s, (snd s)\<lparr>a_responses := a_responses (snd s) @ [True]\<rparr>)
                 else if n = ''Ieee8021PMapperServiceProfile'' then Done (fireAni lib aniEvRxDot1pmapSResp s)
                 else Done s))"

definition handleOmciAniConfigMessage ::
    "omciLib \<Rightarrow> omciHeader \<Rightarrow> rxPacket \<Rightarrow> aniState \<times> uniPonAniConfigFsm \<Rightarrow> (aniState \<times> uniPonAniConfigFsm) outcome" where
  "handleOmciAniConfigMessage lib hdr packet s =
     (if hdrMessageType hdr = CreateResponseType then handleOmciAniConfigCreateResponseMessage lib packet s
      else if hdrMessageType hdr = SetResponseType then handleOmciAniConfigSetResponseMessage lib packet s
      else Done s)"

definition processOmciAniMessages ::
    "omciLib \<Rightarrow> aniState \<times> uniPonAniConfigFsm \<Rightarrow> (aniState \<times> uniPonAniConfigFsm) outcome" where
  "processOmciAniMessages lib s = serveMessages (handleOmciAniConfigMessage lib) s"

section \<open>The loops over GEM ports and queues\<close>

definition gemNCTPParams :: "uniPonAniConfigFsm \<Rightarrow> ponAniGemPortAttribs \<Rightarrow> ParamData" where
  "gemNCTPParams w g =
     \<lparr>EntityID = g_gemPortID g,
      Attributes =
        [(''PortId'', AU16 (g_gemPortID g)), (''TContPointer'', AU16 (a_tcont0ID w)),
         (''Direction'', AU8 (g_direction g)),
         (''TrafficManagementPointerForUpstream'', AU16 (g_upQueueID g)),
         (''PriorityQueuePointerForDownStream'', AU16 (g_downQueueID g))]\<rparr>"

definition gemIWParams :: "uniPonAniConfigFsm \<Rightarrow> ponAniGemPortAttribs \<Rightarrow> ParamData" where
  "gemIWParams w g =
     \<lparr>EntityID = g_gemPortID g,
      Attributes =
        [(''GemPortNetworkCtpConnectivityPointer'', AU16 (g_gemPortID g)),
         (''InterworkingOption'', AInt 5), (''ServiceProfilePointer'', AU16 (a_mapperSP0ID w)),
         (''InterworkingTerminationPointPointer'', AInt 0), (''GalProfilePointer'', AU16 galEthernetEID)]\<rparr>"

text \<open>The queues to set, in the order of their first mention: 0xFFFF stands for strict priority.\<close>

definition cu16StrictPrioWeight :: u16 where "cu16StrictPrioWeight = 0xFFFF"

fun queueMap :: "ponAniGemPortAttribs list \<Rightarrow> (u16 \<times> u16) list \<Rightarrow> (u16 \<times> u16) list" where
  "queueMap [] m = m"
| "queueMap (g # gs) m =
     (if g_qosPolicy g = ''WRR'' then
        (if map_of m (g_upQueueID g) = None
         then queueMap gs (AList.update (g_upQueueID g) (ucast (g_weight g)) m)
         else queueMap gs m)
      else queueMap gs (AList.update (g_upQueueID g) cu16StrictPrioWeight m))"

definition loTrafficSchedulerEID :: int where "loTrafficSchedulerEID = 0x8000"

definition queueParams :: "u16 \<times> u16 \<Rightarrow> ParamData" where
  "queueParams kv =
     \<lparr>EntityID = fst kv,
      Attributes =
        (if snd kv = cu16StrictPrioWeight then [(''TrafficSchedulerPointer'', AInt 0)]
         else [(''TrafficSchedulerPointer'', AInt loTrafficSchedulerEID),
               (''Weight'', AU8 (ucast (snd kv)))])\<rparr>"

definition gemNCTPSenders :: "omciLib \<Rightarrow> uniPonAniConfigFsm \<Rightarrow> sender list" where
  "gemNCTPSenders lib w =
     map (\<lambda>g. sendCreateGemNCTPVar lib ConstDefaultOmciTimeout True ChAni (gemNCTPParams w g)) (a_gemPortAttribs w)"

definition gemIWSenders :: "omciLib \<Rightarrow> uniPonAniConfigFsm \<Rightarrow> sender list" where
  "gemIWSenders lib w =
     map (\<lambda>g. sendCreateGemIWTPVar lib ConstDefaultOmciTimeout True ChAni (gemIWParams w g)) (a_gemPortAttribs w)"

definition queueSenders :: "omciLib \<Rightarrow> uniPonAniConfigFsm \<Rightarrow> sender list" where
  "queueSenders lib w =
     map (\<lambda>kv. sendSetPrioQueueVar lib ConstDefaultOmciTimeout True ChAni (queueParams kv))
       (queueMap (a_gemPortAttribs w) [])"

text \<open>The common shape of the three loops: all instances, then the event of the phase.\<close>

definition performPhase ::
    "omciLib \<Rightarrow> sender list \<Rightarrow> aniEvent \<Rightarrow> wait list \<Rightarrow> aniState \<times> uniPonAniConfigFsm \<Rightarrow> aniState \<times> uniPonAniConfigFsm" where
  "performPhase lib ss evDone ws s =
     (case sendAndWait ss ws (a_cc (snd s)) of
        (success, _, cc) \<Rightarrow>
          fireAni lib (if success then evDone else aniEvReset) (fst s, (snd s)\<lparr>a_cc := cc\<rparr>))"

definition performCreatingGemNCTPs ::
    "omciLib \<Rightarrow> wait list \<Rightarrow> aniState \<times> uniPonAniConfigFsm \<Rightarrow> aniState \<times> uniPonAniConfigFsm" where
  "performCreatingGemNCTPs lib ws s = performPhase lib (gemNCTPSenders lib (snd s)) aniEvRxGemntcpsResp ws s"

definition performCreatingGemIWs ::
    "omciLib \<Rightarrow> wait list \<Rightarrow> aniState \<times> uniPonAniConfigFsm \<Rightarrow> aniState \<times> uniPonAniConfigFsm" where
  "performCreatingGemIWs lib ws s = performPhase lib (gemIWSenders lib (snd s)) aniEvRxGemiwsResp ws s"

definition performSettingPQs ::
    "omciLib \<Rightarrow> wait list \<Rightarrow> aniState \<times> uniPonAniConfigFsm \<Rightarrow> aniState \<times> uniPonAniConfigFsm" where
  "performSettingPQs lib ws s = performPhase lib (queueSenders lib (snd s)) aniEvRxPrioqsResp ws s"

inductive aniWorks ::
    "omciLib \<Rightarrow> aniWork \<Rightarrow> aniState \<times> uniPonAniConfigFsm \<Rightarrow> aniState \<times> uniPonAniConfigFsm \<Rightarrow> bool"
  for lib where
  prepare: "(\<And>gems. mset (range_gems gems) = mset (map snd gems)) \<Longrightarrow>
    prepareAndEnterConfigState lib f2u range_gems s = Done s' \<Longrightarrow> aniWorks lib PrepareConfig s s'"
| nctps: "aniWorks lib CreatingGemNCTPs s (performCreatingGemNCTPs lib ws s)"
| iws: "aniWorks lib CreatingGemIWs s (performCreatingGemIWs lib ws s)"
| pqs: "aniWorks lib SettingPQs s (performSettingPQs lib ws s)"
| verify_vlan: "aniWorks lib VerifyUniVlanConfig (st, w) (st, w\<lparr>a_vlanVerified := Suc (a_vlanVerified w)\<rparr>)"

inductive_cases aniWorksE: "aniWorks lib x s s'"

text \<open>The events the rest of the adapter fires.\<close>

definition aniExternal :: "aniEvent list" where
  "aniExternal = [aniEvStart, aniEvReset]"

section \<open>Started by the tech profile\<close>

text \<open>\<open>runAniConfigFsm\<close>; an idle machine is told the channel step before it is started.\<close>

definition runAniConfigFsm :: "omciLib \<Rightarrow> u8 \<Rightarrow> aniState \<times> uniPonAniConfigFsm \<Rightarrow> aniState \<times> uniPonAniConfigFsm" where
  "runAniConfigFsm lib aProcessingStep s =
     (if fst s = aniStDisabled then
        fireAni lib aniEvStart (fst s, setFsmCompleteChannel aProcessingStep (snd s))
      else s)"

text \<open>\<open>createAniConfigFsm\<close>: \<open>dev\<close> is the device entry, its channel and its data base.\<close>

definition createAniConfigFsm ::
    "omciLib \<Rightarrow> (omciCC \<times> onuDeviceDB) option \<Rightarrow> u8 \<Rightarrow> onuUniPort \<Rightarrow> OnuDeviceEvent \<Rightarrow> u8 \<Rightarrow> onuUniTechProf \<Rightarrow>
     (aniState \<times> uniPonAniConfigFsm) option outcome" where
  "createAniConfigFsm lib dev aUniID port devEvent aProcessingStep tp =
     (case dev of
        None \<Rightarrow> Done None
      | Some (cc, db) \<Rightarrow>
          bind_outcome (deref (mapUniTpIndication tp aUniID))
            (\<lambda>i. Done (Some (runAniConfigFsm lib aProcessingStep
                    (newUniPonAniConfigFsm cc port tp db (techProfileID i) devEvent)))))"

definition setAniSideConfigFromTechProfile ::
    "omciLib \<Rightarrow> (omciCC \<times> onuDeviceDB) option \<Rightarrow> u8 \<Rightarrow> onuUniPort \<Rightarrow> u8 \<Rightarrow> onuUniTechProf \<Rightarrow>
     (aniState \<times> uniPonAniConfigFsm) option \<Rightarrow> (aniState \<times> uniPonAniConfigFsm) option outcome" where
  "setAniSideConfigFromTechProfile lib dev aUniID port aProcessingStep tp pAniConfigFsm =
     (case pAniConfigFsm of
        None \<Rightarrow> createAniConfigFsm lib dev aUniID port OmciAniConfigDone aProcessingStep tp
      | Some (st, w) \<Rightarrow> Done (Some (runAniConfigFsm lib aProcessingStep (st, w\<lparr>a_tp := tp\<rparr>))))"

section \<open>Interpretations\<close>

lemmas ani_table = aniEvents_def NewFSM_def add_desc_def next_state_def

interpretation ani: resettable_fsm aniEvents aniEvReset aniEvRestart aniStDisabled aniStResetting
proof (unfold_locales, goal_cases)
  case (3 s)
  then show ?case by (cases s) (simp_all add: ani_table)
qed (simp_all add: ani_table fsm_keys_def)

interpretation gemNCTP_phase: config_phase aniEvents
    aniStCreatingGemNCTPs aniStCreatingGemIWs aniStResetting aniEvRxGemntcpsResp aniEvReset
  by unfold_locales (simp_all add: ani_table)

interpretation gemIW_phase: config_phase aniEvents
    aniStCreatingGemIWs aniStSettingPQs aniStResetting aniEvRxGemiwsResp aniEvReset
  by unfold_locales (simp_all add: ani_table)

interpretation queue_phase: config_phase aniEvents
    aniStSettingPQs aniStSettingDot1PMapper aniStResetting aniEvRxPrioqsResp aniEvReset
  by unfold_locales (simp_all add: ani_table)

text \<open>All events but the two timeouts, which nothing fires.\<close>

definition aniFired :: "aniEvent list" where
  "aniFired = [aniEvStart, aniEvStartConfig, aniEvRxDot1pmapCResp, aniEvRxMbpcdResp, aniEvRxTcontsResp,
     aniEvRxGemntcpsResp, aniEvRxGemiwsResp, aniEvRxPrioqsResp, aniEvRxDot1pmapSResp, aniEvReset,
     aniEvRestart]"

lemma fireAni_outcome:
  "fireAni lib e (st, w) =
     (case NewFSM aniEvents (e, st) of None \<Rightarrow> (st, w) | Some t \<Rightarrow> (t, ani_enter lib t w))"
  by (auto simp: fireAni_def runEvent_def ani.Event_outcome split: option.splits)

lemma transmit_accounting [simp]:
  "loops (transmit s w) = loops w" "restarts e (transmit s w) = restarts e w"
  "aborts (transmit s w) = aborts w" "events_among es (transmit s w) = events_among es w"
  by (simp_all add: transmit_def accounting split: prod.split)

lemma transmit_world [simp]:
  "w_comm (transmit s w) = w_comm w" "w_tasks (transmit s w) = w_tasks w" "a_tp (transmit s w) = a_tp w"
  "a_uni (transmit s w) = a_uni w"
  by (simp_all add: transmit_def split: prod.split)

lemma a_fields_accounting [simp]:
  "loops (w\<lparr>a_responses := r, a_gemPortAttribs := g\<rparr>) = loops w"
  "restarts e (w\<lparr>a_responses := r, a_gemPortAttribs := g\<rparr>) = restarts e w"
  "aborts (w\<lparr>a_responses := r, a_gemPortAttribs := g\<rparr>) = aborts w"
  "events_among es (w\<lparr>a_responses := r, a_gemPortAttribs := g\<rparr>) = events_among es w"
  "loops (w\<lparr>a_aniConfigCompleted := b\<rparr>) = loops w"
  "restarts e (w\<lparr>a_aniConfigCompleted := b\<rparr>) = restarts e w"
  "aborts (w\<lparr>a_aniConfigCompleted := b\<rparr>) = aborts w"
  "events_among es (w\<lparr>a_aniConfigCompleted := b\<rparr>) = events_among es w"
  by (simp_all add: accounting)

lemma dot1pMapper_accounting:
  "loops (crashed (enterSettingDot1PMapper lib) w) = loops w"
  "restarts aniEvRestart (crashed (enterSettingDot1PMapper lib) w) = restarts aniEvRestart w"
  "aborts (crashed (enterSettingDot1PMapper lib) w) = aborts w"
  "events_among aniFired w \<Longrightarrow> events_among aniFired (crashed (enterSettingDot1PMapper lib) w)"
  by (cases "prioGemPortArray (a_gemPortAttribs w)";
      simp add: crashed_def enterSettingDot1PMapper_def panic_simps Let_def;
      simp add: accounting aniFired_def)+

lemma disabled_accounting:
  "loops (enterDisabledState_ani w) = loops w"
  "restarts e (enterDisabledState_ani w) = restarts e w"
  "aborts (enterDisabledState_ani w) = aborts w"
  "events_among es w \<Longrightarrow> events_among es (enterDisabledState_ani w)"
  by (simp_all add: enterDisabledState_ani_def notifyCompleted_def Let_def)
    (simp_all add: accounting)

lemma ani_enter_accounting:
  "loops (ani_enter lib t w) = loops w + (if t = aniStStarting then 1 else 0)"
  "restarts aniEvRestart (ani_enter lib t w) = restarts aniEvRestart w + (if t = aniStResetting then 1 else 0)"
  "aborts (ani_enter lib t w) = aborts w + (if t = aniStResetting then 1 else 0)"
  "events_among aniFired w \<Longrightarrow> events_among aniFired (ani_enter lib t w)"
  by (cases t; simp add: enterConfigStartingState_def enterCreatingDot1PMapper_def enterCreatingMBPCD_def
      enterSettingTconts_def enterCreatingGemNCTPs_def enterCreatingGemIWs_def enterSettingPQs_def
      enterAniConfigDone_def enterResettingState_ani_def dot1pMapper_accounting disabled_accounting;
      simp add: aniFired_def)+

lemmas ani_handler_defs = handleOmciAniConfigMessage_def handleOmciAniConfigCreateResponseMessage_def
  handleOmciAniConfigSetResponseMessage_def

lemma ani_handler_local:
  "handleOmciAniConfigMessage lib hdr packet s = Done s' \<Longrightarrow>
   local_or_event aniEvents (ani_enter lib) aniFired aniEvRestart s s'"
  by (cases s)
    (auto simp: ani_handler_defs fireAni_def aniFired_def
      dest!: matchLastTx_bindD split: if_split_asm option.split_asm intro!: fsm_intros)

lemma prepareConfig_world:
  "prepareConfig f2u range_gems w = Done w' \<Longrightarrow> w_comm w' = w_comm w \<and> w_tasks w' = w_tasks w"
  by (auto simp: prepareConfig_def panic_simps Let_def)

lemma ani_work_local:
  "aniWorks lib x s s' \<Longrightarrow> local_or_event aniEvents (ani_enter lib) aniFired aniEvRestart s s'"
  by (cases s; erule aniWorksE)
    (auto simp: performCreatingGemNCTPs_def performCreatingGemIWs_def performSettingPQs_def performPhase_def
      prepareAndEnterConfigState_def fireAni_def panic_simps aniFired_def dest: prepareConfig_world
      split: prod.split intro!: fsm_intros)

interpretation ani_served: served_fsm aniEvents "ani_enter lib" "handleOmciAniConfigMessage lib"
    "aniWorks lib" aniExternal aniFired aniStDisabled aniStStarting aniStResetting aniEvRestart
  for lib
proof (unfold_locales, goal_cases)
  case (8 e)
  then show ?case by (auto simp: aniExternal_def aniFired_def)
next
  case (9 e s t)
  then show ?case by (cases e) (auto simp: ani_table aniFired_def split: if_splits)
qed (simp_all add: ani_enter_accounting ani_handler_local ani_work_local ani.restart_resetting)

section \<open>Queues\<close>

lemma queueMap_lookup:
  "map_of (queueMap gs m) q =
     (if list_ex (\<lambda>g. g_upQueueID g = q \<and> g_qosPolicy g \<noteq> ''WRR'') gs then Some cu16StrictPrioWeight
      else (case map_of m q of
              Some v \<Rightarrow> Some v
            | None \<Rightarrow> map_option (\<lambda>g. ucast (g_weight g)) (find (\<lambda>g. g_upQueueID g = q) gs)))"
  by (induction gs m rule: queueMap.induct) (auto simp: update_conv split: option.splits)

lemma queueMap_distinct: "distinct (map fst m) \<Longrightarrow> distinct (map fst (queueMap gs m))"
  by (induction gs m rule: queueMap.induct) (auto simp: distinct_update)

lemma weight_not_strict: "(ucast (b :: u8) :: u16) \<noteq> cu16StrictPrioWeight"
proof -
  have "unat (ucast b :: u16) < 256"
    using unat_u8_less [of b] by (simp add: unsigned_ucast_eq take_bit_nat_eq_self)
  then show ?thesis by (auto simp: cu16StrictPrioWeight_def)
qed

section \<open>Priorities\<close>

definition claims :: "nat \<Rightarrow> ponAniGemPortAttribs \<Rightarrow> bool" where
  "claims i g \<longleftrightarrow> g_pbitString g ! (7 - i) = CHR ''1''"

lemma char_digit_1: "char_digit c = Some (Suc 0) \<longleftrightarrow> c = CHR ''1''"
proof
  assume "char_digit c = Some (Suc 0)"
  then have "of_char c = (49 :: nat)" by (auto simp: char_digit_def Let_def split: if_splits)
  then have "of_char c = (of_char (CHR ''1'') :: nat)" by simp
  then show "c = CHR ''1''" by (simp only: of_char_eq_iff)
qed (simp add: char_digit_def)

definition claimStep :: "ponAniGemPortAttribs \<Rightarrow> nat \<Rightarrow> u16 list \<Rightarrow> u16 list" where
  "claimStep g i arr = (if claims i g \<and> arr ! i = 0 then arr[i := g_gemPortID g] else arr)"

lemma pbitStep_Done:
  "8 \<le> length (g_pbitString g) \<Longrightarrow> i < 8 \<Longrightarrow> pbitStep g i arr = Done (claimStep g i arr)"
  by (simp add: pbitStep_def claimStep_def claims_def char_digit_1 panic_simps)

lemma claimSteps_nth:
  assumes "distinct idx" and "\<And>i. i \<in> set idx \<Longrightarrow> i < length arr"
  shows "length (fold (claimStep g) idx arr) = length arr \<and>
    fold (claimStep g) idx arr ! j =
      (if j \<in> set idx \<and> claims j g \<and> arr ! j = 0 then g_gemPortID g else arr ! j)"
  using assms
proof (induction idx arbitrary: arr)
  case (Cons i idx)
  have "length (claimStep g i arr) = length arr" by (simp add: claimStep_def)
  with Cons show ?case
    by (auto simp: claimStep_def nth_list_update)
qed simp

lemma gemStep_Done:
  assumes "8 \<le> length (g_pbitString g)" and "length arr = 8"
  shows "\<exists>arr'. fold_outcome (pbitStep g) [0..<8] arr = Done arr' \<and> length arr' = 8 \<and>
    (\<forall>i < 8. arr' ! i = (if claims i g \<and> arr ! i = 0 then g_gemPortID g else arr ! i))"
proof -
  have "fold_outcome (pbitStep g) [0..<8] arr = Done (fold (claimStep g) [0..<8] arr)"
    by (rule fold_outcome_Done) (use assms in \<open>auto simp: pbitStep_Done\<close>)
  then show ?thesis
    using claimSteps_nth [of "[0..<8]" arr g] assms(2) by auto
qed

lemma gemSteps_Done:
  assumes "list_all (\<lambda>g. 8 \<le> length (g_pbitString g)) gems" and "length arr = 8"
  shows "\<exists>arr'. fold_outcome (\<lambda>g. fold_outcome (pbitStep g) [0..<8]) gems arr = Done arr' \<and> length arr' = 8 \<and>
    (\<forall>i < 8. arr' ! i = (if arr ! i \<noteq> 0 then arr ! i
       else case find (\<lambda>g. claims i g \<and> g_gemPortID g \<noteq> 0) gems of None \<Rightarrow> 0 | Some g \<Rightarrow> g_gemPortID g))"
  using assms
proof (induction gems arbitrary: arr)
  case (Cons g gems)
  from gemStep_Done [of g arr] Cons.prems obtain arr1 where
    1: "fold_outcome (pbitStep g) [0..<8] arr = Done arr1" "length arr1 = 8"
    "\<forall>i < 8. arr1 ! i = (if claims i g \<and> arr ! i = 0 then g_gemPortID g else arr ! i)"
    by auto
  from Cons.IH [OF _ 1(2)] Cons.prems obtain arr2 where
    2: "fold_outcome (\<lambda>g. fold_outcome (pbitStep g) [0..<8]) gems arr1 = Done arr2" "length arr2 = 8"
    "\<forall>i < 8. arr2 ! i = (if arr1 ! i \<noteq> 0 then arr1 ! i
       else case find (\<lambda>g. claims i g \<and> g_gemPortID g \<noteq> 0) gems of None \<Rightarrow> 0 | Some g \<Rightarrow> g_gemPortID g)"
    by auto
  show ?case
    by (rule exI [of _ arr2]) (simp add: panic_simps 1 2)
qed auto

lemma fold_outcome_first_panic:
  "f x s = Panic p \<Longrightarrow> fold_outcome f (x # xs) s = Panic p"
  by (simp add: panic_simps)

lemma pbitStep_0_panics:
  "length (g_pbitString g) < 8 \<Longrightarrow> fold_outcome (pbitStep g) [0..<8] arr = Panic IndexOutOfRange"
  by (simp add: upt_rec [of 0 8] pbitStep_def go_index_def panic_simps)

lemma gemSteps_Panic:
  assumes "\<not> list_all (\<lambda>g. 8 \<le> length (g_pbitString g)) gems" and "length arr = 8"
  shows "fold_outcome (\<lambda>g. fold_outcome (pbitStep g) [0..<8]) gems arr = Panic IndexOutOfRange"
  using assms
proof (induction gems arbitrary: arr)
  case (Cons g gems)
  show ?case
  proof (cases "8 \<le> length (g_pbitString g)")
    case True
    then obtain arr1 where "fold_outcome (pbitStep g) [0..<8] arr = Done arr1" "length arr1 = 8"
      using gemStep_Done [of g arr] Cons.prems by auto
    with Cons True show ?thesis by (simp add: panic_simps)
  next
    case False
    then show ?thesis by (simp add: pbitStep_0_panics panic_simps)
  qed
qed simp

section \<open>Queue lookup\<close>

text \<open>The port a queue is related to, as far as it can be read.\<close>

definition relatedPort :: "(rat \<Rightarrow> u32) \<Rightarrow> onuDeviceDB \<Rightarrow> u16 \<Rightarrow> u32 option" where
  "relatedPort f2u db key =
     (case GetMe db PriorityQueueClassID key of
        None \<Rightarrow> None
      | Some a \<Rightarrow>
          (case attr_at a ''RelatedPort'' of
             AFloat r \<Rightarrow> Some (float_to_uint32 f2u r)
           | AU32 v \<Rightarrow> Some v
           | _ \<Rightarrow> None))"

lemma findQueues_Cons:
  "findQueues f2u db us ds (key # keys) (up, down) (uf, df) =
     (case relatedPort f2u db key of
        None \<Rightarrow> findQueues f2u db us ds keys (up, down) (uf, df)
      | Some r \<Rightarrow>
          (let isUp = (r = us); isDown = (r \<noteq> us \<and> (r AND 0xFFFFFF) = ds \<and> key < 0x8000);
               qs = (if isUp then key else up, if isDown then key else down)
           in if (uf \<or> isUp) \<and> (df \<or> isDown) then Done qs
              else findQueues f2u db us ds keys qs (uf \<or> isUp, df \<or> isDown)))"
proof (cases "GetMe db PriorityQueueClassID key")
  case (Some a)
  then show ?thesis
    by (cases "attr_at a ''RelatedPort''")
      (simp_all only: relatedPort_def findQueues.simps(2) Let_def bind_outcome.simps getUint32Attrib.simps
        option.case sum.case attr_val.case attr_val.distinct simp_thms if_True if_False refl)
qed (simp only: relatedPort_def findQueues.simps(2) option.case)

declare findQueues.simps(2) [simp del]

lemma findQueues_keeps_up:
  "\<forall>k \<in> set keys. relatedPort f2u db k = Some us \<longrightarrow> k = up \<Longrightarrow>
   \<exists>down'. findQueues f2u db us ds keys (up, down) (uf, df) = Done (up, down')"
  by (induction keys arbitrary: down uf df)
    (auto simp: findQueues_Cons Let_def split: option.split)

lemma findQueues_up:
  assumes "\<forall>k \<in> set keys. relatedPort f2u db k = Some us \<longrightarrow> k = q"
    and "q \<in> set keys" and "relatedPort f2u db q = Some us"
  shows "\<exists>down'. findQueues f2u db us ds keys (up, down) (False, df) = Done (q, down')"
  using assms
proof (induction keys arbitrary: down df)
  case (Cons k keys)
  have rest: "\<forall>k \<in> set keys. relatedPort f2u db k = Some us \<longrightarrow> k = q"
    by (meson Cons.prems(1) list.set_intros(2))
  show ?case
  proof (cases "relatedPort f2u db k = Some us")
    case True
    then have "k = q" by (meson Cons.prems(1) list.set_intros(1))
    moreover note findQueues_keeps_up [OF rest]
    ultimately show ?thesis
      using True by (simp add: findQueues_Cons Let_def)
  next
    case False
    then have "k \<noteq> q" using Cons.prems(3) by metis
    with Cons.prems(2) have "q \<in> set keys" by simp
    from Cons.IH [OF rest this Cons.prems(3)] False show ?thesis
      by (cases "relatedPort f2u db k") (simp_all add: findQueues_Cons Let_def)
  qed
qed simp

section \<open>Properties\<close>

lemma performPhase_outcome:
  assumes "NewFSM aniEvents (evDone, st) = Some t" and "NewFSM aniEvents (aniEvReset, st) = Some aniStResetting"
  shows "fst (performPhase lib ss evDone ws (st, w)) =
    (if length ss \<le> length ws \<and> list_all (\<lambda>x. fst x = WaitSuccess) (take (length ss) ws)
     then t else aniStResetting)"
  using assms sendAndWait_success [of ss ws "a_cc w"]
  by (cases "sendAndWait ss ws (a_cc w)") (auto simp: performPhase_def fireAni_outcome)

text \<open>Each of the three loops of the ANI configuration leaves its state in exactly two ways: to
  the next state when every one of its instances (one per GEM port, one per GEM port, one per
  distinct upstream queue) is acknowledged positively, and to the resetting state otherwise.\<close>

lemma ani_loops_outcome:
  "let ok = (\<lambda>n. n \<le> length ws \<and> list_all (\<lambda>x. fst x = WaitSuccess) (take n ws));
       gems = length (a_gemPortAttribs w) in
   fst (performCreatingGemNCTPs lib ws (aniStCreatingGemNCTPs, w)) =
     (if ok gems then aniStCreatingGemIWs else aniStResetting) \<and>
   fst (performCreatingGemIWs lib ws (aniStCreatingGemIWs, w)) =
     (if ok gems then aniStSettingPQs else aniStResetting) \<and>
   fst (performSettingPQs lib ws (aniStSettingPQs, w)) =
     (if ok (length (queueMap (a_gemPortAttribs w) [])) then aniStSettingDot1PMapper else aniStResetting)"
  by (simp add: Let_def performCreatingGemNCTPs_def performCreatingGemIWs_def performSettingPQs_def
      performPhase_outcome gemNCTP_phase.done_phase gemNCTP_phase.reset_phase gemIW_phase.done_phase
      gemIW_phase.reset_phase queue_phase.done_phase queue_phase.reset_phase
      gemNCTPSenders_def gemIWSenders_def queueSenders_def)

text \<open>C33: every upstream queue is configured exactly once, independently of the order of the GEM
  ports as far as strict priority is concerned: strict as soon as one port on it is not weighted,
  otherwise with the weight of the first port on it; a weight is never mistaken for the marker of
  strict priority.\<close>

theorem queueMap_exact:
  "distinct (map fst (queueMap gems [])) \<and>
   map_of (queueMap gems []) q =
     (if list_ex (\<lambda>g. g_upQueueID g = q \<and> g_qosPolicy g \<noteq> ''WRR'') gems then Some cu16StrictPrioWeight
      else map_option (\<lambda>g. ucast (g_weight g)) (find (\<lambda>g. g_upQueueID g = q) gems)) \<and>
   Attributes (queueParams (q, ucast b)) =
     [(''TrafficSchedulerPointer'', AInt 0x8000), (''Weight'', AU8 b)] \<and>
   Attributes (queueParams (q, cu16StrictPrioWeight)) = [(''TrafficSchedulerPointer'', AInt 0)]"
proof -
  have "(ucast (ucast b :: u16) :: u8) = b" by (rule bit_word_eqI) (simp add: bit_unsigned_iff)
  then show ?thesis
    by (simp add: queueMap_lookup queueMap_distinct queueParams_def weight_not_strict loTrafficSchedulerEID_def)
qed

lemma find_SomeD: "find P xs = Some x \<Longrightarrow> P x \<and> x \<in> set xs"
  by (auto simp: find_Some_iff)

lemma map_of_map_key:
  "inj f \<Longrightarrow> map_of (map (\<lambda>i. (f i, g i)) xs) (f i) = (if i \<in> set xs then Some (g i) else None)"
  by (induction xs) (auto dest: injD)

lemma inj_pbitAttribute: "inj pbitAttribute"
  by (rule injI) (auto simp: pbitAttribute_def dest: format_nat_inj)

text \<open>C34: when every priority map has its eight digits, the 802.1p mapper sends priority \<open>i\<close>
  to the first GEM port, in the order collected, that has an identifier and claims \<open>i\<close> (digit
  \<open>i\<close> from the right), and leaves a priority that no port claims unset.\<close>

theorem dot1pMapper_exact:
  assumes "list_all (\<lambda>g. 8 \<le> length (g_pbitString g)) (a_gemPortAttribs w)" and "i < 8"
  shows "\<exists>arr. prioGemPortArray (a_gemPortAttribs w) = Done arr \<and>
    map_of (Attributes (mapperParams w arr)) (pbitAttribute i) =
      map_option (\<lambda>g. AU16 (g_gemPortID g))
        (find (\<lambda>g. g_pbitString g ! (7 - i) = CHR ''1'' \<and> g_gemPortID g \<noteq> 0) (a_gemPortAttribs w))"
proof -
  from gemSteps_Done [OF assms(1), of "replicate 8 0"] assms(2) obtain arr where
    arr: "prioGemPortArray (a_gemPortAttribs w) = Done arr"
    and nth: "arr ! i = (case find (\<lambda>g. claims i g \<and> g_gemPortID g \<noteq> 0) (a_gemPortAttribs w) of
      None \<Rightarrow> 0 | Some g \<Rightarrow> g_gemPortID g)"
    by (auto simp: prioGemPortArray_def)
  have "map_of (Attributes (mapperParams w arr)) (pbitAttribute i) =
      (if arr ! i \<noteq> 0 then Some (AU16 (arr ! i)) else None)"
    using assms(2) by (simp add: mapperParams_def map_of_map_key [OF inj_pbitAttribute])
  with arr nth show ?thesis
    by (cases "find (\<lambda>g. claims i g \<and> g_gemPortID g \<noteq> 0) (a_gemPortAttribs w)")
      (auto simp: claims_def dest: find_SomeD)
qed

definition example_ani :: uniPonAniConfigFsm where
  "example_ani =
     (snd (newUniPonAniConfigFsm example_cc example_uni example_tp newOnuDeviceDB 64 OmciAniConfigDone))
       \<lparr>a_gemPortAttribs := [noGem\<lparr>g_gemPortID := 1024, g_pbitString := ''00000001''\<rparr>,
                           noGem\<lparr>g_gemPortID := 1025, g_pbitString := ''00000011''\<rparr>]\<rparr>"

theorem dot1pMapper_exact_witness:
  "\<exists>arr. prioGemPortArray (a_gemPortAttribs example_ani) = Done arr \<and>
     map_of (Attributes (mapperParams example_ani arr)) (pbitAttribute 1) = Some (AU16 1025)"
  using dot1pMapper_exact [of example_ani 1] by (simp add: example_ani_def)

text \<open>A priority map with fewer than eight digits ends the process when the machine reaches
  the 802.1p mapper: the map is indexed without a check of its length.\<close>

lemma short_pbit_map_panics:
  assumes "\<not> list_all (\<lambda>g. 8 \<le> length (g_pbitString g)) (a_gemPortAttribs w)"
  shows "a_crash (snd (fireAni lib aniEvRxPrioqsResp (aniStSettingPQs, w))) = Some IndexOutOfRange"
proof -
  have "enterSettingDot1PMapper lib w = Panic IndexOutOfRange"
    using gemSteps_Panic [OF assms, of "replicate 8 0"]
    by (simp add: enterSettingDot1PMapper_def prioGemPortArray_def panic_simps)
  then show ?thesis
    by (simp add: fireAni_outcome queue_phase.done_phase crashed_def)
qed

lemma short_pbit_map_panics_witness:
  "a_crash (snd (fireAni permissive_lib aniEvRxPrioqsResp
     (aniStSettingPQs, example_ani\<lparr>a_gemPortAttribs := [noGem]\<rparr>))) = Some IndexOutOfRange"
  by (rule short_pbit_map_panics) (simp add: noGem_def)

text \<open>A GEM port is connected to the upstream queue of its T-CONT and priority whenever the
  data base holds exactly one such queue, whatever else it holds; when it holds none the port
  silently keeps the queue of the port evaluated before it.\<close>

lemma gemAttribs_queue:
  assumes "key0 \<in> set (getSortedInstKeys db PriorityQueueClassID)"
    and "\<forall>k \<in> set (getSortedInstKeys db PriorityQueueClassID).
      relatedPort f2u db k = Some (usQrelPortMask tcont (prioQueueIndex g)) \<longrightarrow> k = q"
  shows "\<exists>lo'. gemAttribs f2u db tcont uni g lo = Done lo' \<and> g_gemPortID lo' = gemPortID g \<and>
    g_pbitString lo' = pbitString g \<and> g_qosPolicy lo' = queueSchedPolicy g \<and>
    g_upQueueID lo' =
      (if q \<in> set (getSortedInstKeys db PriorityQueueClassID) \<and>
          relatedPort f2u db q = Some (usQrelPortMask tcont (prioQueueIndex g))
       then q else g_upQueueID lo)"
proof -
  let ?keys = "getSortedInstKeys db PriorityQueueClassID"
  let ?us = "usQrelPortMask tcont (prioQueueIndex g)"
  have ne: "?keys \<noteq> []" using assms(1) by auto
  show ?thesis
  proof (cases "q \<in> set ?keys \<and> relatedPort f2u db q = Some ?us")
    case True
    obtain d where "findQueues f2u db ?us (dsQrelPortMask uni (prioQueueIndex g)) ?keys
        (g_upQueueID lo, g_downQueueID lo) (False, False) = Done (q, d)"
      using findQueues_up [OF assms(2)] True by blast
    with ne True show ?thesis by (simp add: gemAttribs_def Let_def panic_simps)
  next
    case False
    with assms(2) have "\<forall>k \<in> set ?keys. relatedPort f2u db k = Some ?us \<longrightarrow> k = g_upQueueID lo"
      by metis
    then obtain d where "findQueues f2u db ?us (dsQrelPortMask uni (prioQueueIndex g)) ?keys
        (g_upQueueID lo, g_downQueueID lo) (False, False) = Done (g_upQueueID lo, d)"
      using findQueues_keeps_up by blast
    with ne False show ?thesis by (auto simp: gemAttribs_def Let_def panic_simps)
  qed
qed

definition example_queues :: onuDeviceDB where
  "example_queues =
     PutMe PriorityQueueClassID 0x8003 [(''RelatedPort'', AU32 0x80000003)]
      (PutMe PriorityQueueClassID 0x8000 [(''RelatedPort'', AU32 0x80000000)] newOnuDeviceDB)"

lemma example_queues_lookup:
  "getSortedInstKeys example_queues PriorityQueueClassID = [0x8000, 0x8003]"
  "relatedPort f2u example_queues 0x8000 = Some 0x80000000"
  "relatedPort f2u example_queues 0x8003 = Some 0x80000003"
  by (simp_all add: example_queues_def PutMe_def getSortedInstKeys_def instances_def newOnuDeviceDB_def
      relatedPort_def GetMe_def attr_at_def class_ids)

lemma gemAttribs_queue_witness:
  "\<exists>lo'. gemAttribs (\<lambda>_. 0) example_queues 0x8000 0 (gemOf example_gem) noGem = Done lo' \<and>
     g_upQueueID lo' = 0x8003"
proof -
  let ?g = "gemOf example_gem"
  have us: "usQrelPortMask 0x8000 (prioQueueIndex ?g) = 0x80000003"
    by (simp add: usQrelPortMask_def gemOf_def example_gem_def)
  have keys: "0x8003 \<in> set (getSortedInstKeys example_queues PriorityQueueClassID)"
    by (simp add: example_queues_lookup)
  have "\<forall>k \<in> set (getSortedInstKeys example_queues PriorityQueueClassID).
      relatedPort (\<lambda>_. 0) example_queues k = Some (usQrelPortMask 0x8000 (prioQueueIndex ?g)) \<longrightarrow> k = 0x8003"
    by (simp add: example_queues_lookup us)
  from gemAttribs_queue [OF keys this, of 0 noGem] obtain lo' where
    "gemAttribs (\<lambda>_. 0) example_queues 0x8000 0 ?g noGem = Done lo'" and
    "g_upQueueID lo' = (if 0x8003 \<in> set (getSortedInstKeys example_queues PriorityQueueClassID) \<and>
        relatedPort (\<lambda>_. 0) example_queues 0x8003 = Some (usQrelPortMask 0x8000 (prioQueueIndex ?g))
       then 0x8003 else g_upQueueID noGem)"
    by blast
  moreover from this(2) keys have "g_upQueueID lo' = 0x8003"
    by (simp only: us example_queues_lookup simp_thms if_True)
  ultimately show ?thesis by blast
qed

text \<open>The executions of an ANI configuration machine.\<close>

definition ani_reach ::
    "omciLib \<Rightarrow> aniState \<times> uniPonAniConfigFsm \<Rightarrow> aniState \<times> uniPonAniConfigFsm \<Rightarrow> bool" where
  "ani_reach lib = served_reach aniEvents (ani_enter lib) (handleOmciAniConfigMessage lib) (aniWorks lib)
     aniExternal"


lemma ani_new_account: "ani_served.account 0 (newUniPonAniConfigFsm cc uni tp db tpid e)"
  by (simp add: newUniPonAniConfigFsm_def ani_served.account_idle)

text \<open>C32: an ANI machine that is active in whatever state is served by exactly one goroutine more
  than there are unread abort messages, an idle or resetting one by exactly as many.\<close>

theorem ani_machine_served:
  assumes "ani_reach lib (newUniPonAniConfigFsm cc uni tp db tpid e) (st, w)"
  shows "loops w = aborts w + (if st = aniStDisabled \<or> st = aniStResetting then 0 else 1)"
  using ani_served.served [OF _ ani_new_account, of lib cc uni tp db tpid e "(st, w)"] assms
  by (simp add: ani_reach_def)

theorem ani_machine_served_witness:
  "loops (snd (fireAni permissive_lib aniEvStart
     (newUniPonAniConfigFsm example_cc example_uni example_tp newOnuDeviceDB 64 OmciAniConfigDone))) = 1"
proof -
  let ?n = "newUniPonAniConfigFsm example_cc example_uni example_tp newOnuDeviceDB 64 OmciAniConfigDone"
  let ?s = "fireAni permissive_lib aniEvStart ?n"
  have "ani_reach permissive_lib ?n ?s"
    unfolding ani_reach_def fireAni_def
    by (rule sr_step [OF sr_init st_external]) (simp add: aniExternal_def)
  then have "ani_reach permissive_lib ?n (fst ?s, snd ?s)" by simp
  note ani_machine_served [OF this]
  then show ?thesis
    by (simp add: newUniPonAniConfigFsm_def fireAni_outcome ani_table
        enterConfigStartingState_def accounting)
qed




text \<open>Once the machine exists, the UNI that a tech profile is to be set for has no influence:
  the machine goes on configuring the UNI it was created for, with its identifier of the profile,
  and reports the step as processed for whatever UNI was meant.\<close>

lemma ani_machine_bound_to_first_uni:
  "setAniSideConfigFromTechProfile lib dev u port step tp (Some (st, w)) =
     setAniSideConfigFromTechProfile lib dev' u' port' step tp (Some (st, w)) \<and>
   (case setAniSideConfigFromTechProfile lib dev u port step tp (Some (aniStDisabled, w)) of
      Done (Some (st', w')) \<Rightarrow> st' = aniStStarting \<and> a_uni w' = a_uni w \<and>
        a_techProfileID w' = a_techProfileID w \<and> a_procStep w' = step \<and> a_chanSet w'
    | _ \<Rightarrow> False)"
  by (simp add: setAniSideConfigFromTechProfile_def runAniConfigFsm_def fireAni_outcome ani_table
      enterConfigStartingState_def setFsmCompleteChannel_def go_def)

end
