(* ===== verification/Device_Entry.thy ===== *)
theory Device_Entry
  imports Served_Fsm
begin

text \<open>
  The device entry (\<open>onu_device_entry.go\<close>): starting and stopping it, the processing state
  of the device and its relay to the device handler, the reboot of the ONU; and what the MIB
  download (\<open>mib_download.go\<close>) does with it: its state machine, the handling of responses
  and the loop that sets up the bridge of every UNI.
\<close>

section \<open>The processing state\<close>

fun event_no :: "OnuDeviceEvent \<Rightarrow> int" where
  "event_no DeviceStatusInit = 0"
| "event_no MibDatabaseSync = 1"
| "event_no OmciCapabilitiesDone = 2"
| "event_no MibDownloadDone = 3"
| "event_no UniLockStateDone = 4"
| "event_no UniUnlockStateDone = 5"
| "event_no UniAdminStateDone = 6"
| "event_no PortLinkUp = 7"
| "event_no PortLinkDw = 8"
| "event_no OmciAniConfigDone = 9"
| "event_no OmciVlanFilterDone = 10"

text \<open>
  \<open>transferSystemEvent\<close>: the new processing state and the event handed to the device
  handler, if any.
\<close>

definition transferSystemEvent :: "OnuDeviceEvent \<Rightarrow> OnuDeviceEvent \<Rightarrow> OnuDeviceEvent \<times> OnuDeviceEvent option" where
  "transferSystemEvent devEvent devState =
     (if devEvent = MibDatabaseSync then
        (if event_no devState < event_no MibDatabaseSync then (MibDatabaseSync, Some devEvent)
         else (devState, None))
      else if devEvent = MibDownloadDone then
        (if event_no devState < event_no MibDownloadDone then (MibDownloadDone, Some devEvent)
         else (devState, None))
      else (devState, None))"

record swImages =
  sw_version :: string
  sw_isActive :: u8

definition firstSwImageMeID :: nat where "firstSwImageMeID = 0"
definition secondSwImageMeID :: nat where "secondSwImageMeID = 1"
definition onugMeID :: u16 where "onugMeID = 0"
definition onu2gMeID :: u16 where "onu2gMeID = 0"
definition ipHostConfigDataMeID :: u16 where "ipHostConfigDataMeID = 1"
definition onugSerialNumberLen :: nat where "onugSerialNumberLen = 8"
definition omciMacAddressLen :: nat where "omciMacAddressLen = 6"

lemmas me_ids = firstSwImageMeID_def secondSwImageMeID_def onugMeID_def onu2gMeID_def
  ipHostConfigDataMeID_def onugSerialNumberLen_def omciMacAddressLen_def

text \<open>The part of the entry that its own methods change.\<close>

record OnuDeviceEntry =
  oe_deviceID :: string
  oe_started :: bool
  oe_omciCC :: "omciCC option"
  oe_devState :: OnuDeviceEvent

definition newOnuDeviceEntry :: "string \<Rightarrow> OnuDeviceEntry" where
  "newOnuDeviceEntry dev =
     \<lparr>oe_deviceID = dev, oe_started = False, oe_omciCC = None, oe_devState = DeviceStatusInit\<rparr>"

text \<open>\<open>start\<close> makes a new channel each time; the machines keep the one they were made with.\<close>

definition start :: "handlerIds \<Rightarrow> OnuDeviceEntry \<Rightarrow> OnuDeviceEntry" where
  "start handler oo = oo\<lparr>oe_omciCC := Some (newOmciCC True (oe_deviceID oo) handler), oe_started := True\<rparr>"

definition stop :: "OnuDeviceEntry \<Rightarrow> OnuDeviceEntry" where
  "stop oo = oo\<lparr>oe_started := False\<rparr>"

section \<open>Reboot\<close>

datatype reboot_error = RebootTimeout | RebootNoLayer | RebootLayerNotAssigned | RebootBadResult
  | RebootUnexpectedType | RebootNotSent cc_error

text \<open>The layer of type \<open>LayerTypeRebootResponse\<close> of a packet, if it has one.\<close>

fun rebootLayer :: "rxPacket \<Rightarrow> rxLayer option" where
  "rebootLayer (Some (RebootResponse r)) = Some (RebootResponse r)"
| "rebootLayer _ = None"

text \<open>
  \<open>waitForRebootResponse\<close>: the message that arrives in time, if any. The layer of a reboot
  response is asserted to be a \<open>*omci.GetResponse\<close>, which it is not. A message that does
  not hold an OMCI message fails the assertion without comma-ok.
\<close>

definition waitForRebootResponse :: "Message option \<Rightarrow> reboot_error option outcome" where
  "waitForRebootResponse data =
     (case data of
        None \<Rightarrow> Done (Some RebootTimeout)
      | Some (TestMsg _) \<Rightarrow> Panic BadTypeAssertion
      | Some (OMCI hdr packet) \<Rightarrow>
          if hdrMessageType hdr = RebootResponseType then
            (case rebootLayer packet of
               None \<Rightarrow> Done (Some RebootNoLayer)
             | Some (GetResponse _ _ result _) \<Rightarrow>
                 if result \<noteq> me_Success then Done (Some RebootBadResult) else Done None
             | Some _ \<Rightarrow> Done (Some RebootLayerNotAssigned))
          else Done (Some RebootUnexpectedType))"

text \<open>
  \<open>sendReboot\<close> with the message that arrives meanwhile and the change the rest of the
  adapter made to the channel. After a failure it fires an event the download machine does
  not know, which changes nothing.
\<close>

definition sendReboot :: "omciLib \<Rightarrow> int \<Rightarrow> bool \<Rightarrow> Message option \<Rightarrow> (omciCC \<Rightarrow> omciCC) \<Rightarrow> omciCC \<Rightarrow>
    (reboot_error option \<times> omciCC) outcome" where
  "sendReboot lib timeout highPrio data env oo =
     bind_outcome (sendRebootRequest lib timeout highPrio oo)
       (\<lambda>(e, oo1). case e of
          Some err \<Rightarrow> Done (Some (RebootNotSent err), oo1)
        | None \<Rightarrow> bind_outcome (waitForRebootResponse data) (\<lambda>r. Done (r, env oo1)))"

definition reboot :: "omciLib \<Rightarrow> Message option \<Rightarrow> (omciCC \<Rightarrow> omciCC) \<Rightarrow> omciCC \<Rightarrow> (reboot_error option \<times> omciCC) outcome" where
  "reboot lib data env oo = sendReboot lib ConstDefaultOmciTimeout True data env oo"

section \<open>The MIB download machine\<close>

datatype dlEvent = dlEvStart | dlEvCreateGal | dlEvRxGalResp | dlEvRxOnu2gResp | dlEvRxBridgeResp
  | dlEvTimeoutSimple | dlEvTimeoutBridge | dlEvReset | dlEvRestart

datatype dlState = dlStDisabled | dlStStarting | dlStCreatingGal | dlStSettingOnu2g | dlStBridgeInit
  | dlStDownloaded | dlStResetting

definition dlEvents :: "(dlEvent, dlState) EventDesc list" where
  "dlEvents =
     [ev dlEvStart [dlStDisabled] dlStStarting,
      ev dlEvCreateGal [dlStStarting] dlStCreatingGal,
      ev dlEvRxGalResp [dlStCreatingGal] dlStSettingOnu2g,
      ev dlEvRxOnu2gResp [dlStSettingOnu2g] dlStBridgeInit,
      ev dlEvRxBridgeResp [dlStBridgeInit] dlStDownloaded,
      ev dlEvTimeoutSimple [dlStCreatingGal, dlStSettingOnu2g] dlStStarting,
      ev dlEvTimeoutBridge [dlStBridgeInit] dlStStarting,
      ev dlEvReset [dlStStarting, dlStCreatingGal, dlStSettingOnu2g, dlStBridgeInit, dlStDownloaded]
        dlStResetting,
      ev dlEvRestart [dlStStarting, dlStCreatingGal, dlStSettingOnu2g, dlStBridgeInit, dlStDownloaded,
        dlStResetting] dlStDisabled]"

datatype dlWork = InitialBridgeSetup

record mibDownload = "(dlEvent, dlWork) fsmWorld" +
  d_cc :: omciCC
  d_responses :: "bool list"
  d_devState :: OnuDeviceEvent
  d_relayed :: "OnuDeviceEvent list"
  d_crash :: "panic option"

definition newMibDownload :: "omciCC \<Rightarrow> OnuDeviceEvent \<Rightarrow> dlState \<times> mibDownload" where
  "newMibDownload cc devState =
     (dlStDisabled,
      \<lparr>w_comm = [], w_tasks = [], d_cc = cc, d_responses = [], d_devState = devState, d_relayed = [],
       d_crash = None\<rparr>)"

definition enterDLStartingState :: "mibDownload \<Rightarrow> mibDownload" where
  "enterDLStartingState w = go [GoMessages] w"

type_synonym osender = "omciCC \<Rightarrow> (ManagedEntity option \<times> omciCC) outcome"

definition dlTransmit :: "osender \<Rightarrow> mibDownload \<Rightarrow> mibDownload" where
  "dlTransmit s w =
     (case s (d_cc w) of
        Done (meInstance, cc) \<Rightarrow> w\<lparr>d_cc := cc\<lparr>pLastTxMeInstance := meInstance\<rparr>\<rparr>
      | Panic p \<Rightarrow> w\<lparr>d_crash := Some p\<rparr>)"

definition enterCreatingGalState :: "omciLib \<Rightarrow> mibDownload \<Rightarrow> mibDownload" where
  "enterCreatingGalState lib w = dlTransmit (sendCreateGalEthernetProfile lib ConstDefaultOmciTimeout True) w"

definition enterSettingOnu2gState :: "omciLib \<Rightarrow> mibDownload \<Rightarrow> mibDownload" where
  "enterSettingOnu2gState lib w = dlTransmit (sendSetOnu2g lib ConstDefaultOmciTimeout True) w"

definition enterBridgeInitState :: "mibDownload \<Rightarrow> mibDownload" where
  "enterBridgeInitState w = go [GoWork InitialBridgeSetup] w"

definition relayEvent :: "OnuDeviceEvent \<Rightarrow> mibDownload \<Rightarrow> mibDownload" where
  "relayEvent devEvent w =
     (case transferSystemEvent devEvent (d_devState w) of
        (st, None) \<Rightarrow> w\<lparr>d_devState := st\<rparr>
      | (st, Some e) \<Rightarrow> w\<lparr>d_devState := st, d_relayed := d_relayed w @ [e]\<rparr>)"

definition enterDownloadedState :: "mibDownload \<Rightarrow> mibDownload" where
  "enterDownloadedState w = go [GoEvent dlEvReset] (relayEvent MibDownloadDone w)"

definition enterResettingState_dl :: "mibDownload \<Rightarrow> mibDownload" where
  "enterResettingState_dl w = go [GoEvent dlEvRestart] (post fsmAbortMsg w)"

fun dl_enter :: "omciLib \<Rightarrow> dlState \<Rightarrow> mibDownload \<Rightarrow> mibDownload" where
  "dl_enter lib dlStStarting w = enterDLStartingState w"
| "dl_enter lib dlStCreatingGal w = enterCreatingGalState lib w"
| "dl_enter lib dlStSettingOnu2g w = enterSettingOnu2gState lib w"
| "dl_enter lib dlStBridgeInit w = enterBridgeInitState w"
| "dl_enter lib dlStDownloaded w = enterDownloadedState w"
| "dl_enter lib dlStResetting w = enterResettingState_dl w"
| "dl_enter lib dlStDisabled w = w"

definition fireDl :: "omciLib \<Rightarrow> dlEvent \<Rightarrow> dlState \<times> mibDownload \<Rightarrow> dlState \<times> mibDownload" where
  "fireDl lib e s = runEvent dlEvents (dl_enter lib) e s"

definition handleOmciMibDownloadMessage ::
    "omciLib \<Rightarrow> omciHeader \<Rightarrow> rxPacket \<Rightarrow> dlState \<times> mibDownload \<Rightarrow> (dlState \<times> mibDownload) outcome" where
  "handleOmciMibDownloadMessage lib hdr packet s =
     (if hdrMessageType hdr = CreateResponseType then
        (case createOk packet of
           None \<Rightarrow> Done s
         | Some (c, e) \<Rightarrow>
             bind_outcome (matchLastTx (pLastTxMeInstance (d_cc (snd s))) c e)
               (\<lambda>r. case r of
                  None \<Rightarrow> Done s
                | Some n \<Rightarrow>
                    if n = ''GalEthernetProfile'' then Done (fireDl lib dlEvRxGalResp s)
                    else if n = ''MacBridgeServiceProfile'' \<or> n = ''MacBridgePortConfigurationData'' \<or>
                      n = ''ExtendedVlanTaggingOperationConfigurationData'' then
                      Done (fst s, (snd s)\<lparr>d_responses := d_responses (snd s) @ [True]\<rparr>)
                    else Done s))
      else if hdrMessageType hdr = SetResponseType then
        (case setOk packet of
           None \<Rightarrow> Done s
         | Some (c, e) \<Rightarrow>
             bind_outcome (matchLastTx (pLastTxMeInstance (d_cc (snd s))) c e)
               (\<lambda>r. case r of
                  None \<Rightarrow> Done s
                | Some n \<Rightarrow> if n = ''Onu2G'' then Done (fireDl lib dlEvRxOnu2gResp s) else Done s))
      else Done s)"

definition processMibDownloadMessages ::
    "omciLib \<Rightarrow> dlState \<times> mibDownload \<Rightarrow> (dlState \<times> mibDownload) outcome" where
  "processMibDownloadMessages lib s = serveMessages (handleOmciMibDownloadMessage lib) s"

text \<open>The loop that sends and waits, for senders that may panic.\<close>

fun sendAndWaitO :: "osender list \<Rightarrow> wait list \<Rightarrow> omciCC \<Rightarrow> (bool \<times> ManagedEntity option list \<times> omciCC) outcome" where
  "sendAndWaitO [] ws oo = Done (True, [], oo)"
| "sendAndWaitO (s # ss) ws oo =
     bind_outcome (s oo)
       (\<lambda>(m, oo1). let oo2 = oo1\<lparr>pLastTxMeInstance := m\<rparr> in
          (case ws of
             [] \<Rightarrow> Done (False, [m], oo2)
           | (r, env) # ws' \<Rightarrow>
               if waitforOmciResponse r then
                 bind_outcome (sendAndWaitO ss ws' (env oo2)) (\<lambda>(b, ms, oo3). Done (b, m # ms, oo3))
               else Done (False, [m], env oo2)))"

definition bridgeSenders :: "omciLib \<Rightarrow> onuUniPort list \<Rightarrow> osender list" where
  "bridgeSenders lib unis =
     concat (map (\<lambda>uniPort. [sendCreateMBServiceProfile lib uniPort ConstDefaultOmciTimeout True,
                             sendCreateMBPConfigData lib uniPort ConstDefaultOmciTimeout True,
                             sendCreateEVTOConfigData lib uniPort ConstDefaultOmciTimeout True]) unis)"

text \<open>\<open>unis\<close> is the map of UNI ports in the order this run ranges over it.\<close>

definition performInitialBridgeSetup ::
    "omciLib \<Rightarrow> onuUniPort list \<Rightarrow> wait list \<Rightarrow> dlState \<times> mibDownload \<Rightarrow> (dlState \<times> mibDownload) outcome" where
  "performInitialBridgeSetup lib unis ws s =
     bind_outcome (sendAndWaitO (bridgeSenders lib unis) ws (d_cc (snd s)))
       (\<lambda>(success, _, cc).
          Done (fireDl lib (if success then dlEvRxBridgeResp else dlEvReset) (fst s, (snd s)\<lparr>d_cc := cc\<rparr>)))"

inductive dlWorks :: "omciLib \<Rightarrow> dlWork \<Rightarrow> dlState \<times> mibDownload \<Rightarrow> dlState \<times> mibDownload \<Rightarrow> bool"
  for lib where
  bridge: "performInitialBridgeSetup lib unis ws s = Done s' \<Longrightarrow> dlWorks lib InitialBridgeSetup s s'"

inductive_cases dlWorksE: "dlWorks lib x s s'"

text \<open>The device handler starts the download and resets it.\<close>

definition dlExternal :: "dlEvent list" where
  "dlExternal = [dlEvStart, dlEvCreateGal, dlEvReset]"

section \<open>Interpretations\<close>

lemmas dl_table = dlEvents_def NewFSM_def add_desc_def next_state_def

interpretation dl: resettable_fsm dlEvents dlEvReset dlEvRestart dlStDisabled dlStResetting
proof (unfold_locales, goal_cases)
  case (3 s)
  then show ?case by (cases s) (simp_all add: dl_table)
qed (simp_all add: dl_table fsm_keys_def)

interpretation bridge_phase: config_phase dlEvents
    dlStBridgeInit dlStDownloaded dlStResetting dlEvRxBridgeResp dlEvReset
  by unfold_locales (simp_all add: dl_table)

text \<open>All events but the two timeouts, which nothing fires.\<close>

definition dlFired :: "dlEvent list" where
  "dlFired = [dlEvStart, dlEvCreateGal, dlEvRxGalResp, dlEvRxOnu2gResp, dlEvRxBridgeResp, dlEvReset,
     dlEvRestart]"

lemma fireDl_outcome:
  "fireDl lib e (st, w) =
     (case NewFSM dlEvents (e, st) of None \<Rightarrow> (st, w) | Some t \<Rightarrow> (t, dl_enter lib t w))"
  by (auto simp: fireDl_def runEvent_def dl.Event_outcome split: option.splits)

lemma dlTransmit_accounting [simp]:
  "loops (dlTransmit s w) = loops w" "restarts e (dlTransmit s w) = restarts e w"
  "aborts (dlTransmit s w) = aborts w" "events_among es (dlTransmit s w) = events_among es w"
  by (simp_all add: dlTransmit_def accounting split: outcome.split prod.split)

lemma relayEvent_accounting [simp]:
  "loops (relayEvent e w) = loops w" "restarts e' (relayEvent e w) = restarts e' w"
  "aborts (relayEvent e w) = aborts w" "events_among es (relayEvent e w) = events_among es w"
  by (simp_all add: relayEvent_def accounting split: prod.split option.split)

lemma dl_enter_accounting:
  "loops (dl_enter lib t w) = loops w + (if t = dlStStarting then 1 else 0)"
  "restarts dlEvRestart (dl_enter lib t w) = restarts dlEvRestart w + (if t = dlStResetting then 1 else 0)"
  "aborts (dl_enter lib t w) = aborts w + (if t = dlStResetting then 1 else 0)"
  "events_among dlFired w \<Longrightarrow> events_among dlFired (dl_enter lib t w)"
  by (cases t; simp add: enterDLStartingState_def enterCreatingGalState_def enterSettingOnu2gState_def
      enterBridgeInitState_def enterDownloadedState_def enterResettingState_dl_def dlFired_def)+

lemma dl_handler_local:
  "handleOmciMibDownloadMessage lib hdr packet s = Done s' \<Longrightarrow>
   local_or_event dlEvents (dl_enter lib) dlFired dlEvRestart s s'"
  by (cases s)
    (auto simp: handleOmciMibDownloadMessage_def fireDl_def dlFired_def
      dest!: matchLastTx_bindD split: if_split_asm option.split_asm intro!: fsm_intros)

lemma dl_work_local:
  "dlWorks lib x s s' \<Longrightarrow> local_or_event dlEvents (dl_enter lib) dlFired dlEvRestart s s'"
  by (cases s; erule dlWorksE)
    (auto simp: performInitialBridgeSetup_def fireDl_def panic_simps dlFired_def
      split: prod.splits if_splits intro!: fsm_intros)

interpretation dl_served: served_fsm dlEvents "dl_enter lib" "handleOmciMibDownloadMessage lib"
    "dlWorks lib" dlExternal dlFired dlStDisabled dlStStarting dlStResetting dlEvRestart
  for lib
proof (unfold_locales, goal_cases)
  case (8 e)
  then show ?case by (auto simp: dlExternal_def dlFired_def)
next
  case (9 e s t)
  then show ?case by (cases e) (auto simp: dl_table dlFired_def split: if_splits)
qed (simp_all add: dl_enter_accounting dl_handler_local dl_work_local dl.restart_resetting)

section \<open>Senders that do not panic\<close>

text \<open>A sender is safe, with a total counterpart, while the device entry is set.\<close>

definition safe_sender :: "osender \<Rightarrow> sender \<Rightarrow> bool" where
  "safe_sender so s \<longleftrightarrow> (\<forall>oo. ccHasEntry oo \<longrightarrow> so oo = Done (s oo) \<and> ccHasEntry (snd (s oo)))"

definition keeps_entry :: "wait list \<Rightarrow> bool" where
  "keeps_entry ws \<longleftrightarrow> (\<forall>(r, env) \<in> set ws. \<forall>oo. ccHasEntry (env oo) = ccHasEntry oo)"

lemma sendAndWaitO_total:
  assumes "list_all2 safe_sender sos ss" and "keeps_entry ws" and "ccHasEntry oo"
  shows "sendAndWaitO sos ws oo = Done (sendAndWait ss ws oo)"
  using assms
proof (induction sos ss arbitrary: ws oo rule: list_all2_induct)
  case (Cons so sos s ss)
  obtain m oo1 where s: "s oo = (m, oo1)" by fastforce
  with Cons.hyps(1) Cons.prems(2) have so: "so oo = Done (m, oo1)" and e: "ccHasEntry oo1"
    by (auto simp: safe_sender_def)
  show ?case
  proof (cases ws)
    case (Cons x ws')
    obtain r env where x: "x = (r, env)" by (cases x)
    from Cons.prems(1) have "keeps_entry ws'" and "ccHasEntry (env (oo1\<lparr>pLastTxMeInstance := m\<rparr>))"
      using e by (simp_all add: \<open>ws = x # ws'\<close> x keeps_entry_def)
    from Cons.IH [OF this] show ?thesis
      by (simp add: \<open>ws = x # ws'\<close> x s so panic_simps Let_def split: prod.split)
  qed (simp add: s so panic_simps Let_def)
qed simp

lemma sendMeEntry_safe:
  "safe_sender (sendMeEntry lib ty defaults c timeout hp p ch) (sendMe lib ty defaults c timeout hp p ch)"
  by (simp add: safe_sender_def sendMeEntry_ok)

text \<open>The requests of the bridge setup and the instances they create.\<close>

definition bridgeSender :: "omciLib \<Rightarrow> bool \<times> classID \<times> ParamData \<Rightarrow> sender" where
  "bridgeSender lib = (\<lambda>(defaults, c, p). sendMe lib CreateRequest defaults c ConstDefaultOmciTimeout True p ChMibDownload)"

definition bridgeRequests :: "onuUniPort \<Rightarrow> (bool \<times> classID \<times> ParamData) list" where
  "bridgeRequests uni =
     [(True, MacBridgeServiceProfileClassID,
        \<lparr>EntityID = macBridgeServiceProfileEID + ucast (macBpNo uni),
         Attributes = [(''Priority'', AInt 0x8000), (''MaxAge'', AInt (20 * 256)),
           (''HelloTime'', AInt (2 * 256)), (''ForwardDelay'', AInt (15 * 256))]\<rparr>),
      (True, MacBridgePortConfigurationDataClassID,
        \<lparr>EntityID = macBridgePortAniEID + entityID uni,
         Attributes = [(''BridgeIdPointer'', AU16 (macBridgeServiceProfileEID + ucast (macBpNo uni))),
           (''PortNum'', AU8 (macBpNo uni)), (''TpType'', AU8 (ucast (portType uni))),
           (''TpPointer'', AU16 (entityID uni))]\<rparr>),
      (False, ExtendedVlanTaggingOperationConfigurationDataClassID,
        \<lparr>EntityID = macBridgeServiceProfileEID + ucast (macBpNo uni),
         Attributes = [(''AssociationType'', AU8 (if portType uni = uniVEIP then 10 else 2)),
           (''AssociatedMePointer'', AU16 (entityID uni))]\<rparr>)]"

lemma bridgeSenders_Cons:
  "bridgeSenders lib (u # unis) =
     sendCreateMBServiceProfile lib u ConstDefaultOmciTimeout True #
     sendCreateMBPConfigData lib u ConstDefaultOmciTimeout True #
     sendCreateEVTOConfigData lib u ConstDefaultOmciTimeout True # bridgeSenders lib unis"
  by (simp add: bridgeSenders_def)

lemma bridgeSenders_safe:
  "list_all2 safe_sender (bridgeSenders lib unis) (map (bridgeSender lib) (concat (map bridgeRequests unis)))"
proof (induction unis)
  case (Cons u unis)
  have "list_all2 safe_sender
      [sendCreateMBServiceProfile lib u ConstDefaultOmciTimeout True,
       sendCreateMBPConfigData lib u ConstDefaultOmciTimeout True,
       sendCreateEVTOConfigData lib u ConstDefaultOmciTimeout True]
      (map (bridgeSender lib) (bridgeRequests u))"
    by (simp add: bridgeRequests_def bridgeSender_def safe_sender_def send_entry_defs sendMeEntry_ok)
  from list_all2_appendI [OF this Cons.IH] show ?case
    by (simp add: bridgeSenders_Cons)
qed (simp add: bridgeSenders_def)

lemma length_bridgeRequests: "length (concat (map bridgeRequests unis)) = 3 * length unis"
  by (induction unis) (simp_all add: bridgeRequests_def)

section \<open>Properties\<close>

text \<open>The bridge of every UNI is set up by exactly three requests in this order, its service
  profile, its port configuration pointing to that profile, and its extended VLAN table; the
  download is reported done exactly when every one of them is acknowledged positively, and the
  machine resets after the first that is not.\<close>

lemma performInitialBridgeSetup_exact:
  assumes "ccHasEntry (d_cc w)" and "keeps_entry ws"
  shows "\<exists>s'. performInitialBridgeSetup lib unis ws (dlStBridgeInit, w) = Done s' \<and>
    fst s' = (if 3 * length unis \<le> length ws \<and>
        list_all (\<lambda>x. fst x = WaitSuccess) (take (3 * length unis) ws)
      then dlStDownloaded else dlStResetting) \<and>
    sendAndWaitO (bridgeSenders lib unis) ws (d_cc w) =
      Done (sendAndWait (map (bridgeSender lib) (concat (map bridgeRequests unis))) ws (d_cc w))"
proof -
  let ?ss = "map (bridgeSender lib) (concat (map bridgeRequests unis))"
  have t: "sendAndWaitO (bridgeSenders lib unis) ws (d_cc w) = Done (sendAndWait ?ss ws (d_cc w))"
    using sendAndWaitO_total [OF bridgeSenders_safe assms(2,1)] .
  have "fst (sendAndWait ?ss ws (d_cc w)) \<longleftrightarrow> 3 * length unis \<le> length ws \<and>
      list_all (\<lambda>x. fst x = WaitSuccess) (take (3 * length unis) ws)"
    using sendAndWait_success [of ?ss ws "d_cc w"] by (simp only: length_map length_bridgeRequests)
  then show ?thesis
    by (cases "sendAndWait ?ss ws (d_cc w)")
      (auto simp: performInitialBridgeSetup_def t panic_simps fireDl_outcome
        bridge_phase.done_phase bridge_phase.reset_phase)
qed

lemma performInitialBridgeSetup_exact_witness:
  "\<exists>s'. performInitialBridgeSetup permissive_lib [example_uni] (replicate 3 (quiet WaitSuccess))
     (dlStBridgeInit, snd (newMibDownload example_cc MibDatabaseSync)) = Done s' \<and> fst s' = dlStDownloaded"
proof -
  have "ccHasEntry (d_cc (snd (newMibDownload example_cc MibDatabaseSync)))"
    by (simp add: newMibDownload_def example_cc_def newOmciCC_def)
  moreover have "keeps_entry (replicate 3 (quiet WaitSuccess))"
    by (simp add: keeps_entry_def quiet_def)
  ultimately show ?thesis
    using performInitialBridgeSetup_exact [of "snd (newMibDownload example_cc MibDatabaseSync)"
        "replicate 3 (quiet WaitSuccess)" permissive_lib "[example_uni]"]
    by (auto simp: quiet_def eval_nat_numeral)
qed

text \<open>The events relayed to the device handler over the life of the entry.\<close>

fun relays :: "OnuDeviceEvent \<Rightarrow> OnuDeviceEvent list \<Rightarrow> OnuDeviceEvent list" where
  "relays st [] = []"
| "relays st (e # es) =
     (case transferSystemEvent e st of
        (st', None) \<Rightarrow> relays st' es
      | (st', Some e') \<Rightarrow> e' # relays st' es)"

lemma relays_done: "3 \<le> event_no st \<Longrightarrow> relays st es = []"
  by (induction es) (simp_all add: transferSystemEvent_def)

lemma relays_synced:
  "1 \<le> event_no st \<Longrightarrow> event_no st < 3 \<Longrightarrow>
   relays st es = (if MibDownloadDone \<in> set es then [MibDownloadDone] else [])"
  by (induction es) (auto simp: transferSystemEvent_def relays_done)

text \<open>C36: over the whole life of a device entry, whatever its machines report in whatever order, the
  synchronised MIB and the finished download are relayed at most once each and in this order: what
  is reported after a finished download, also by an ONU that went down and came back, is dropped.\<close>

theorem device_events_relayed_once:
  "relays DeviceStatusInit es \<in> {[], [MibDatabaseSync], [MibDownloadDone], [MibDatabaseSync, MibDownloadDone]} \<and>
   relays DeviceStatusInit (es @ MibDownloadDone # es') = relays DeviceStatusInit (es @ [MibDownloadDone])"
  by (induction es) (auto simp: transferSystemEvent_def relays_done relays_synced)

text \<open>A reboot is never acknowledged: whatever answer arrives, or none, the reboot of the ONU
  fails or panics, because the layer of the right response is asserted to be that of another.\<close>

lemma reboot_never_acknowledged:
  "reboot lib data env oo \<noteq> Done (None, oo')"
  by (cases data rule: option.exhaust)
    (auto simp: reboot_def sendReboot_def waitForRebootResponse_def panic_simps
      elim!: rebootLayer.elims split: option.splits Message.splits rxLayer.splits)

end
