(* ===== verification/Mib_Sync.thy ===== *)
theory Mib_Sync
  imports Device_Entry
begin

text \<open>
  The MIB synchronisation of a device entry (\<open>mib_sync.go\<close> and its table in
  \<open>onu_device_entry.go\<close>): the identification of the ONU, the MIB template in the KV store, the
  MIB upload, and the goroutines that serve its channel. Unlike the configuration machines
  its message loop knows no abort message, so a goroutine that serves it never ends.

  \<open>encoding/json\<close>, the clock and the answers of the KV store are arguments (\<open>mibEnv\<close>).
\<close>

section \<open>Values\<close>

text \<open>\<open>fmt.Sprintf("%s", v)\<close>; how a float is printed is the argument \<open>pf\<close>,
  an object is given in the ascending order of its keys.\<close>

fun Sprintf_s :: "(rat \<Rightarrow> string) \<Rightarrow> attr_val \<Rightarrow> string" where
  "Sprintf_s pf (AStr s) = s"
| "Sprintf_s pf (AOctets bs) = map (\<lambda>b. char_of (unat b)) bs"
| "Sprintf_s pf ANil = ''%!s(<nil>)''"
| "Sprintf_s pf (AU8 n) = ''%!s(uint8='' @ format_nat (unat n) @ '')''"
| "Sprintf_s pf (AU16 n) = ''%!s(uint16='' @ format_nat (unat n) @ '')''"
| "Sprintf_s pf (AU32 n) = ''%!s(uint32='' @ format_nat (unat n) @ '')''"
| "Sprintf_s pf (AInt n) =
     ''%!s(int='' @ (if n < 0 then ''-'' else []) @ format_nat (nat \<bar>n\<bar>) @ '')''"
| "Sprintf_s pf (AFloat r) = ''%!s(float64='' @ pf r @ '')''"
| "Sprintf_s pf (AU16s ws) =
     ''['' @ go_join (CHR '' '') (map (\<lambda>n. ''%!s(uint16='' @ format_nat (unat n) @ '')'') ws) @ '']''"
| "Sprintf_s pf (ABool b) = (if b then ''%!s(bool=true)'' else ''%!s(bool=false)'')"
| "Sprintf_s pf (AArr vs) = ''['' @ go_join (CHR '' '') (map (Sprintf_s pf) vs) @ '']''"
| "Sprintf_s pf (AObj kvs) =
     ''map['' @ go_join (CHR '' '') (map (\<lambda>(k, v). k @ '':'' @ Sprintf_s pf v) kvs) @ '']''"

text \<open>
  \<open>me.InterfaceToOctets\<close>, of which the sources ignore the error: without octets the result
  is nil. It reflects on the type of its argument, which panics for nil.
\<close>

fun InterfaceToOctets :: "attr_val \<Rightarrow> u8 list outcome" where
  "InterfaceToOctets (AOctets bs) = Done bs"
| "InterfaceToOctets (AU16s ws) = Done (concat (map PutUint16 ws))"
| "InterfaceToOctets ANil = Panic NilDeref"
| "InterfaceToOctets _ = Done []"

text \<open>\<open>strings.Replace(s, old, new, -1)\<close> for a nonempty \<open>old\<close>.\<close>

fun go_replace :: "string \<Rightarrow> string \<Rightarrow> string \<Rightarrow> string" where
  "go_replace old new [] = []"
| "go_replace old new (c # s) =
     (if old \<noteq> [] \<and> take (length old) (c # s) = old
      then new @ go_replace old new (drop (length old - 1) s)
      else c # go_replace old new s)"

section \<open>State\<close>

datatype ulEvent = ulEvStart | ulEvResetMib | ulEvGetVendorAndSerial | ulEvGetEquipmentID
  | ulEvGetFirstSwVersion | ulEvGetSecondSwVersion | ulEvGetMacAddress | ulEvGetMibTemplate
  | ulEvUploadMib | ulEvExamineMds | ulEvSuccess | ulEvMismatch | ulEvAuditMib | ulEvForceResync
  | ulEvDiffsFound | ulEvTimeout | ulEvStop

datatype ulState = ulStDisabled | ulStStarting | ulStResettingMib | ulStGettingVendorAndSerial
  | ulStGettingEquipmentID | ulStGettingFirstSwVersion | ulStGettingSecondSwVersion
  | ulStGettingMacAddress | ulStGettingMibTemplate | ulStUploading | ulStInSync | ulStExaminingMds
  | ulStResynchronizing | ulStAuditing | ulStOutOfSync

definition ulEvents :: "(ulEvent, ulState) EventDesc list" where
  "ulEvents =
     [ev ulEvStart [ulStDisabled] ulStStarting,
      ev ulEvResetMib [ulStStarting] ulStResettingMib,
      ev ulEvGetVendorAndSerial [ulStResettingMib] ulStGettingVendorAndSerial,
      ev ulEvGetEquipmentID [ulStGettingVendorAndSerial] ulStGettingEquipmentID,
      ev ulEvGetFirstSwVersion [ulStGettingEquipmentID] ulStGettingFirstSwVersion,
      ev ulEvGetSecondSwVersion [ulStGettingFirstSwVersion] ulStGettingSecondSwVersion,
      ev ulEvGetMacAddress [ulStGettingSecondSwVersion] ulStGettingMacAddress,
      ev ulEvGetMibTemplate [ulStGettingMacAddress] ulStGettingMibTemplate,
      ev ulEvUploadMib [ulStGettingMibTemplate] ulStUploading,
      ev ulEvExamineMds [ulStStarting] ulStExaminingMds,
      ev ulEvSuccess [ulStGettingMibTemplate] ulStInSync,
      ev ulEvSuccess [ulStUploading] ulStInSync,
      ev ulEvSuccess [ulStExaminingMds] ulStInSync,
      ev ulEvMismatch [ulStExaminingMds] ulStResynchronizing,
      ev ulEvAuditMib [ulStInSync] ulStAuditing,
      ev ulEvSuccess [ulStOutOfSync] ulStInSync,
      ev ulEvAuditMib [ulStOutOfSync] ulStAuditing,
      ev ulEvSuccess [ulStAuditing] ulStInSync,
      ev ulEvMismatch [ulStAuditing] ulStResynchronizing,
      ev ulEvForceResync [ulStAuditing] ulStResynchronizing,
      ev ulEvSuccess [ulStResynchronizing] ulStInSync,
      ev ulEvDiffsFound [ulStResynchronizing] ulStOutOfSync,
      ev ulEvTimeout [ulStResettingMib, ulStGettingVendorAndSerial, ulStGettingEquipmentID,
        ulStGettingFirstSwVersion, ulStGettingSecondSwVersion, ulStGettingMacAddress,
        ulStGettingMibTemplate, ulStUploading, ulStResynchronizing, ulStExaminingMds, ulStInSync,
        ulStOutOfSync, ulStAuditing] ulStStarting,
      ev ulEvStop [ulStStarting, ulStResettingMib, ulStGettingVendorAndSerial, ulStGettingEquipmentID,
        ulStGettingFirstSwVersion, ulStGettingSecondSwVersion, ulStGettingMacAddress,
        ulStGettingMibTemplate, ulStUploading, ulStResynchronizing, ulStExaminingMds, ulStInSync,
        ulStOutOfSync, ulStAuditing] ulStDisabled]"

text \<open>
  The part of the device entry that the synchronisation works on. \<open>m_servers\<close> is the number
  of goroutines that run \<open>processMibSyncMessages\<close>, \<open>m_kv\<close> the templates in the KV store.
\<close>

record mibSync =
  m_cc :: omciCC
  m_db :: "onuDeviceDB option"
  m_comm :: "Message list"
  m_servers :: nat
  m_vendorID :: string
  m_serialNumber :: string
  m_equipmentID :: string
  m_swImages :: "swImages list"
  m_activeSwVersion :: string
  m_macAddress :: string
  m_devState :: OnuDeviceEvent
  m_relayed :: "OnuDeviceEvent list"
  m_kv :: "string \<rightharpoonup> string"
  m_crash :: "panic option"

definition newMibSync :: "omciCC \<Rightarrow> (string \<rightharpoonup> string) \<Rightarrow> ulState \<times> mibSync" where
  "newMibSync cc kv =
     (ulStDisabled,
      \<lparr>m_cc = cc, m_db = None, m_comm = [], m_servers = 0, m_vendorID = [], m_serialNumber = [],
       m_equipmentID = [],
       m_swImages = replicate (secondSwImageMeID + 1) \<lparr>sw_version = [], sw_isActive = 0\<rparr>,
       m_activeSwVersion = [], m_macAddress = [], m_devState = DeviceStatusInit, m_relayed = [],
       m_kv = kv, m_crash = None\<rparr>)"

record mibEnv =
  me_marshal :: "(string \<times> attr_val) list \<Rightarrow> string option"
  me_unmarshal :: "string \<Rightarrow> (string \<times> attr_val) list option"
  me_printFloat :: "rat \<Rightarrow> string"
  me_now :: string
  me_getOk :: bool
  me_putOk :: bool

text \<open>
  The environment of a step: \<open>json.Marshal\<close> and \<open>json.Unmarshal\<close>, the printing of floats, the
  clock, and whether \<open>Get\<close> and \<open>Put\<close> of the KV store succeed.
\<close>

section \<open>The MIB template\<close>

definition supportedClassIds :: "classID list" where
  "supportedClassIds = [5, 6, 7, 11, 131, 133, 134, 256, 257, 262, 263, 264, 277, 278, 329, 332, 336]"

definition isSupportedClassID :: "classID \<Rightarrow> bool" where
  "isSupportedClassID meClassID = list_ex (\<lambda>v. v = meClassID) supportedClassIds"

text \<open>\<open>fmt.Sprintf(cSuffixMibTemplateKvStore, \<dots>)\<close>.\<close>

definition templatePath :: "mibSync \<Rightarrow> string" where
  "templatePath w = m_vendorID w @ ''/'' @ m_equipmentID w @ ''/'' @ m_activeSwVersion w"

text \<open>
  The three nested loops over an unmarshalled template. The values of the first two levels and
  the attributes are asserted to be objects.
\<close>

type_synonym loadState = "onuDeviceDB \<times> bool"

definition loadAttributes :: "classID \<Rightarrow> u16 \<Rightarrow> string \<times> attr_val \<Rightarrow> loadState \<Rightarrow> loadState outcome" where
  "loadAttributes c i kv s =
     (if fst kv = ''Attributes'' then
        (case snd kv of
           AObj attributesMap \<Rightarrow> Done (PutMe c i attributesMap (fst s), True)
         | _ \<Rightarrow> Panic BadTypeAssertion)
      else Done s)"

definition loadInstance :: "classID \<Rightarrow> string \<times> attr_val \<Rightarrow> loadState \<Rightarrow> loadState outcome" where
  "loadInstance c kv s =
     (case ParseUint (fst kv) 10 16 of
        None \<Rightarrow> Done s
      | Some i \<Rightarrow>
          (case snd kv of
             AObj thirdLevelMap \<Rightarrow> fold_outcome (loadAttributes c (of_nat i)) thirdLevelMap s
           | _ \<Rightarrow> Panic BadTypeAssertion))"

definition loadClass :: "string \<times> attr_val \<Rightarrow> loadState \<Rightarrow> loadState outcome" where
  "loadClass kv s =
     (case ParseUint (fst kv) 10 16 of
        None \<Rightarrow> Done s
      | Some c \<Rightarrow>
          if isSupportedClassID (of_nat c) then
            (case snd kv of
               AObj secondLevelMap \<Rightarrow> fold_outcome (loadInstance (of_nat c)) secondLevelMap s
             | _ \<Rightarrow> Panic BadTypeAssertion)
          else Done s)"

definition swapTokens :: "mibSync \<Rightarrow> string \<Rightarrow> string" where
  "swapTokens w txt =
     go_replace ''%MAC_ADDRESS%'' (m_macAddress w) (go_replace ''%SERIAL_NUMBER%'' (m_serialNumber w) txt)"

text \<open>The template stored for the ONU is loaded into the data base; the flag says whether any
  managed entity was stored.\<close>

definition loadTemplate :: "mibEnv \<Rightarrow> mibSync \<Rightarrow> onuDeviceDB \<Rightarrow> loadState outcome" where
  "loadTemplate env w db =
     (if \<not> me_getOk env then Done (db, False)
      else
        (case m_kv w (templatePath w) of
           None \<Rightarrow> Done (db, False)
         | Some txt \<Rightarrow>
             (case me_unmarshal env (swapTokens w txt) of
                None \<Rightarrow> Done (db, False)
              | Some fistLevelMap \<Rightarrow> fold_outcome loadClass fistLevelMap (db, False))))"

text \<open>
  The placeholders. The attribute map of the data base is not copied, so they are also written
  into the data base.
\<close>

definition placeholders :: "classID \<Rightarrow> attrs \<Rightarrow> attrs" where
  "placeholders c a =
     (if c = 6 \<or> c = 256 then AList.update ''SerialNumber'' (AStr ''%SERIAL_NUMBER%'') (AList.delete ''SerialNumber'' a)
      else if c = 134 then AList.update ''MacAddress'' (AStr ''%MAC_ADDRESS%'') (AList.delete ''MacAddress'' a)
      else a)"

definition markDb :: "onuDeviceDB \<Rightarrow> onuDeviceDB" where
  "markDb db = \<lparr>meDb = map (\<lambda>(c, insts). (c, map (\<lambda>(i, a). (i, placeholders c a)) insts)) (meDb db)\<rparr>"

definition templateInstance :: "u16 \<times> attrs \<Rightarrow> string \<times> attr_val" where
  "templateInstance x =
     (let entityID = format_nat (unat (fst x)) in
      (entityID, AObj [(''Attributes'', AObj (snd x)), (''InstanceId'', AStr entityID)]))"

definition templateClass :: "classID \<times> (u16 \<times> attrs) list \<Rightarrow> string \<times> attr_val" where
  "templateClass x =
     (let classID = format_nat (unat (fst x)) in
      (classID, AObj (map templateInstance (snd x) @ [(''ClassId'', AStr classID)])))"

definition templateMap :: "mibEnv \<Rightarrow> mibSync \<Rightarrow> onuDeviceDB \<Rightarrow> (string \<times> attr_val) list" where
  "templateMap env w db =
     (''TemplateName'', AStr (templatePath w)) # (''TemplateCreated'', AStr (me_now env)) #
     map templateClass (meDb (markDb db))"

definition createAndPersistMibTemplate :: "mibEnv \<Rightarrow> mibSync \<Rightarrow> onuDeviceDB \<Rightarrow> mibSync" where
  "createAndPersistMibTemplate env w db =
     (let w1 = w\<lparr>m_db := Some (markDb db)\<rparr> in
      case me_marshal env (templateMap env w db) of
        None \<Rightarrow> w1
      | Some mibTemplate \<Rightarrow>
          if me_putOk env then w1\<lparr>m_kv := (m_kv w1)(templatePath w \<mapsto> mibTemplate)\<rparr> else w1)"

section \<open>Entry actions\<close>

definition crashing :: "mibSync outcome \<Rightarrow> mibSync \<Rightarrow> mibSync" where
  "crashing r w = (case r of Done w' \<Rightarrow> w' | Panic p \<Rightarrow> w\<lparr>m_crash := Some p\<rparr>)"

definition sendUl :: "(omciCC \<Rightarrow> (cc_error option \<times> omciCC) outcome) \<Rightarrow> mibSync \<Rightarrow> mibSync outcome" where
  "sendUl f w = bind_outcome (f (m_cc w)) (\<lambda>(_, cc). Done (w\<lparr>m_cc := cc\<rparr>))"

definition getUl :: "omciLib \<Rightarrow> classID \<Rightarrow> u16 \<Rightarrow> attrs \<Rightarrow> mibSync \<Rightarrow> mibSync outcome" where
  "getUl lib c i requestedAttributes w =
     bind_outcome (sendGetMe lib c i requestedAttributes ConstDefaultOmciTimeout True (m_cc w))
       (\<lambda>(m, cc). Done (w\<lparr>m_cc := cc\<lparr>pLastTxMeInstance := m\<rparr>\<rparr>))"

definition enterStartingState :: "mibSync \<Rightarrow> mibSync" where
  "enterStartingState w = w\<lparr>m_db := Some newOnuDeviceDB, m_servers := m_servers w + 1\<rparr>"

definition enterResettingMibState :: "omciLib \<Rightarrow> mibSync \<Rightarrow> mibSync outcome" where
  "enterResettingMibState lib w = sendUl (sendMibReset lib ConstDefaultOmciTimeout True) w"

definition enterGettingVendorAndSerialState :: "omciLib \<Rightarrow> mibSync \<Rightarrow> mibSync outcome" where
  "enterGettingVendorAndSerialState lib w =
     getUl lib OnuGClassID onugMeID [(''VendorId'', AStr []), (''SerialNumber'', AInt 0)] w"

definition enterGettingEquipmentIDState :: "omciLib \<Rightarrow> mibSync \<Rightarrow> mibSync outcome" where
  "enterGettingEquipmentIDState lib w = getUl lib Onu2GClassID onu2gMeID [(''EquipmentId'', AStr [])] w"

definition enterGettingFirstSwVersionState :: "omciLib \<Rightarrow> mibSync \<Rightarrow> mibSync outcome" where
  "enterGettingFirstSwVersionState lib w =
     getUl lib SoftwareImageClassID (of_nat firstSwImageMeID) [(''IsActive'', AInt 0), (''Version'', AStr [])] w"

definition enterGettingSecondSwVersionState :: "omciLib \<Rightarrow> mibSync \<Rightarrow> mibSync outcome" where
  "enterGettingSecondSwVersionState lib w =
     getUl lib SoftwareImageClassID (of_nat secondSwImageMeID) [(''IsActive'', AInt 0), (''Version'', AStr [])] w"

definition enterGettingMacAddressState :: "omciLib \<Rightarrow> mibSync \<Rightarrow> mibSync outcome" where
  "enterGettingMacAddressState lib w =
     getUl lib IpHostConfigDataClassID ipHostConfigDataMeID [(''MacAddress'', AStr [])] w"

text \<open>The version of the last active image, if any is active.\<close>

definition activeVersion :: "swImages list \<Rightarrow> string \<Rightarrow> string" where
  "activeVersion imgs v = fold (\<lambda>im v. if sw_isActive im > 0 then sw_version im else v) imgs v"

definition enterGettingMibTemplate :: "mibEnv \<Rightarrow> mibSync \<Rightarrow> mibSync outcome" where
  "enterGettingMibTemplate env w =
     (let w1 = w\<lparr>m_activeSwVersion := activeVersion (m_swImages w) (m_activeSwVersion w)\<rparr> in
      bind_outcome (deref (m_db w1)) (\<lambda>db.
        bind_outcome (loadTemplate env w1 db) (\<lambda>(db', meStoredFromTemplate).
          Done (w1\<lparr>m_db := Some db',
                   m_comm := m_comm w1 @ [TestMsg (if meStoredFromTemplate then LoadMibTemplateOk
                                                  else LoadMibTemplateFailed)]\<rparr>))))"

definition enterUploadingState :: "omciLib \<Rightarrow> mibSync \<Rightarrow> mibSync outcome" where
  "enterUploadingState lib w = sendUl (sendMibUpload lib ConstDefaultOmciTimeout True) w"

definition enterInSyncState :: "mibSync \<Rightarrow> mibSync" where
  "enterInSyncState w =
     (case transferSystemEvent MibDatabaseSync (m_devState w) of
        (st, None) \<Rightarrow> w\<lparr>m_devState := st\<rparr>
      | (st, Some e) \<Rightarrow> w\<lparr>m_devState := st, m_relayed := m_relayed w @ [e]\<rparr>)"

fun ul_enter :: "omciLib \<Rightarrow> mibEnv \<Rightarrow> ulState \<Rightarrow> mibSync \<Rightarrow> mibSync" where
  "ul_enter lib env ulStStarting w = enterStartingState w"
| "ul_enter lib env ulStResettingMib w = crashing (enterResettingMibState lib w) w"
| "ul_enter lib env ulStGettingVendorAndSerial w = crashing (enterGettingVendorAndSerialState lib w) w"
| "ul_enter lib env ulStGettingEquipmentID w = crashing (enterGettingEquipmentIDState lib w) w"
| "ul_enter lib env ulStGettingFirstSwVersion w = crashing (enterGettingFirstSwVersionState lib w) w"
| "ul_enter lib env ulStGettingSecondSwVersion w = crashing (enterGettingSecondSwVersionState lib w) w"
| "ul_enter lib env ulStGettingMacAddress w = crashing (enterGettingMacAddressState lib w) w"
| "ul_enter lib env ulStGettingMibTemplate w = crashing (enterGettingMibTemplate env w) w"
| "ul_enter lib env ulStUploading w = crashing (enterUploadingState lib w) w"
| "ul_enter lib env ulStInSync w = enterInSyncState w"
| "ul_enter lib env _ w = w"

definition fireUl :: "omciLib \<Rightarrow> mibEnv \<Rightarrow> ulEvent \<Rightarrow> ulState \<times> mibSync \<Rightarrow> ulState \<times> mibSync" where
  "fireUl lib env e s = runEvent ulEvents (ul_enter lib env) e s"

section \<open>Messages\<close>

fun handleTestMsg :: "omciLib \<Rightarrow> mibEnv \<Rightarrow> TestMessageType \<Rightarrow> ulState \<times> mibSync \<Rightarrow> ulState \<times> mibSync" where
  "handleTestMsg lib env LoadMibTemplateFailed s = fireUl lib env ulEvUploadMib s"
| "handleTestMsg lib env LoadMibTemplateOk s = fireUl lib env ulEvSuccess s"
| "handleTestMsg lib env _ s = s"

definition handleOmciMibResetResponseMessage ::
    "omciLib \<Rightarrow> mibEnv \<Rightarrow> rxPacket \<Rightarrow> ulState \<times> mibSync \<Rightarrow> ulState \<times> mibSync" where
  "handleOmciMibResetResponseMessage lib env packet s =
     (if fst s = ulStResettingMib then
        (case packet of
           Some (MibResetResponse result) \<Rightarrow>
             if result = me_Success then fireUl lib env ulEvGetVendorAndSerial s else fireUl lib env ulEvStop s
         | _ \<Rightarrow> fireUl lib env ulEvStop s)
      else fireUl lib env ulEvStop s)"

definition handleOmciMibUploadResponseMessage ::
    "omciLib \<Rightarrow> mibEnv \<Rightarrow> rxPacket \<Rightarrow> ulState \<times> mibSync \<Rightarrow> (ulState \<times> mibSync) outcome" where
  "handleOmciMibUploadResponseMessage lib env packet s =
     (case packet of
        Some (MibUploadResponse n) \<Rightarrow>
          (let w = (snd s)\<lparr>m_cc := (m_cc (snd s))\<lparr>uploadNoOfCmds := n\<rparr>\<rparr> in
           if uploadSequNo (m_cc w) < uploadNoOfCmds (m_cc w) then
             bind_outcome (sendUl (sendMibUploadNext lib ConstDefaultOmciTimeout True) w) (\<lambda>w'. Done (fst s, w'))
           else Done (fireUl lib env ulEvTimeout (fst s, w)))
      | _ \<Rightarrow> Done s)"

definition handleOmciMibUploadNextResponseMessage ::
    "omciLib \<Rightarrow> mibEnv \<Rightarrow> rxPacket \<Rightarrow> ulState \<times> mibSync \<Rightarrow> (ulState \<times> mibSync) outcome" where
  "handleOmciMibUploadNextResponseMessage lib env packet s =
     (case packet of
        Some (MibUploadNextResponse c i a) \<Rightarrow>
          bind_outcome (deref (m_db (snd s))) (\<lambda>db.
            let db' = PutMe c i a db; w = (snd s)\<lparr>m_db := Some db'\<rparr> in
            if uploadSequNo (m_cc w) < uploadNoOfCmds (m_cc w) then
              bind_outcome (sendUl (sendMibUploadNext lib ConstDefaultOmciTimeout True) w) (\<lambda>w'. Done (fst s, w'))
            else Done (fireUl lib env ulEvSuccess (fst s, createAndPersistMibTemplate env w db')))
      | _ \<Rightarrow> Done s)"

text \<open>
  The branches of \<open>handleOmciGetResponseMessage\<close> for a positive response to the last request;
  each stores what the response brought and fires the next event. A serial number or MAC
  address of the wrong length is skipped.
\<close>

definition gotOnuG :: "omciLib \<Rightarrow> mibEnv \<Rightarrow> attrs \<Rightarrow> ulState \<times> mibSync \<Rightarrow> (ulState \<times> mibSync) outcome" where
  "gotOnuG lib env meAttributes s =
     bind_outcome (InterfaceToOctets (attr_at meAttributes ''SerialNumber'')) (\<lambda>snBytes.
       let w = (snd s)\<lparr>m_vendorID := Sprintf_s (me_printFloat env) (attr_at meAttributes ''VendorId'')\<rparr>;
           w' = (if length snBytes = onugSerialNumberLen
                 then w\<lparr>m_serialNumber := map (\<lambda>b. char_of (unat b)) (take 4 snBytes) @ hexEncode (drop 4 snBytes)\<rparr>
                 else w)
       in Done (fireUl lib env ulEvGetEquipmentID (fst s, w')))"

definition gotOnu2G :: "omciLib \<Rightarrow> mibEnv \<Rightarrow> attrs \<Rightarrow> ulState \<times> mibSync \<Rightarrow> (ulState \<times> mibSync) outcome" where
  "gotOnu2G lib env meAttributes s =
     Done (fireUl lib env ulEvGetFirstSwVersion
       (fst s, (snd s)\<lparr>m_equipmentID := Sprintf_s (me_printFloat env) (attr_at meAttributes ''EquipmentId'')\<rparr>))"

definition storeSwImage :: "mibEnv \<Rightarrow> u16 \<Rightarrow> attrs \<Rightarrow> mibSync \<Rightarrow> mibSync outcome" where
  "storeSwImage env e meAttributes w =
     (if unat e \<le> secondSwImageMeID then
        bind_outcome (go_index (m_swImages w) (unat e)) (\<lambda>_.
          case attr_at meAttributes ''IsActive'' of
            AU8 act \<Rightarrow>
              Done (w\<lparr>m_swImages := (m_swImages w)[unat e :=
                \<lparr>sw_version = Sprintf_s (me_printFloat env) (attr_at meAttributes ''Version''),
                 sw_isActive = act\<rparr>]\<rparr>)
          | _ \<Rightarrow> Panic BadTypeAssertion)
      else Done w)"

definition gotSoftwareImage :: "omciLib \<Rightarrow> mibEnv \<Rightarrow> u16 \<Rightarrow> attrs \<Rightarrow> ulState \<times> mibSync \<Rightarrow> (ulState \<times> mibSync) outcome" where
  "gotSoftwareImage lib env e meAttributes s =
     bind_outcome (storeSwImage env e meAttributes (snd s))
       (\<lambda>w. Done (fireUl lib env
          (if unat e = firstSwImageMeID then ulEvGetSecondSwVersion
           else if unat e = secondSwImageMeID then ulEvGetMacAddress else ulEvStop) (fst s, w)))"

definition gotIpHostConfigData :: "omciLib \<Rightarrow> mibEnv \<Rightarrow> attrs \<Rightarrow> ulState \<times> mibSync \<Rightarrow> (ulState \<times> mibSync) outcome" where
  "gotIpHostConfigData lib env meAttributes s =
     bind_outcome (InterfaceToOctets (attr_at meAttributes ''MacAddress'')) (\<lambda>macBytes.
       let w = (if length macBytes = omciMacAddressLen then (snd s)\<lparr>m_macAddress := hexEncode macBytes\<rparr>
                else snd s)
       in Done (fireUl lib env ulEvGetMibTemplate (fst s, w)))"

definition handleOmciGetResponseMessage ::
    "omciLib \<Rightarrow> mibEnv \<Rightarrow> rxPacket \<Rightarrow> ulState \<times> mibSync \<Rightarrow> (ulState \<times> mibSync) outcome" where
  "handleOmciGetResponseMessage lib env packet s =
     (case packet of
        Some (GetResponse c e result meAttributes) \<Rightarrow>
          if result = me_Success then
            bind_outcome (matchLastTx (pLastTxMeInstance (m_cc (snd s))) c e) (\<lambda>r.
              case r of
                None \<Rightarrow> Done (fireUl lib env ulEvStop s)
              | Some meInstance \<Rightarrow>
                  if meInstance = ''OnuG'' then gotOnuG lib env meAttributes s
                  else if meInstance = ''Onu2G'' then gotOnu2G lib env meAttributes s
                  else if meInstance = ''SoftwareImage'' then gotSoftwareImage lib env e meAttributes s
                  else if meInstance = ''IpHostConfigData'' then gotIpHostConfigData lib env meAttributes s
                  else Done (fireUl lib env ulEvStop s))
          else Done (fireUl lib env ulEvStop s)
      | _ \<Rightarrow> Done (fireUl lib env ulEvStop s))"

definition handleOmciMessage ::
    "omciLib \<Rightarrow> mibEnv \<Rightarrow> omciHeader \<Rightarrow> rxPacket \<Rightarrow> ulState \<times> mibSync \<Rightarrow> (ulState \<times> mibSync) outcome" where
  "handleOmciMessage lib env hdr packet s =
     (if hdrMessageType hdr = MibResetResponseType then
        Done (handleOmciMibResetResponseMessage lib env packet s)
      else if hdrMessageType hdr = MibUploadResponseType then handleOmciMibUploadResponseMessage lib env packet s
      else if hdrMessageType hdr = MibUploadNextResponseType then
        handleOmciMibUploadNextResponseMessage lib env packet s
      else if hdrMessageType hdr = GetResponseType then handleOmciGetResponseMessage lib env packet s
      else Done s)"

text \<open>One turn of the loop of \<open>processMibSyncMessages\<close>. The channel is never closed, so the
  loop has no other turn and no end.\<close>

fun processMibSyncMessage ::
    "omciLib \<Rightarrow> mibEnv \<Rightarrow> Message \<Rightarrow> ulState \<times> mibSync \<Rightarrow> (ulState \<times> mibSync) outcome" where
  "processMibSyncMessage lib env (TestMsg v) s = Done (handleTestMsg lib env v s)"
| "processMibSyncMessage lib env (OMCI hdr packet) s = handleOmciMessage lib env hdr packet s"

definition processMibSyncMessages ::
    "omciLib \<Rightarrow> mibEnv \<Rightarrow> Message list \<Rightarrow> ulState \<times> mibSync \<Rightarrow> (ulState \<times> mibSync) outcome" where
  "processMibSyncMessages lib env ms s = fold_outcome (processMibSyncMessage lib env) ms s"

section \<open>The steps of the synchronisation\<close>

text \<open>The events that the device handler fires.\<close>

definition ulExternal :: "ulEvent list" where
  "ulExternal = [ulEvStart, ulEvResetMib, ulEvExamineMds, ulEvStop]"

text \<open>
  A goroutine takes a message from the channel, a response arrives, the device handler fires
  an event, or other parts of the adapter use the OMCI channel, the KV store and the
  processing state of the device.
\<close>

inductive mib_step :: "omciLib \<Rightarrow> ulState \<times> mibSync \<Rightarrow> ulState \<times> mibSync \<Rightarrow> bool" for lib where
  ms_message: "m_servers w > 0 \<Longrightarrow> m_comm w = msg # ms \<Longrightarrow>
    processMibSyncMessage lib env msg (st, w\<lparr>m_comm := ms\<rparr>) = Done s' \<Longrightarrow> mib_step lib (st, w) s'"
| ms_receive: "mib_step lib (st, w) (st, w\<lparr>m_comm := m_comm w @ [OMCI hdr packet]\<rparr>)"
| ms_external: "e \<in> set ulExternal \<Longrightarrow> mib_step lib s (fireUl lib env e s)"
| ms_other: "mib_step lib (st, w) (st, w\<lparr>m_cc := cc, m_kv := kv, m_devState := ds\<rparr>)"

inductive mib_reach :: "omciLib \<Rightarrow> ulState \<times> mibSync \<Rightarrow> ulState \<times> mibSync \<Rightarrow> bool" for lib s where
  mr_init: "mib_reach lib s s"
| mr_step: "mib_reach lib s s' \<Longrightarrow> mib_step lib s' s'' \<Longrightarrow> mib_reach lib s s''"

inductive_cases mib_stepE: "mib_step lib s s'"

section \<open>The machine\<close>

lemmas ul_table = ulEvents_def NewFSM_def add_desc_def next_state_def

interpretation ul: fsm_machine ulEvents
  by unfold_locales (simp_all add: ul_table fsm_keys_def)

lemma fireUl_outcome:
  "fireUl lib env e (st, w) =
     (case NewFSM ulEvents (e, st) of None \<Rightarrow> (st, w) | Some t \<Rightarrow> (t, ul_enter lib env t w))"
  by (auto simp: fireUl_def runEvent_def ul.Event_outcome split: option.splits)

text \<open>The moves of the messages and of the device handler.\<close>

lemma ul_stop [simp]: "fireUl lib env ulEvStop (st, w) = (ulStDisabled, w)"
  by (cases st; simp add: fireUl_outcome ul_table)

lemma ul_moves [simp]:
  "fireUl lib env ulEvSuccess (ulStUploading, w) = (ulStInSync, enterInSyncState w)"
  "fireUl lib env ulEvSuccess (ulStGettingMibTemplate, w) = (ulStInSync, enterInSyncState w)"
  "fireUl lib env ulEvUploadMib (ulStGettingMibTemplate, w) = (ulStUploading, ul_enter lib env ulStUploading w)"
  "fireUl lib env ulEvTimeout (ulStUploading, w) = (ulStStarting, enterStartingState w)"
  "fireUl lib env ulEvStart (ulStDisabled, w) = (ulStStarting, enterStartingState w)"
  "fireUl lib env ulEvResetMib (ulStStarting, w) = (ulStResettingMib, ul_enter lib env ulStResettingMib w)"
  "fireUl lib env ulEvGetVendorAndSerial (ulStResettingMib, w) =
     (ulStGettingVendorAndSerial, ul_enter lib env ulStGettingVendorAndSerial w)"
  "fireUl lib env ulEvGetEquipmentID (ulStGettingVendorAndSerial, w) =
     (ulStGettingEquipmentID, ul_enter lib env ulStGettingEquipmentID w)"
  "fireUl lib env ulEvGetFirstSwVersion (ulStGettingEquipmentID, w) =
     (ulStGettingFirstSwVersion, ul_enter lib env ulStGettingFirstSwVersion w)"
  "fireUl lib env ulEvGetSecondSwVersion (ulStGettingFirstSwVersion, w) =
     (ulStGettingSecondSwVersion, ul_enter lib env ulStGettingSecondSwVersion w)"
  "fireUl lib env ulEvGetMacAddress (ulStGettingSecondSwVersion, w) =
     (ulStGettingMacAddress, ul_enter lib env ulStGettingMacAddress w)"
  "fireUl lib env ulEvGetMibTemplate (ulStGettingMacAddress, w) =
     (ulStGettingMibTemplate, ul_enter lib env ulStGettingMibTemplate w)"
  by (simp_all add: fireUl_outcome ul_table)

lemma inSync_fields [simp]:
  "m_cc (enterInSyncState w) = m_cc w" "m_db (enterInSyncState w) = m_db w"
  "m_comm (enterInSyncState w) = m_comm w" "m_servers (enterInSyncState w) = m_servers w"
  "m_swImages (enterInSyncState w) = m_swImages w" "m_crash (enterInSyncState w) = m_crash w"
  "m_kv (enterInSyncState w) = m_kv w"
  by (simp_all add: enterInSyncState_def split: prod.split option.split)

lemma persist_fields [simp]:
  "m_cc (createAndPersistMibTemplate env w db) = m_cc w"
  "m_db (createAndPersistMibTemplate env w db) = Some (markDb db)"
  "m_comm (createAndPersistMibTemplate env w db) = m_comm w"
  "m_servers (createAndPersistMibTemplate env w db) = m_servers w"
  "m_swImages (createAndPersistMibTemplate env w db) = m_swImages w"
  "m_crash (createAndPersistMibTemplate env w db) = m_crash w"
  "m_devState (createAndPersistMibTemplate env w db) = m_devState w"
  by (simp_all add: createAndPersistMibTemplate_def Let_def split: option.split)

end
