(* ===== verification/Mib_Upload.thy ===== *)
theory Mib_Upload
  imports Mib_Sync
begin

text \<open>
  What the MIB synchronisation achieves: the upload asks for exactly the announced commands
  and leaves in the data base what a map-level specification of a MIB says; the identification
  of the ONU; the goroutines that accumulate; and the conformance of the entry's data that
  keeps its handlers from indexing out of range.
\<close>

section \<open>The upload\<close>

text \<open>Type and sequence number of the requests in the transmit queue.\<close>

definition sentUl :: "omciCC \<Rightarrow> (omciRequestType \<times> u16) option list" where
  "sentUl oo = map (\<lambda>t. map_option (\<lambda>q. (rqType q, rqSequNo q)) (txFrame t)) (txQueue oo)"

lemma sendMibUploadNext_ok:
  assumes "ccHasEntry oo" and "\<And>rq. lib_serializes lib rq"
  obtains oo' where "sendMibUploadNext lib timeout hp oo = Done (None, oo')" and "ccHasEntry oo'"
    and "uploadSequNo oo' = uploadSequNo oo + 1" and "uploadNoOfCmds oo' = uploadNoOfCmds oo"
    and "sentUl oo' = sentUl oo @ [Some (MibUploadNextRequest, uploadSequNo oo)]"
proof -
  obtain t oo1 where t: "getNextTid hp oo = (t, oo1)" by fastforce
  then have f: "ccHasEntry oo1 = ccHasEntry oo" "uploadSequNo oo1 = uploadSequNo oo"
      "uploadNoOfCmds oo1 = uploadNoOfCmds oo" "txQueue oo1 = txQueue oo"
    by (auto simp: getNextTid_def Let_def split: if_splits)
  have "\<exists>oo'. sendMibUploadNext lib timeout hp oo = Done (None, oo') \<and> ccHasEntry oo' \<and>
      uploadSequNo oo' = uploadSequNo oo + 1 \<and> uploadNoOfCmds oo' = uploadNoOfCmds oo \<and>
      sentUl oo' = sentUl oo @ [Some (MibUploadNextRequest, uploadSequNo oo)]"
    by (simp add: sendMibUploadNext_def sendPlain_def serialize_def serializeOmciLayer_def
        t f assms send_def sentUl_def)
  then show ?thesis using that by blast
qed

lemma u16_less_of_nat: "k < n \<Longrightarrow> n < 65536 \<Longrightarrow> (of_nat k :: u16) < of_nat n"
  by (simp add: word_less_nat_alt unat_of_nat)

text \<open>The answers to the upload requests.\<close>

definition uploadAnswers :: "(classID \<times> u16 \<times> attrs) list \<Rightarrow> rxPacket list" where
  "uploadAnswers reports = map (\<lambda>(c, i, a). Some (MibUploadNextResponse c i a)) reports"

definition as_messages :: "u8 \<Rightarrow> rxPacket list \<Rightarrow> Message list" where
  "as_messages ty packets =
     map (OMCI \<lparr>TransactionID = 0x8000, hdrMessageType = ty, DeviceIdentifier = 10, hdrPayload = []\<rparr>) packets"

lemma upload_next_answers:
  assumes "\<And>rq. lib_serializes lib rq"
  shows "reports \<noteq> [] \<Longrightarrow> n + 1 = k + length reports \<Longrightarrow> n < 65536 \<Longrightarrow> ccHasEntry (m_cc w) \<Longrightarrow>
    m_db w = Some db \<Longrightarrow> uploadSequNo (m_cc w) = of_nat k \<Longrightarrow> uploadNoOfCmds (m_cc w) = of_nat n \<Longrightarrow>
    \<exists>w'. fold_outcome (processMibSyncMessage lib env)
        (as_messages MibUploadNextResponseType (uploadAnswers reports)) (ulStUploading, w) = Done (ulStInSync, w') \<and>
      m_db w' = Some (markDb (fold (\<lambda>(c, i, a). PutMe c i a) reports db)) \<and>
      sentUl (m_cc w') = sentUl (m_cc w) @ map (\<lambda>k. Some (MibUploadNextRequest, of_nat k)) [k..<n] \<and>
      m_comm w' = m_comm w \<and> m_servers w' = m_servers w"
proof (induction reports arbitrary: k w db)
  case (Cons r reports)
  obtain c i a where r: "r = (c, i, a)" by (cases r)
  let ?w = "w\<lparr>m_db := Some (PutMe c i a db)\<rparr>"
  note step = as_messages_def uploadAnswers_def r handleOmciMessage_def msg_types
    handleOmciMibUploadNextResponseMessage_def panic_simps Let_def
  show ?case
  proof (cases "reports = []")
    case True
    with Cons.prems show ?thesis by (simp add: step)
  next
    case False
    with Cons.prems(2) have "k < n" by (cases reports) auto
    have lt: "uploadSequNo (m_cc w) < uploadNoOfCmds (m_cc w)"
      by (simp only: Cons.prems(6,7) u16_less_of_nat [OF \<open>k < n\<close> Cons.prems(3)])
    obtain oo' where oo': "sendMibUploadNext lib ConstDefaultOmciTimeout True (m_cc ?w) = Done (None, oo')"
      "ccHasEntry oo'" "uploadSequNo oo' = uploadSequNo (m_cc w) + 1" "uploadNoOfCmds oo' = uploadNoOfCmds (m_cc w)"
      "sentUl oo' = sentUl (m_cc w) @ [Some (MibUploadNextRequest, uploadSequNo (m_cc w))]"
      using sendMibUploadNext_ok [of "m_cc w" lib ConstDefaultOmciTimeout True] Cons.prems(4) assms
      by auto
    have "\<exists>w'. fold_outcome (processMibSyncMessage lib env)
        (as_messages MibUploadNextResponseType (uploadAnswers reports)) (ulStUploading, ?w\<lparr>m_cc := oo'\<rparr>) =
          Done (ulStInSync, w') \<and>
        m_db w' = Some (markDb (fold (\<lambda>(c, i, a). PutMe c i a) reports (PutMe c i a db))) \<and>
        sentUl (m_cc w') = sentUl oo' @ map (\<lambda>k. Some (MibUploadNextRequest, of_nat k)) [Suc k..<n] \<and>
        m_comm w' = m_comm w \<and> m_servers w' = m_servers w"
      using Cons.IH [of "Suc k" "?w\<lparr>m_cc := oo'\<rparr>" "PutMe c i a db"] False Cons.prems oo' by simp
    with lt oo'(1,5) Cons.prems(5,6) \<open>k < n\<close> show ?thesis
      by (simp add: step sendUl_def upt_conv_Cons)
  qed
qed simp

definition uploadDialogue :: "(classID \<times> u16 \<times> attrs) list \<Rightarrow> Message list" where
  "uploadDialogue reports =
     as_messages MibUploadResponseType [Some (MibUploadResponse (of_nat (length reports)))] @
     as_messages MibUploadNextResponseType (uploadAnswers reports)"

lemma upload_run:
  assumes "\<And>rq. lib_serializes lib rq" and "ccHasEntry (m_cc w)" and "m_db w = Some db"
    and "uploadSequNo (m_cc w) = 0" and "reports \<noteq> []" and "length reports < 65536"
  shows "\<exists>w'. processMibSyncMessages lib env (uploadDialogue reports) (ulStUploading, w) = Done (ulStInSync, w') \<and>
    m_db w' = Some (markDb (fold (\<lambda>(c, i, a). PutMe c i a) reports db)) \<and>
    sentUl (m_cc w') = sentUl (m_cc w) @ map (\<lambda>k. Some (MibUploadNextRequest, of_nat k)) [0..<length reports]"
proof -
  let ?n = "length reports"
  let ?w = "w\<lparr>m_cc := (m_cc w)\<lparr>uploadNoOfCmds := of_nat ?n\<rparr>\<rparr>"
  have lt: "uploadSequNo (m_cc ?w) < uploadNoOfCmds (m_cc ?w)"
    using u16_less_of_nat [of 0 ?n] assms(4,5,6) by simp
  obtain oo' where oo': "sendMibUploadNext lib ConstDefaultOmciTimeout True (m_cc ?w) = Done (None, oo')"
      "ccHasEntry oo'" "uploadSequNo oo' = uploadSequNo (m_cc ?w) + 1" "uploadNoOfCmds oo' = uploadNoOfCmds (m_cc ?w)"
      "sentUl oo' = sentUl (m_cc ?w) @ [Some (MibUploadNextRequest, uploadSequNo (m_cc ?w))]"
    using sendMibUploadNext_ok [of "m_cc ?w" lib ConstDefaultOmciTimeout True] assms(1,2) by auto
  let ?w1 = "?w\<lparr>m_cc := oo'\<rparr>"
  have "processMibSyncMessages lib env (uploadDialogue reports) (ulStUploading, w) =
      fold_outcome (processMibSyncMessage lib env)
        (as_messages MibUploadNextResponseType (uploadAnswers reports)) (ulStUploading, ?w1)"
    using lt oo'(1)
    by (simp add: processMibSyncMessages_def uploadDialogue_def as_messages_def handleOmciMessage_def msg_types
        handleOmciMibUploadResponseMessage_def panic_simps Let_def sendUl_def)
  moreover have "[0..<?n] = 0 # [Suc 0..<?n]" using assms(5) by (simp add: upt_conv_Cons)
  ultimately show ?thesis
    using upload_next_answers [OF assms(1,5), of ?n 1 ?w1 db env] oo' assms(3,4,6)
    by (auto simp: sentUl_def)
qed

text \<open>The specification: a MIB as a map from class and instance to attributes.\<close>

type_synonym mib = "classID \<times> u16 \<Rightarrow> (string \<rightharpoonup> attr_val) option"

definition mibOf :: "onuDeviceDB \<Rightarrow> mib" where
  "mibOf db = (\<lambda>(c, i). lookup_me db c i)"

fun mibReport :: "classID \<times> u16 \<times> attrs \<Rightarrow> mib \<Rightarrow> mib" where
  "mibReport (c, i, a) M =
     (if c = OnuDataClassID then M
      else M((c, i) \<mapsto> (case M (c, i) of None \<Rightarrow> Map.empty | Some m \<Rightarrow> m) ++ map_of a))"

definition mibMark :: "mib \<Rightarrow> mib" where
  "mibMark M = (\<lambda>(c, i). map_option
     (\<lambda>m. if c = 6 \<or> c = 256 then m(''SerialNumber'' \<mapsto> AStr ''%SERIAL_NUMBER%'')
          else if c = 134 then m(''MacAddress'' \<mapsto> AStr ''%MAC_ADDRESS%'') else m) (M (c, i)))"

lemma map_of_map_values:
  "map_of (map (\<lambda>(k, v). (k, f k v)) xs) k = map_option (f k) (map_of xs k)"
  by (induction xs) auto

lemma map_of_placeholders:
  "map_of (placeholders c a) =
     (if c = 6 \<or> c = 256 then (map_of a)(''SerialNumber'' \<mapsto> AStr ''%SERIAL_NUMBER%'')
      else if c = 134 then (map_of a)(''MacAddress'' \<mapsto> AStr ''%MAC_ADDRESS%'') else map_of a)"
  by (auto simp: placeholders_def update_conv' delete_conv')

lemma mibOf_markDb: "mibOf (markDb db) = mibMark (mibOf db)"
proof (rule ext)
  fix x :: "classID \<times> u16"
  obtain c i where x: "x = (c, i)" by (cases x)
  have "GetMe (markDb db) c i = map_option (placeholders c) (GetMe db c i)"
    by (simp add: GetMe_def instances_def markDb_def map_of_map_values split: option.split)
  then show "mibOf (markDb db) x = mibMark (mibOf db) x"
    by (simp add: x mibOf_def mibMark_def lookup_me_def option.map_comp comp_def map_of_placeholders
        cong: option.map_cong)
qed

lemma mibOf_PutMe:
  assumes "db_wf db" and "distinct (map fst a)"
  shows "mibOf (PutMe c i a db) = mibReport (c, i, a) (mibOf db)"
proof (cases "c = OnuDataClassID")
  case True
  then show ?thesis by (simp add: onu_db.put_hidden)
next
  case False
  with onu_db.get_put [OF assms(1) False assms(2)] onu_db.get_put_other [OF assms(1), of c i]
  show ?thesis by (auto simp: mibOf_def fun_eq_iff)
qed

lemma mibOf_reports:
  "db_wf db \<Longrightarrow> list_all (\<lambda>(c, i, a). distinct (map fst a)) reports \<Longrightarrow>
   mibOf (fold (\<lambda>(c, i, a). PutMe c i a) reports db) = fold mibReport reports (mibOf db)"
  by (induction reports arbitrary: db) (auto simp: mibOf_PutMe db_wf_PutMe)

section \<open>Properties of the upload\<close>

text \<open>An environment whose codec knows nothing.\<close>

definition example_env :: mibEnv where
  "example_env = \<lparr>me_marshal = (\<lambda>_. None), me_unmarshal = (\<lambda>_. None), me_printFloat = (\<lambda>_. []),
     me_now = [], me_getOk = True, me_putOk = True\<rparr>"

definition example_mib :: mibSync where
  "example_mib = (snd (newMibSync example_cc Map.empty))\<lparr>m_db := Some newOnuDeviceDB\<rparr>"

text \<open>C37: an upload of \<open>n\<close> commands sends exactly \<open>n\<close> further requests, numbered from 0 in
  order, stores every reported managed entity, and ends in sync. On the level of MIBs as maps
  the data base refines the specification: reports are merged one by one, those of ONU-Data
  are dropped, and finally the serial number of every ONU-G and circuit pack and the MAC address
  of every IP host are the placeholders of the template, not what the ONU reported.\<close>

theorem mib_upload_refines:
  assumes "\<And>rq. lib_serializes lib rq" and "ccHasEntry (m_cc w)"
    and "m_db w = Some db" and "db_wf db" and "uploadSequNo (m_cc w) = 0"
    and "reports \<noteq> []" and "length reports < 65536" and "list_all (\<lambda>(c, i, a). distinct (map fst a)) reports"
  shows "\<exists>w' db'. processMibSyncMessages lib env (uploadDialogue reports) (ulStUploading, w) = Done (ulStInSync, w') \<and>
    m_db w' = Some db' \<and> mibOf db' = mibMark (fold mibReport reports (mibOf db)) \<and>
    sentUl (m_cc w') = sentUl (m_cc w) @ map (\<lambda>k. Some (MibUploadNextRequest, of_nat k)) [0..<length reports]"
  using upload_run [OF assms(1,2,3,5,6,7), of env] mibOf_reports [OF assms(4,8)]
  by (auto simp: mibOf_markDb)

theorem mib_upload_refines_witness:
  "\<exists>w' db'. processMibSyncMessages permissive_lib example_env
      (uploadDialogue [(256, 0, [(''SerialNumber'', AOctets [66, 66])]), (264, 257, [])]) (ulStUploading, example_mib) =
      Done (ulStInSync, w') \<and> m_db w' = Some db' \<and>
    lookup_me db' 256 0 = Some [''SerialNumber'' \<mapsto> AStr ''%SERIAL_NUMBER%'']"
proof -
  have e: "ccHasEntry (m_cc example_mib)" "m_db example_mib = Some newOnuDeviceDB"
      "uploadSequNo (m_cc example_mib) = 0"
    by (simp_all add: example_mib_def newMibSync_def example_cc_def newOmciCC_def)
  obtain w' db' where w': "processMibSyncMessages permissive_lib example_env
      (uploadDialogue [(256, 0, [(''SerialNumber'', AOctets [66, 66])]), (264, 257, [])]) (ulStUploading, example_mib) =
      Done (ulStInSync, w')" "m_db w' = Some db'" and db': "mibOf db' = mibMark (fold mibReport
        [(256, 0, [(''SerialNumber'', AOctets [66, 66])]), (264, 257, [])] (mibOf newOnuDeviceDB))"
    using mib_upload_refines [OF _ e(1,2) db_wf_new e(3), of permissive_lib
        "[(256, 0, [(''SerialNumber'', AOctets [66, 66])]), (264, 257, [])]" example_env]
    by auto
  have "mibOf db' (256, 0) = Some [''SerialNumber'' \<mapsto> AStr ''%SERIAL_NUMBER%'']"
    unfolding db'
    by (simp add: mibMark_def mibOf_def lookup_me_def GetMe_def instances_def newOnuDeviceDB_def OnuDataClassID_def)
  then show ?thesis using w' by (auto simp: mibOf_def)
qed

section \<open>What a message can do\<close>

text \<open>The events that the handlers fire.\<close>

definition ulFired :: "ulEvent list" where
  "ulFired = [ulEvGetVendorAndSerial, ulEvGetEquipmentID, ulEvGetFirstSwVersion, ulEvGetSecondSwVersion,
     ulEvGetMacAddress, ulEvGetMibTemplate, ulEvUploadMib, ulEvSuccess, ulEvTimeout, ulEvStop]"

text \<open>A handler changes the data it may change and fires at most one of these events.\<close>

definition keeps_shape :: "mibSync \<Rightarrow> mibSync \<Rightarrow> bool" where
  "keeps_shape w w' \<longleftrightarrow> m_servers w' = m_servers w \<and> length (m_swImages w') = length (m_swImages w) \<and>
     (m_db w' = None \<longleftrightarrow> m_db w = None) \<and> ccHasEntry (m_cc w') = ccHasEntry (m_cc w)"

definition ul_local :: "omciLib \<Rightarrow> mibEnv \<Rightarrow> ulState \<times> mibSync \<Rightarrow> ulState \<times> mibSync \<Rightarrow> bool" where
  "ul_local lib env s s' \<longleftrightarrow> (\<exists>w1. keeps_shape (snd s) w1 \<and>
     (s' = (fst s, w1) \<or> (\<exists>e \<in> set ulFired. s' = fireUl lib env e (fst s, w1))))"

lemma keeps_shape_refl [simp]: "keeps_shape w w"
  by (simp add: keeps_shape_def)

lemma ul_local_stays: "keeps_shape w w1 \<Longrightarrow> ul_local lib env (st, w) (st, w1)"
  by (auto simp: ul_local_def)

lemma ul_local_fires:
  "keeps_shape w w1 \<Longrightarrow> e \<in> set ulFired \<Longrightarrow> ul_local lib env (st, w) (fireUl lib env e (st, w1))"
  by (auto simp: ul_local_def)

lemma ul_fired [simp]:
  "ulEvGetVendorAndSerial \<in> set ulFired" "ulEvGetEquipmentID \<in> set ulFired"
  "ulEvGetFirstSwVersion \<in> set ulFired" "ulEvGetSecondSwVersion \<in> set ulFired"
  "ulEvGetMacAddress \<in> set ulFired" "ulEvGetMibTemplate \<in> set ulFired" "ulEvUploadMib \<in> set ulFired"
  "ulEvSuccess \<in> set ulFired" "ulEvTimeout \<in> set ulFired" "ulEvStop \<in> set ulFired"
  by (simp_all add: ulFired_def)

lemma sendPlain_entry:
  assumes "sendPlain lib ty c sequ timeout hp ch upd oo = Done (e, oo')"
    and "\<And>oo. ccHasEntry (upd oo) = ccHasEntry oo"
  shows "ccHasEntry oo' = ccHasEntry oo"
proof -
  obtain t oo1 where t: "getNextTid hp oo = (t, oo1)" by fastforce
  then have f: "ccHasEntry oo1 = ccHasEntry oo" using getNextTid_frame by metis
  show ?thesis
  proof (cases "serialize lib ty c sequ 0 t")
    case None
    with assms(1) have "oo' = oo1" by (simp add: sendPlain_def t)
    with f show ?thesis by simp
  next
    case (Some pkt)
    with assms(1) have "ccHasEntry oo" by (cases "ccHasEntry oo") (simp_all add: sendPlain_def t)
    with assms(1) Some have "oo' = send (Some pkt) timeout 0 hp t
        \<lparr>cbRespChannel = ch, cbFunctionOf = Some ReceiveOmciResponse\<rparr> (upd oo1)"
      by (simp add: sendPlain_def t)
    then have "ccHasEntry oo' = ccHasEntry (upd oo1)" by (simp add: send_def)
    with assms(2) f show ?thesis by metis
  qed
qed


lemma uploadNext_shape:
  "sendUl (sendMibUploadNext lib timeout hp) w = Done w' \<Longrightarrow> keeps_shape w w'"
  by (auto simp: sendUl_def panic_simps sendMibUploadNext_def keeps_shape_def dest!: sendPlain_entry)

lemma reset_local: "ul_local lib env (st, w) (handleOmciMibResetResponseMessage lib env packet (st, w))"
  by (auto simp: handleOmciMibResetResponseMessage_def simp del: ul_stop ul_moves
      intro!: ul_local_fires split: option.split rxLayer.split)

lemma upload_local:
  assumes "handleOmciMibUploadResponseMessage lib env packet (st, w) = Done s'"
  shows "ul_local lib env (st, w) s'"
proof (cases "\<exists>n. packet = Some (MibUploadResponse n)")
  case True
  then obtain n where n: "packet = Some (MibUploadResponse n)" ..
  let ?w = "w\<lparr>m_cc := (m_cc w)\<lparr>uploadNoOfCmds := n\<rparr>\<rparr>"
  have k: "keeps_shape w ?w" by (simp add: keeps_shape_def)
  show ?thesis
  proof (cases "uploadSequNo (m_cc w) < n")
    case True
    with assms obtain w' where "sendUl (sendMibUploadNext lib ConstDefaultOmciTimeout True) ?w = Done w'"
        and s': "s' = (st, w')"
      by (auto simp: n handleOmciMibUploadResponseMessage_def panic_simps Let_def)
    with uploadNext_shape [OF this(1)] k show ?thesis
      by (auto intro!: ul_local_stays simp: keeps_shape_def)
  next
    case False
    with assms have "s' = fireUl lib env ulEvTimeout (st, ?w)"
      by (simp add: n handleOmciMibUploadResponseMessage_def Let_def)
    with k show ?thesis by (auto intro!: ul_local_fires)
  qed
next
  case False
  with assms show ?thesis
    by (auto simp: handleOmciMibUploadResponseMessage_def intro!: ul_local_stays
        split: option.splits rxLayer.splits)
qed

lemma persist_shape: "m_db w \<noteq> None \<Longrightarrow> keeps_shape w (createAndPersistMibTemplate env w db)"
  by (simp add: keeps_shape_def)

lemma upload_next_local:
  assumes "handleOmciMibUploadNextResponseMessage lib env packet (st, w) = Done s'"
  shows "ul_local lib env (st, w) s'"
proof (cases "\<exists>c i a. packet = Some (MibUploadNextResponse c i a)")
  case True
  then obtain c i a where n: "packet = Some (MibUploadNextResponse c i a)" by blast
  with assms obtain db where db: "m_db w = Some db"
    by (cases "m_db w") (auto simp: handleOmciMibUploadNextResponseMessage_def panic_simps)
  let ?w = "w\<lparr>m_db := Some (PutMe c i a db)\<rparr>"
  have k: "keeps_shape w ?w" by (simp add: keeps_shape_def db)
  show ?thesis
  proof (cases "uploadSequNo (m_cc w) < uploadNoOfCmds (m_cc w)")
    case True
    with assms obtain w' where "sendUl (sendMibUploadNext lib ConstDefaultOmciTimeout True) ?w = Done w'"
        and s': "s' = (st, w')"
      by (auto simp: n db handleOmciMibUploadNextResponseMessage_def panic_simps Let_def)
    with uploadNext_shape [OF this(1)] k show ?thesis
      by (auto intro!: ul_local_stays simp: keeps_shape_def)
  next
    case False
    with assms have "s' = fireUl lib env ulEvSuccess (st, createAndPersistMibTemplate env ?w (PutMe c i a db))"
      by (simp add: n db handleOmciMibUploadNextResponseMessage_def panic_simps Let_def)
    with k persist_shape [of ?w env] show ?thesis
      by (auto intro!: ul_local_fires simp: keeps_shape_def)
  qed
next
  case False
  with assms show ?thesis
    by (auto simp: handleOmciMibUploadNextResponseMessage_def intro!: ul_local_stays
        split: option.splits rxLayer.splits)
qed

lemma got_local:
  "gotOnuG lib env a (st, w) = Done s' \<Longrightarrow> ul_local lib env (st, w) s'"
  "gotOnu2G lib env a (st, w) = Done s' \<Longrightarrow> ul_local lib env (st, w) s'"
  "gotSoftwareImage lib env e a (st, w) = Done s' \<Longrightarrow> ul_local lib env (st, w) s'"
  "gotIpHostConfigData lib env a (st, w) = Done s' \<Longrightarrow> ul_local lib env (st, w) s'"
proof -
  show "gotOnuG lib env a (st, w) = Done s' \<Longrightarrow> ul_local lib env (st, w) s'"
    by (auto simp: gotOnuG_def panic_simps Let_def keeps_shape_def simp del: ul_stop ul_moves
        intro!: ul_local_fires)
  show "gotOnu2G lib env a (st, w) = Done s' \<Longrightarrow> ul_local lib env (st, w) s'"
    by (auto simp: gotOnu2G_def keeps_shape_def simp del: ul_stop ul_moves intro!: ul_local_fires)
  show "gotIpHostConfigData lib env a (st, w) = Done s' \<Longrightarrow> ul_local lib env (st, w) s'"
    by (auto simp: gotIpHostConfigData_def panic_simps Let_def keeps_shape_def simp del: ul_stop ul_moves
        intro!: ul_local_fires)
  let ?e = "if unat e = firstSwImageMeID then ulEvGetSecondSwVersion
    else if unat e = secondSwImageMeID then ulEvGetMacAddress else ulEvStop"
  assume "gotSoftwareImage lib env e a (st, w) = Done s'"
  then obtain w1 where w1: "storeSwImage env e a w = Done w1" and s': "s' = fireUl lib env ?e (st, w1)"
    by (auto simp only: gotSoftwareImage_def bind_outcome_Done_iff fst_conv snd_conv outcome.inject)
  from w1 have "keeps_shape w w1"
    by (auto simp: storeSwImage_def panic_simps keeps_shape_def split: if_split_asm attr_val.split_asm)
  then show "ul_local lib env (st, w) s'" unfolding s' by (rule ul_local_fires) simp
qed

lemma get_local:
  assumes "handleOmciGetResponseMessage lib env packet (st, w) = Done s'"
  shows "ul_local lib env (st, w) s'"
proof -
  have stop: "ul_local lib env (st, w) (fireUl lib env ulEvStop (st, w))"
    by (rule ul_local_fires) simp_all
  show ?thesis
  proof (cases "\<exists>c e a. packet = Some (GetResponse c e me_Success a)")
    case True
    then obtain c e a where "packet = Some (GetResponse c e me_Success a)" by blast
    with assms obtain m where "(case (if c = meClass m \<and> e = meEntity m then Some (GetName m) else None) of
        None \<Rightarrow> Done (fireUl lib env ulEvStop (st, w))
      | Some meInstance \<Rightarrow>
          if meInstance = ''OnuG'' then gotOnuG lib env a (st, w)
          else if meInstance = ''Onu2G'' then gotOnu2G lib env a (st, w)
          else if meInstance = ''SoftwareImage'' then gotSoftwareImage lib env e a (st, w)
          else if meInstance = ''IpHostConfigData'' then gotIpHostConfigData lib env a (st, w)
          else Done (fireUl lib env ulEvStop (st, w))) = Done s'"
      by (auto simp: handleOmciGetResponseMessage_def simp del: ul_stop dest!: matchLastTx_bindD)
    with stop show ?thesis
      by (auto simp del: ul_stop dest: got_local split: if_split_asm)
  next
    case False
    with assms have "s' = fireUl lib env ulEvStop (st, w)"
      by (auto simp: handleOmciGetResponseMessage_def simp del: ul_stop
          split: option.split_asm rxLayer.split_asm if_split_asm)
    with stop show ?thesis by simp
  qed
qed

lemma message_local:
  assumes "processMibSyncMessage lib env msg (st, w) = Done s'"
  shows "ul_local lib env (st, w) s'"
proof (cases msg)
  case (TestMsg v)
  with assms show ?thesis
    by (cases v) (auto simp del: ul_stop ul_moves intro: ul_local_fires ul_local_stays)
next
  case (OMCI hdr packet)
  with assms show ?thesis
    by (auto simp: handleOmciMessage_def intro: reset_local upload_local upload_next_local get_local
        ul_local_stays split: if_split_asm)
qed

section \<open>Conformance and goroutines\<close>

lemma ul_enter_shape:
  "m_servers (ul_enter lib env t w) = m_servers w + (if t = ulStStarting then 1 else 0)"
  "m_swImages (ul_enter lib env t w) = m_swImages w"
  "m_db w \<noteq> None \<or> t = ulStStarting \<Longrightarrow> m_db (ul_enter lib env t w) \<noteq> None"
  by (cases t; auto simp: crashing_def enterStartingState_def enterResettingMibState_def
      enterGettingVendorAndSerialState_def enterGettingEquipmentIDState_def enterGettingFirstSwVersionState_def
      enterGettingSecondSwVersionState_def enterGettingMacAddressState_def enterGettingMibTemplate_def
      enterUploadingState_def sendUl_def getUl_def Let_def panic_simps split: outcome.split prod.split)+

lemma starting_fields [simp]:
  "m_servers (enterStartingState w) = m_servers w + 1" "m_db (enterStartingState w) = Some newOnuDeviceDB"
  by (simp_all add: enterStartingState_def)

lemma fireUl_shape:
  "m_servers (snd (fireUl lib env e (st, w))) = m_servers w +
     (if fst (fireUl lib env e (st, w)) = ulStStarting \<and> st \<noteq> ulStStarting then 1 else 0)"
  "m_swImages (snd (fireUl lib env e (st, w))) = m_swImages w"
  by (auto simp: fireUl_outcome ul_enter_shape dest: ul.transition_moves split: option.split)









lemma ul_from_starting: "e \<in> set ulFired \<Longrightarrow> fst (fireUl lib env e (ulStStarting, w)) \<in> {ulStStarting, ulStDisabled}"
  by (auto simp: ulFired_def fireUl_outcome ul_table)








text \<open>C40: a goroutine that serves the synchronisation never ends: whatever happens, their number
  stays as it is, and every entry of the starting state adds one. So after a stop and a new
  start the messages of the ONU are taken by two goroutines at once.\<close>

theorem mib_servers_accumulate:
  assumes "mib_step lib (st, w) (st', w')"
  shows "m_servers w' = m_servers w + (if st' = ulStStarting \<and> st \<noteq> ulStStarting then 1 else 0) \<and>
    m_servers (snd (fireUl lib env ulEvStart (fireUl lib env ulEvStop (st', w')))) = m_servers w' + 1"
proof -
  have "m_servers w' = m_servers w + (if st' = ulStStarting \<and> st \<noteq> ulStStarting then 1 else 0)"
    using assms
  proof (cases rule: mib_step.cases)
    case (ms_message msg ms env)
    then obtain w1 where k: "m_servers w1 = m_servers w"
      and d: "(st', w') = (st, w1) \<or> (\<exists>e. (st', w') = fireUl lib env e (st, w1))"
      using message_local [OF ms_message(3)] by (auto simp: ul_local_def keeps_shape_def)
    from d show ?thesis
    proof (elim disjE exE)
      fix e assume e: "(st', w') = fireUl lib env e (st, w1)"
      from fireUl_shape(1) [of lib env e st w1] show ?thesis by (simp add: e [symmetric] k)
    qed (use k in auto)
  next
    case (ms_external e env)
    then have e: "(st', w') = fireUl lib env e (st, w)" by blast
    from fireUl_shape(1) [of lib env e st w] show ?thesis by (simp add: e [symmetric])
  qed auto
  then show ?thesis by simp
qed

theorem mib_servers_accumulate_witness:
  "m_servers (snd (fireUl permissive_lib example_env ulEvStart (fireUl permissive_lib example_env ulEvStop
     (ulStStarting, enterStartingState example_mib)))) = 2"
  using mib_servers_accumulate [of permissive_lib ulStDisabled example_mib ulStStarting
      "enterStartingState example_mib" example_env] ms_external [of ulEvStart permissive_lib "(ulStDisabled, example_mib)" example_env]
  by (simp add: ulExternal_def example_mib_def newMibSync_def)

text \<open>An upload that is announced with no command at all sends nothing and empties the data
  base; the synchronisation is back in its starting state, in which every message leaves it or
  stops it, served by one goroutine more than before.\<close>

lemma empty_upload_stuck:
  "\<exists>w'. processMibSyncMessages lib env (as_messages MibUploadResponseType [Some (MibUploadResponse 0)])
      (ulStUploading, w) = Done (ulStStarting, w') \<and>
    txQueue (m_cc w') = txQueue (m_cc w) \<and> m_db w' = Some newOnuDeviceDB \<and> m_servers w' = m_servers w + 1 \<and>
    (case processMibSyncMessage lib env msg (ulStStarting, w') of
       Done s \<Rightarrow> fst s = ulStStarting \<or> fst s = ulStDisabled | Panic p \<Rightarrow> True)"
proof -
  let ?w = "enterStartingState (w\<lparr>m_cc := (m_cc w)\<lparr>uploadNoOfCmds := 0\<rparr>\<rparr>)"
  have "processMibSyncMessages lib env (as_messages MibUploadResponseType [Some (MibUploadResponse 0)])
      (ulStUploading, w) = Done (ulStStarting, ?w)"
    by (simp add: processMibSyncMessages_def as_messages_def handleOmciMessage_def msg_types
        handleOmciMibUploadResponseMessage_def panic_simps Let_def)
  moreover have "fst s = ulStStarting \<or> fst s = ulStDisabled"
    if "processMibSyncMessage lib env msg (ulStStarting, ?w) = Done s" for s
    using message_local [OF that] ul_from_starting by (auto simp: ul_local_def)
  ultimately show ?thesis
    by (intro exI [of _ ?w]) (auto simp: enterStartingState_def split: outcome.split)
qed

end
