(* ===== verification/Mib_Template.thy ===== *)
theory Mib_Template
  imports Mib_Upload
begin

text \<open>
  The MIB template: the identification of the ONU that determines its path in the KV store,
  and the round trip of a template from the ONU whose upload created it to the next ONU of the
  same kind. What the JSON codec promises is an assumption of the round trip: reading back a
  written object gives an object with the same keys.
\<close>

section \<open>Identification\<close>

text \<open>Kind, class and instance of the requests in the transmit queue.\<close>

definition sentGets :: "omciCC \<Rightarrow> (omciRequestType \<times> classID \<times> u16) option list" where
  "sentGets oo = map (\<lambda>t. map_option (\<lambda>q. (rqType q, rqClass q, rqEntity q)) (txFrame t)) (txQueue oo)"

definition lib_complete :: "omciLib \<Rightarrow> bool" where
  "lib_complete lib \<longleftrightarrow> (\<forall>c p. lib_accepts lib c p) \<and> (\<forall>rq. lib_encodes lib rq) \<and> (\<forall>rq. lib_serializes lib rq)"

definition asked :: "omciLib \<Rightarrow> classID \<Rightarrow> u16 \<Rightarrow> attrs \<Rightarrow> omciCC \<Rightarrow> omciCC" where
  "asked lib c i a oo =
     (case sendGetMe lib c i a ConstDefaultOmciTimeout True oo of
        Done (m, cc) \<Rightarrow> cc\<lparr>pLastTxMeInstance := m\<rparr> | Panic _ \<Rightarrow> oo)"

lemma asked_facts:
  assumes "lib_complete lib" and "ccHasEntry oo"
  shows "ccHasEntry (asked lib c i a oo)"
    and "pLastTxMeInstance (asked lib c i a oo) = Some \<lparr>meClass = c, meEntity = i, meAttrs = a\<rparr>"
    and "sentGets (asked lib c i a oo) = sentGets oo @ [Some (GetRequest, c, i)]"
proof -
  obtain t oo1 where t: "getNextTid True oo = (t, oo1)" by fastforce
  then have f: "txQueue oo1 = txQueue oo" "ccHasEntry oo1 = ccHasEntry oo"
    by (auto simp: getNextTid_def Let_def split: if_splits)
  note unf = asked_def sendGetMe_def sendMeEntry_ok [OF assms(2)] sendMe_def prepareMe_def t f NewManagedEntity_def
    EncodeFrame_def serializeOmciLayer_def send_def sentGets_def
  show "ccHasEntry (asked lib c i a oo)"
    "pLastTxMeInstance (asked lib c i a oo) = Some \<lparr>meClass = c, meEntity = i, meAttrs = a\<rparr>"
    "sentGets (asked lib c i a oo) = sentGets oo @ [Some (GetRequest, c, i)]"
    using assms by (simp_all add: lib_complete_def unf)
qed

lemma getUl_asked:
  "ccHasEntry (m_cc w) \<Longrightarrow> getUl lib c i a w = Done (w\<lparr>m_cc := asked lib c i a (m_cc w)\<rparr>)"
  by (simp add: getUl_def asked_def sendGetMe_def sendMeEntry_ok panic_simps split: prod.split)

text \<open>The answers of an ONU that identifies itself.\<close>

record onuIdentity =
  idVendor :: attr_val
  idSerial :: "u8 list"
  idEquipment :: attr_val
  idImages :: "(attr_val \<times> u8) \<times> (attr_val \<times> u8)"
  idMac :: "u8 list"

definition identityDialogue :: "onuIdentity \<Rightarrow> Message list" where
  "identityDialogue d =
     as_messages MibResetResponseType [Some (MibResetResponse me_Success)] @
     as_messages GetResponseType
       [Some (GetResponse OnuGClassID 0 me_Success [(''VendorId'', idVendor d), (''SerialNumber'', AOctets (idSerial d))]),
        Some (GetResponse Onu2GClassID 0 me_Success [(''EquipmentId'', idEquipment d)]),
        Some (GetResponse SoftwareImageClassID 0 me_Success
          [(''Version'', fst (fst (idImages d))), (''IsActive'', AU8 (snd (fst (idImages d))))]),
        Some (GetResponse SoftwareImageClassID 1 me_Success
          [(''Version'', fst (snd (idImages d))), (''IsActive'', AU8 (snd (snd (idImages d))))]),
        Some (GetResponse IpHostConfigDataClassID 1 me_Success [(''MacAddress'', AOctets (idMac d))])]"

lemmas enter_get = enterGettingVendorAndSerialState_def enterGettingEquipmentIDState_def
  enterGettingFirstSwVersionState_def enterGettingSecondSwVersionState_def enterGettingMacAddressState_def

lemma me_names [simp]:
  "me_name OnuGClassID = ''OnuG''" "me_name Onu2GClassID = ''Onu2G''"
  "me_name SoftwareImageClassID = ''SoftwareImage''" "me_name IpHostConfigDataClassID = ''IpHostConfigData''"
  by (simp_all add: me_name_def class_ids)

text \<open>One answer at a time.\<close>

lemma answer_get:
  assumes "map_option (\<lambda>m. (meClass m, meEntity m)) (pLastTxMeInstance (m_cc w)) = Some (c, i)"
  shows "fold_outcome (processMibSyncMessage lib env)
      (as_messages GetResponseType (Some (GetResponse c i me_Success a) # ps)) (st, w) =
    bind_outcome
      (if me_name c = ''OnuG'' then gotOnuG lib env a (st, w)
       else if me_name c = ''Onu2G'' then gotOnu2G lib env a (st, w)
       else if me_name c = ''SoftwareImage'' then gotSoftwareImage lib env i a (st, w)
       else if me_name c = ''IpHostConfigData'' then gotIpHostConfigData lib env a (st, w)
       else Done (ulStDisabled, w))
      (fold_outcome (processMibSyncMessage lib env) (as_messages GetResponseType ps))"
  using assms
  by (auto simp: as_messages_def handleOmciMessage_def msg_types handleOmciGetResponseMessage_def
      panic_simps GetName_def)

text \<open>What the entry knows after the identification.\<close>

definition identified :: "mibEnv \<Rightarrow> onuIdentity \<Rightarrow> omciCC \<Rightarrow> mibSync \<Rightarrow> mibSync" where
  "identified env d cc w =
     (let p = Sprintf_s (me_printFloat env) in
      w\<lparr>m_vendorID := p (idVendor d),
        m_serialNumber := map (\<lambda>b. char_of (unat b)) (take 4 (idSerial d)) @ hexEncode (drop 4 (idSerial d)),
        m_equipmentID := p (idEquipment d),
        m_swImages := [\<lparr>sw_version = p (fst (fst (idImages d))), sw_isActive = snd (fst (idImages d))\<rparr>,
          \<lparr>sw_version = p (fst (snd (idImages d))), sw_isActive = snd (snd (idImages d))\<rparr>],
        m_cc := cc, m_macAddress := hexEncode (idMac d)\<rparr>)"

lemma crashing_Done [simp]: "crashing (Done w') w = w'"
  by (simp add: crashing_def)

lemma identification_chain:
  assumes "lib_complete lib" and "ccHasEntry (m_cc w)" and "length (m_swImages w) = 2"
    and "length (idSerial d) = 8" and "length (idMac d) = 6"
  shows "\<exists>cc. processMibSyncMessages lib env (identityDialogue d) (ulStResettingMib, w) =
      Done (ulStGettingMibTemplate, ul_enter lib env ulStGettingMibTemplate (identified env d cc w)) \<and>
    sentGets cc = sentGets (m_cc w) @ map (\<lambda>(c, i). Some (GetRequest, c, i))
      [(OnuGClassID, 0), (Onu2GClassID, 0), (SoftwareImageClassID, 0), (SoftwareImageClassID, 1),
       (IpHostConfigDataClassID, 1)]"
proof -
  obtain im0 im1 where im: "m_swImages w = [im0, im1]"
    using assms(3) by (auto simp: numeral_2_eq_2 length_Suc_conv)
  note facts = asked_facts [OF assms(1)]
  have reset: "fold_outcome (processMibSyncMessage lib env) (identityDialogue d) (ulStResettingMib, w) =
      fold_outcome (processMibSyncMessage lib env) (drop 1 (identityDialogue d))
        (ulStGettingVendorAndSerial, w\<lparr>m_cc := asked lib OnuGClassID 0 [(''VendorId'', AStr []), (''SerialNumber'', AInt 0)] (m_cc w)\<rparr>)"
    by (simp add: identityDialogue_def as_messages_def handleOmciMessage_def msg_types
        handleOmciMibResetResponseMessage_def panic_simps enter_get getUl_asked assms(2) me_ids)
  have nil: "as_messages GetResponseType [] = []" by (simp add: as_messages_def)
  let ?image = "[(''IsActive'', AInt 0), (''Version'', AStr [])]"
  let ?cc = "asked lib IpHostConfigDataClassID 1 [(''MacAddress'', AStr [])]
    (asked lib SoftwareImageClassID 1 ?image (asked lib SoftwareImageClassID 0 ?image
      (asked lib Onu2GClassID 0 [(''EquipmentId'', AStr [])]
        (asked lib OnuGClassID 0 [(''VendorId'', AStr []), (''SerialNumber'', AInt 0)] (m_cc w)))))"
  show ?thesis
    unfolding processMibSyncMessages_def reset
    by (rule exI [of _ ?cc], simp add: identityDialogue_def as_messages_def [of MibResetResponseType] answer_get nil
        gotOnuG_def gotOnu2G_def gotSoftwareImage_def storeSwImage_def gotIpHostConfigData_def identified_def
        attr_at_def me_ids panic_simps assms facts enter_get getUl_asked Let_def im)
qed

section \<open>Loading what was stored\<close>

text \<open>What the codec does to the values of an object when it is written, has its tokens swapped
  and is read back: objects keep their keys.\<close>

definition rereads :: "(attr_val \<Rightarrow> attr_val) \<Rightarrow> bool" where
  "rereads f \<longleftrightarrow> (\<forall>kvs. f (AObj kvs) = AObj (map (\<lambda>(k, v). (k, f v)) kvs))"

definition reread :: "(attr_val \<Rightarrow> attr_val) \<Rightarrow> (string \<times> attr_val) list \<Rightarrow> (string \<times> attr_val) list" where
  "reread f kvs = map (\<lambda>(k, v). (k, f v)) kvs"

lemma rereadsD: "rereads f \<Longrightarrow> f (AObj kvs) = AObj (reread f kvs)"
  by (simp add: rereads_def reread_def)

lemma reread_simps [simp]:
  "reread f [] = []" "reread f ((k, v) # kvs) = (k, f v) # reread f kvs"
  "reread f (xs @ ys) = reread f xs @ reread f ys"
  by (simp_all add: reread_def)

lemma map_of_reread: "map_of (reread f kvs) = map_option f \<circ> map_of kvs"
  by (induction kvs) (auto simp: reread_def)

lemma map_fst_reread [simp]: "map fst (reread f kvs) = map fst kvs"
  by (auto simp: reread_def)

lemma parse_u16 [simp]: "ParseUint (format_nat (unat (c :: u16))) 10 16 = Some (unat c)"
  using unat_u16_less [of c] by (simp add: ParseUint_format_nat)

lemma parse_keys [simp]:
  "ParseUint ''TemplateName'' 10 16 = None" "ParseUint ''TemplateCreated'' 10 16 = None"
  "ParseUint ''ClassId'' 10 16 = None"
  by (simp_all add: ParseUint_def char_digit_def)

lemma loadInstance_template:
  assumes "rereads f"
  shows "loadInstance c (fst (templateInstance x), f (snd (templateInstance x))) (db, b) =
    Done (PutMe c (fst x) (reread f (snd x)) db, True)"
  using rereadsD [OF assms]
  by (simp add: templateInstance_def Let_def loadInstance_def loadAttributes_def panic_simps)

text \<open>The reports that a template amounts to.\<close>

definition instReports :: "(attr_val \<Rightarrow> attr_val) \<Rightarrow> classID \<times> (u16 \<times> attrs) list \<Rightarrow> (classID \<times> u16 \<times> attrs) list" where
  "instReports f x = map (\<lambda>(i, a). (fst x, i, reread f a)) (snd x)"

definition templateReports :: "(attr_val \<Rightarrow> attr_val) \<Rightarrow> meDbMap \<Rightarrow> (classID \<times> u16 \<times> attrs) list" where
  "templateReports f m = concat (map (instReports f) (filter (\<lambda>x. isSupportedClassID (fst x)) m))"

lemma load_instances:
  assumes "rereads f"
  shows "fold_outcome (loadInstance c) (reread f (map templateInstance insts)) (db, b) =
    Done (fold (\<lambda>(c, i, a). PutMe c i a) (instReports f (c, insts)) db, b \<or> insts \<noteq> [])"
proof (induction insts arbitrary: db b)
  case (Cons x insts)
  obtain k v where t: "templateInstance x = (k, v)" by (cases "templateInstance x")
  with loadInstance_template [OF assms, of c x db b] Cons show ?case
    by (cases x) (simp add: panic_simps instReports_def)
qed (simp add: instReports_def)

lemma load_class:
  assumes "rereads f"
  shows "loadClass (fst (templateClass x), f (snd (templateClass x))) (db, b) =
    Done (if isSupportedClassID (fst x)
      then (fold (\<lambda>(c, i, a). PutMe c i a) (instReports f x) db, b \<or> snd x \<noteq> []) else (db, b))"
  using load_instances [OF assms, of "fst x" "snd x"]
  by (simp add: templateClass_def Let_def loadClass_def rereadsD [OF assms] fold_outcome_append panic_simps
      loadInstance_def)

lemma load_classes:
  assumes "rereads f"
  shows "fold_outcome loadClass (reread f (map templateClass m)) (db, b) =
    Done (fold (\<lambda>(c, i, a). PutMe c i a) (templateReports f m) db,
      b \<or> list_ex (\<lambda>x. isSupportedClassID (fst x) \<and> snd x \<noteq> []) m)"
proof (induction m arbitrary: db b)
  case (Cons x m)
  obtain k v where t: "templateClass x = (k, v)" by (cases "templateClass x")
  with load_class [OF assms, of x db b] Cons show ?case
    by (simp add: panic_simps templateReports_def)
qed (simp add: templateReports_def)

lemma load_templateMap:
  assumes "rereads f"
  shows "fold_outcome loadClass (reread f (templateMap env w db0)) (db, False) =
    Done (fold (\<lambda>(c, i, a). PutMe c i a) (templateReports f (meDb (markDb db0))) db,
      list_ex (\<lambda>x. isSupportedClassID (fst x) \<and> snd x \<noteq> []) (meDb (markDb db0)))"
  by (simp add: templateMap_def loadClass_def panic_simps load_classes [OF assms])

section \<open>The round trip\<close>

definition reportKey :: "classID \<times> u16 \<times> attrs \<Rightarrow> classID \<times> u16" where
  "reportKey r = (fst r, fst (snd r))"

lemma fold_fresh_reports:
  "distinct (map reportKey rs) \<Longrightarrow> list_all (\<lambda>r. fst r \<noteq> OnuDataClassID) rs \<Longrightarrow>
   list_all (\<lambda>r. M (reportKey r) = None) rs \<Longrightarrow>
   fold mibReport rs M = M ++ map_of (map (\<lambda>r. (reportKey r, map_of (snd (snd r)))) rs)"
proof (induction rs arbitrary: M)
  case (Cons r rs)
  obtain c i a where r: "r = (c, i, a)" by (cases r)
  let ?M = "M((c, i) \<mapsto> map_of a)"
  from Cons.prems have k: "(c, i) \<notin> reportKey ` set rs" by (simp add: r reportKey_def)
  have "fold mibReport rs ?M = ?M ++ map_of (map (\<lambda>r. (reportKey r, map_of (snd (snd r)))) rs)"
    by (rule Cons.IH) (use Cons.prems k in \<open>auto simp: r list_all_iff reportKey_def\<close>)
  moreover have "map_of (map (\<lambda>r. (reportKey r, map_of (snd (snd r)))) rs) (c, i) = None"
    using k by (force simp: map_of_eq_None_iff)
  ultimately show ?case
    using Cons.prems by (auto simp: r reportKey_def map_add_def fun_eq_iff split: option.split)
qed simp

lemma set_instReports:
  "(c, i, b) \<in> set (instReports f x) \<longleftrightarrow> c = fst x \<and> (\<exists>a. (i, a) \<in> set (snd x) \<and> b = reread f a)"
  by (auto simp: instReports_def image_iff Bex_def)

lemma set_templateReports:
  "(c, i, b) \<in> set (templateReports f m) \<longleftrightarrow>
     isSupportedClassID c \<and> (\<exists>insts a. (c, insts) \<in> set m \<and> (i, a) \<in> set insts \<and> b = reread f a)"
proof -
  have "(c, i, b) \<in> set (templateReports f m) \<longleftrightarrow>
      (\<exists>x \<in> set m. isSupportedClassID (fst x) \<and> (c, i, b) \<in> set (instReports f x))"
    by (auto simp: templateReports_def Bex_def)
  also have "\<dots> \<longleftrightarrow> isSupportedClassID c \<and>
      (\<exists>insts a. (c, insts) \<in> set m \<and> (i, a) \<in> set insts \<and> b = reread f a)"
    unfolding set_instReports by (auto simp: Bex_def)
  finally show ?thesis .
qed

lemma distinct_templateReports:
  assumes "distinct (map fst m)" and "list_all (\<lambda>x. distinct (map fst (snd x))) m"
  shows "distinct (map reportKey (templateReports f m))"
  using assms
proof (induction m)
  case (Cons x m)
  have x: "map reportKey (instReports f x) = map (\<lambda>i. (fst x, i)) (map fst (snd x))"
    by (simp add: instReports_def reportKey_def comp_def case_prod_unfold)
  have "fst k \<noteq> fst x" if "k \<in> set (map reportKey (templateReports f m))" for k
  proof -
    from that obtain c i b where "(c, i, b) \<in> set (templateReports f m)" and k: "k = (c, i)"
      by (auto simp: reportKey_def)
    then obtain insts where "(c, insts) \<in> set m" by (auto simp: set_templateReports)
    then have "c \<in> fst ` set m" by force
    moreover have "fst x \<notin> fst ` set m" using Cons.prems(1) by simp
    ultimately show ?thesis unfolding k by (metis fst_conv)
  qed
  then have "set (map reportKey (instReports f x)) \<inter> set (map reportKey (templateReports f m)) = {}"
    unfolding x by force
  moreover have "distinct (map reportKey (instReports f x))"
    unfolding x using Cons.prems(2) by (simp add: distinct_map inj_on_def)
  ultimately show ?case
    using Cons by (simp add: templateReports_def)
qed (simp add: templateReports_def)

lemma mibOf_Some:
  assumes "db_wf db"
  shows "mibOf db (c, i) = Some m \<longleftrightarrow>
    (\<exists>insts a. (c, insts) \<in> set (meDb db) \<and> (i, a) \<in> set insts \<and> m = map_of a)"
proof
  assume "mibOf db (c, i) = Some m"
  then show "\<exists>insts a. (c, insts) \<in> set (meDb db) \<and> (i, a) \<in> set insts \<and> m = map_of a"
    by (auto simp: mibOf_def lookup_me_def GetMe_def instances_def dest!: map_of_SomeD split: option.splits)
next
  assume "\<exists>insts a. (c, insts) \<in> set (meDb db) \<and> (i, a) \<in> set insts \<and> m = map_of a"
  then obtain insts a where x: "(c, insts) \<in> set (meDb db)" "(i, a) \<in> set insts" "m = map_of a" by blast
  with assms have "map_of (meDb db) c = Some insts" by (simp add: db_wf_def)
  moreover from assms x have "distinct (map fst insts)" by (auto simp: db_wf_def list_all_iff)
  ultimately show "mibOf db (c, i) = Some m"
    using x by (simp add: mibOf_def lookup_me_def GetMe_def instances_def)
qed

lemma option_eqI: "(\<And>m. x = Some m \<longleftrightarrow> y = Some m) \<Longrightarrow> x = y"
  by (cases x; cases y) auto

text \<open>The data base after loading the template of \<open>db\<close>, as a MIB.\<close>

definition attrs_distinct :: "onuDeviceDB \<Rightarrow> bool" where
  "attrs_distinct db \<longleftrightarrow> list_all (\<lambda>(c, insts). list_all (\<lambda>(i, a). distinct (map fst a)) insts) (meDb db)"

lemma placeholders_distinct: "distinct (map fst a) \<Longrightarrow> distinct (map fst (placeholders c a))"
  by (simp add: placeholders_def distinct_update distinct_delete)

lemma markDb_wf: "db_wf db \<Longrightarrow> db_wf (markDb db)"
  by (auto simp: db_wf_def markDb_def list_all_iff comp_def case_prod_unfold)

lemma markDb_attrs: "attrs_distinct db \<Longrightarrow> attrs_distinct (markDb db)"
  by (fastforce simp: attrs_distinct_def markDb_def list_all_iff intro: placeholders_distinct)

lemma mibOf_loaded:
  assumes "db_wf db" and "attrs_distinct db"
  shows "mibOf (fold (\<lambda>(c, i, a). PutMe c i a) (templateReports f (meDb db)) newOnuDeviceDB) (c, i) =
    (if isSupportedClassID c then map_option (\<lambda>m. map_option f \<circ> m) (mibOf db (c, i)) else None)"
proof -
  let ?rs = "templateReports f (meDb db)"
  have d: "distinct (map reportKey ?rs)"
    using assms(1) by (intro distinct_templateReports) (auto simp: db_wf_def list_all_iff)
  have "list_all (\<lambda>(c, i, a). distinct (map fst a)) ?rs"
    using assms(2) by (fastforce simp: list_all_iff set_templateReports attrs_distinct_def map_fst_reread)
  moreover have "mibOf newOnuDeviceDB = Map.empty"
    by (auto simp: mibOf_def lookup_me_def GetMe_def instances_def newOnuDeviceDB_def)
  moreover have "list_all (\<lambda>r. fst r \<noteq> OnuDataClassID) ?rs"
    using assms(1) by (auto simp: list_all_iff set_templateReports db_wf_def)
  ultimately have A: "mibOf (fold (\<lambda>(c, i, a). PutMe c i a) ?rs newOnuDeviceDB) =
      map_of (map (\<lambda>r. (reportKey r, map_of (snd (snd r)))) ?rs)"
    using mibOf_reports [OF db_wf_new] fold_fresh_reports [OF d, of Map.empty] by (simp add: list_all_iff)
  have B: "map_of (map (\<lambda>r. (reportKey r, map_of (snd (snd r)))) ?rs) (c, i) = Some m \<longleftrightarrow>
      isSupportedClassID c \<and> (\<exists>m0. mibOf db (c, i) = Some m0 \<and> m = map_option f \<circ> m0)" for m
  proof -
    have "map_of (map (\<lambda>r. (reportKey r, map_of (snd (snd r)))) ?rs) (c, i) = Some m \<longleftrightarrow>
        (\<exists>b. (c, i, b) \<in> set ?rs \<and> m = map_of b)"
    proof -
      have "distinct (map fst (map (\<lambda>r. (reportKey r, map_of (snd (snd r)))) ?rs))"
        using d by (simp add: comp_def)
      then have "map_of (map (\<lambda>r. (reportKey r, map_of (snd (snd r)))) ?rs) (c, i) = Some m \<longleftrightarrow>
          ((c, i), m) \<in> (\<lambda>r. (reportKey r, map_of (snd (snd r)))) ` set ?rs"
        by (simp add: map_of_eq_Some_iff)
      also have "\<dots> \<longleftrightarrow> (\<exists>b. (c, i, b) \<in> set ?rs \<and> m = map_of b)"
        by (auto simp: reportKey_def image_iff Bex_def)
      finally show ?thesis .
    qed
    also have "\<dots> \<longleftrightarrow> isSupportedClassID c \<and> (\<exists>m0. mibOf db (c, i) = Some m0 \<and> m = map_option f \<circ> m0)"
      unfolding set_templateReports mibOf_Some [OF assms(1)] by (metis map_of_reread)
    finally show ?thesis .
  qed
  show ?thesis unfolding A by (rule option_eqI) (unfold B, auto)
qed

section \<open>Properties\<close>

text \<open>C38: an ONU that answers every question is asked for its ONU-G, ONU2-G, both software images
  and its IP host in this order, each once. When the KV store then holds the template that the
  upload of an ONU with the same vendor, equipment and active software version created, the
  synchronisation loads it without an upload: for the supported classes its data base is the one
  of the first ONU, every value as the codec rereads it after its tokens have been swapped for
  the serial number and the MAC address of this ONU, and it is in sync with the next message.\<close>

theorem template_roundtrip:
  assumes "lib_complete lib" and "ccHasEntry (m_cc w)" and "length (m_swImages w) = 2"
    and "length (idSerial d) = 8" and "length (idMac d) = 6"
    and "m_db w = Some newOnuDeviceDB" and "db_wf db" and "attrs_distinct db"
    and "(c0, i0) \<in> dom (mibOf db)" and "isSupportedClassID c0"
    and "me_marshal env0 (templateMap env0 w0 db) = Some txt" and "me_getOk env"
    and "m_kv w (templatePath w0) = Some txt"
    and "templatePath w0 = templatePath ((identified env d (m_cc w) w)\<lparr>m_activeSwVersion :=
      activeVersion (m_swImages (identified env d (m_cc w) w)) (m_activeSwVersion w)\<rparr>)"
    and "rereads f"
    and "me_unmarshal env (swapTokens (identified env d (m_cc w) w) txt) = Some (reread f (templateMap env0 w0 db))"
  shows "\<exists>w' db'. processMibSyncMessages lib env (identityDialogue d) (ulStResettingMib, w) =
      Done (ulStGettingMibTemplate, w') \<and>
    sentGets (m_cc w') = sentGets (m_cc w) @ map (\<lambda>(c, i). Some (GetRequest, c, i))
      [(OnuGClassID, 0), (Onu2GClassID, 0), (SoftwareImageClassID, 0), (SoftwareImageClassID, 1),
       (IpHostConfigDataClassID, 1)] \<and>
    m_db w' = Some db' \<and>
    (\<forall>c i. mibOf db' (c, i) =
       (if isSupportedClassID c then map_option (\<lambda>m. map_option f \<circ> m) (mibMark (mibOf db) (c, i)) else None)) \<and>
    m_comm w' = m_comm w @ [TestMsg LoadMibTemplateOk] \<and>
    processMibSyncMessage lib env (TestMsg LoadMibTemplateOk) (ulStGettingMibTemplate, w') =
      Done (ulStInSync, enterInSyncState w')"
proof -
  obtain cc1 where run: "processMibSyncMessages lib env (identityDialogue d) (ulStResettingMib, w) =
      Done (ulStGettingMibTemplate, ul_enter lib env ulStGettingMibTemplate (identified env d cc1 w))"
    and gets: "sentGets cc1 = sentGets (m_cc w) @ map (\<lambda>(c, i). Some (GetRequest, c, i))
      [(OnuGClassID, 0), (Onu2GClassID, 0), (SoftwareImageClassID, 0), (SoftwareImageClassID, 1),
       (IpHostConfigDataClassID, 1)]"
    using identification_chain [OF assms(1-5), of env] by blast
  let ?w6 = "(identified env d cc1 w)\<lparr>m_activeSwVersion :=
      activeVersion (m_swImages (identified env d cc1 w)) (m_activeSwVersion w)\<rparr>"
  let ?db' = "fold (\<lambda>(c, i, a). PutMe c i a) (templateReports f (meDb (markDb db))) newOnuDeviceDB"
  have path: "templatePath ?w6 = templatePath w0" and swap: "swapTokens ?w6 txt = swapTokens (identified env d (m_cc w) w) txt"
    using assms(14) by (simp_all add: templatePath_def swapTokens_def identified_def Let_def)
  have kv: "m_kv ?w6 = m_kv w" "m_db ?w6 = m_db w" "m_comm ?w6 = m_comm w" "m_activeSwVersion (identified env d cc1 w) = m_activeSwVersion w"
    by (simp_all add: identified_def Let_def)
  have any: "list_ex (\<lambda>x. isSupportedClassID (fst x) \<and> snd x \<noteq> []) (meDb (markDb db))"
  proof -
    from assms(9) obtain insts a where "(c0, insts) \<in> set (meDb db)" and "(i0, a) \<in> set insts"
      by (auto simp: mibOf_Some [OF assms(7)])
    then have "insts \<noteq> []" by auto
    with \<open>(c0, insts) \<in> set (meDb db)\<close> assms(10) show ?thesis
      by (force simp: list_ex_iff markDb_def)
  qed
  have "loadTemplate env ?w6 newOnuDeviceDB = Done (?db', True)"
    using assms(12,13,16) any
    by (simp add: loadTemplate_def path swap kv load_templateMap [OF assms(15)])
  then have enter: "ul_enter lib env ulStGettingMibTemplate (identified env d cc1 w) =
      ?w6\<lparr>m_db := Some ?db', m_comm := m_comm w @ [TestMsg LoadMibTemplateOk]\<rparr>"
    using assms(6) kv by (simp add: enterGettingMibTemplate_def Let_def panic_simps)
  have c: "m_cc (identified env d cc1 w) = cc1" by (simp add: identified_def Let_def)
  have "db_wf (markDb db)" and "attrs_distinct (markDb db)"
    using assms(7,8) by (simp_all add: markDb_wf markDb_attrs)
  note loaded = mibOf_loaded [OF this, of f, unfolded mibOf_markDb]
  show ?thesis
    by (rule exI [of _ "?w6\<lparr>m_db := Some ?db', m_comm := m_comm w @ [TestMsg LoadMibTemplateOk]\<rparr>"],
        rule exI [of _ ?db'])
      (simp add: run [unfolded enter] loaded gets c)
qed

text \<open>Two ONUs of the same kind; the codec of this run knows one template, which it rereads with the
  tokens of its strings swapped.\<close>

definition example_identity :: onuIdentity where
  "example_identity = \<lparr>idVendor = AStr ''V'', idSerial = [66, 66, 83, 77, 0, 0, 0, 1], idEquipment = AStr ''E'',
     idImages = ((AStr ''1'', 1), (AStr ''2'', 0)), idMac = [1, 2, 3, 4, 5, 6]\<rparr>"

fun swapped :: "attr_val \<Rightarrow> attr_val" where
  "swapped (AObj kvs) = AObj (map (\<lambda>(k, v). (k, swapped v)) kvs)"
| "swapped (AStr s) = (if s = ''%SERIAL_NUMBER%'' then AStr ''BBSM00000001'' else AStr s)"
| "swapped v = v"

definition example_db :: onuDeviceDB where
  "example_db = \<lparr>meDb = [(256, [(0, [(''SerialNumber'', AOctets [66, 66, 83, 77, 0, 0, 0, 9])])])]\<rparr>"

definition example_first :: mibSync where
  "example_first = (snd (newMibSync example_cc Map.empty))
     \<lparr>m_vendorID := ''V'', m_equipmentID := ''E'', m_activeSwVersion := ''1''\<rparr>"

definition template_env :: mibEnv where
  "template_env = example_env\<lparr>me_marshal := (\<lambda>_. Some ''T''),
     me_unmarshal := (\<lambda>_. Some (reread swapped (templateMap example_env example_first example_db)))\<rparr>"

theorem template_roundtrip_witness:
  "\<exists>w' db'. processMibSyncMessages permissive_lib template_env (identityDialogue example_identity)
      (ulStResettingMib, example_mib\<lparr>m_kv := [''V/E/1'' \<mapsto> ''T'']\<rparr>) = Done (ulStGettingMibTemplate, w') \<and>
    m_db w' = Some db' \<and> mibOf db' (256, 0) = Some [''SerialNumber'' \<mapsto> AStr ''BBSM00000001'']"
proof -
  let ?w = "example_mib\<lparr>m_kv := [''V/E/1'' \<mapsto> ''T'']\<rparr>"
  have e: "ccHasEntry (m_cc ?w)" "length (m_swImages ?w) = 2" "m_db ?w = Some newOnuDeviceDB"
    by (simp_all add: example_mib_def newMibSync_def example_cc_def newOmciCC_def me_ids)
  have d: "db_wf example_db" "attrs_distinct example_db"
    by (simp_all add: db_wf_def attrs_distinct_def example_db_def OnuDataClassID_def)
  have i: "mibOf example_db (256, 0) = Some [''SerialNumber'' \<mapsto> AOctets [66, 66, 83, 77, 0, 0, 0, 9]]"
    by (simp add: mibOf_def lookup_me_def GetMe_def instances_def example_db_def)
  then have dom: "(256, 0) \<in> dom (mibOf example_db)" by blast
  have s: "isSupportedClassID 256" by (simp add: isSupportedClassID_def supportedClassIds_def)
  have t: "me_marshal template_env (templateMap template_env example_first example_db) = Some ''T''"
    "me_getOk template_env" by (simp_all add: template_env_def example_env_def)
  have p: "templatePath example_first = ''V/E/1''"
    by (simp add: templatePath_def example_first_def)
  have q: "templatePath ((identified template_env example_identity (m_cc ?w) ?w)\<lparr>m_activeSwVersion :=
      activeVersion (m_swImages (identified template_env example_identity (m_cc ?w) ?w)) (m_activeSwVersion ?w)\<rparr>) = ''V/E/1''"
    by (simp add: templatePath_def identified_def Let_def example_identity_def activeVersion_def)
  have r: "rereads swapped" by (simp add: rereads_def)
  have tm: "templateMap template_env example_first example_db = templateMap example_env example_first example_db"
    by (simp add: templateMap_def template_env_def)
  have lc: "lib_complete permissive_lib" by (simp add: lib_complete_def)
  have l: "length (idSerial example_identity) = 8" "length (idMac example_identity) = 6"
    by (simp_all add: example_identity_def)
  have kv: "m_kv ?w (templatePath example_first) = Some ''T''" by (simp add: p)
  have u: "me_unmarshal template_env (swapTokens (identified template_env example_identity (m_cc ?w) ?w) ''T'') =
      Some (reread swapped (templateMap template_env example_first example_db))"
    unfolding tm by (simp add: template_env_def)
  from template_roundtrip [OF lc e(1,2) l e(3) d dom s t kv _ r u]
  obtain w' db' where "processMibSyncMessages permissive_lib template_env (identityDialogue example_identity)
      (ulStResettingMib, ?w) = Done (ulStGettingMibTemplate, w')" "m_db w' = Some db'"
    and "\<forall>c i. mibOf db' (c, i) =
       (if isSupportedClassID c then map_option (\<lambda>m. map_option swapped \<circ> m) (mibMark (mibOf example_db) (c, i)) else None)"
    unfolding p q by blast
  moreover from this(3) have "mibOf db' (256, 0) = Some [''SerialNumber'' \<mapsto> AStr ''BBSM00000001'']"
    by (simp add: s i mibMark_def fun_eq_iff)
  ultimately show ?thesis by blast
qed

end
