(* ===== verification/Liveness.thy ===== *)
theory Liveness
  imports Prelude
begin

text \<open>
  What happens on every run of a step relation: \<open>inevitable step P s\<close> says that whatever
  steps are taken from \<open>s\<close>, a state with \<open>P\<close> is reached after finitely many of them, and that
  no run gets stuck before. The rules are those of a leads-to calculus.
\<close>

inductive inevitable :: "('s \<Rightarrow> 's \<Rightarrow> bool) \<Rightarrow> ('s \<Rightarrow> bool) \<Rightarrow> 's \<Rightarrow> bool" for step P where
  inevitable_now: "P s \<Longrightarrow> inevitable step P s"
| inevitable_later: "step s s0 \<Longrightarrow> (\<And>s'. step s s' \<Longrightarrow> inevitable step P s') \<Longrightarrow> inevitable step P s"

lemma inevitable_trans:
  assumes "inevitable step Q s" and "\<And>t. Q t \<Longrightarrow> inevitable step P t"
  shows "inevitable step P s"
  using assms(1)
proof (induction rule: inevitable.induct)
  case (inevitable_now s)
  then show ?case by (rule assms(2))
next
  case (inevitable_later s s0)
  show ?case by (rule inevitable.inevitable_later [OF inevitable_later(1,3)])
qed

text \<open>A state with exactly one successor.\<close>

lemma inevitable_forced:
  assumes "step s s0" and "\<And>s'. step s s' \<Longrightarrow> s' = s0" and "inevitable step P s0"
  shows "inevitable step P s"
proof (rule inevitable_later [where step = step, OF assms(1)])
  show "inevitable step P s'" if "step s s'" for s'
    using assms(2) [OF that] assms(3) by simp
qed

text \<open>A measure that every step decreases until \<open>P\<close> holds, while some step is possible.\<close>

lemma inevitable_measure:
  assumes "I s" and "\<And>t. I t \<Longrightarrow> \<not> P t \<Longrightarrow> \<exists>t'. step t t'"
    and "\<And>t t'. I t \<Longrightarrow> \<not> P t \<Longrightarrow> step t t' \<Longrightarrow> I t' \<and> (m t' :: nat) < m t"
  shows "inevitable step P s"
  using assms(1)
proof (induction "m s" arbitrary: s rule: less_induct)
  case less
  show ?case
  proof (cases "P s")
    case False
    with assms(2) less.prems obtain s0 where "step s s0" by blast
    then show ?thesis
      by (rule inevitable_later) (use False assms(3) less in blast)
  qed (rule inevitable_now)
qed

text \<open>The runs: one that goes on for ever passes through \<open>P\<close>, and so does one that has ended.\<close>

lemma inevitable_path:
  assumes "inevitable step P s" and "p 0 = s" and "\<And>i. step (p i) (p (Suc i))"
  shows "\<exists>i. P (p i)"
  using assms
proof (induction arbitrary: p rule: inevitable.induct)
  case (inevitable_now s)
  then show ?case by blast
next
  case (inevitable_later s s0)
  from inevitable_later.prems have "step s (p 1)"
    by (metis One_nat_def)
  from inevitable_later.IH [OF this, of "\<lambda>i. p (Suc i)"] inevitable_later.prems(2)
  show ?case by auto
qed

lemma inevitable_end:
  assumes "inevitable step P s" and "step\<^sup>*\<^sup>* s t" and "\<nexists>u. step t u"
  shows "\<exists>u. step\<^sup>*\<^sup>* s u \<and> P u"
  using assms(1,2)
proof (induction rule: inevitable.induct)
  case (inevitable_now s)
  then show ?case by blast
next
  case (inevitable_later s s0)
  with assms(3) obtain s1 where "step s s1" "step\<^sup>*\<^sup>* s1 t"
    by (metis converse_rtranclpE)
  with inevitable_later.IH show ?case by (meson converse_rtranclp_into_rtranclp)
qed

end
