(* ===== verification/Closed_Loop.thy ===== *)
theory Closed_Loop
  imports Liveness Mib_Template
begin

text \<open>
  A machine, its OMCI channel and an ONU that answers, as one system: every request goes
  through the transmit queue, over the wire to the ONU, back as bytes through
  \<open>receiveMessage\<close> and the handler registered for its identifier, onto the Go channel of the
  machine and into its message loop. The step relation \<open>loop_step\<close> leaves the order of these
  activities open; what is shown holds on every run.

  The locale \<open>omci_client\<close> is the contract of a machine that uses the channel; the MIB
  synchronisation interprets it.
\<close>

section \<open>The system\<close>

text \<open>
  A machine with the channel it works on, the Go channel it is served from, whether a
  goroutine serves it, one turn of its message loop, and the steps of its other goroutines.
  Nothing times out.
\<close>

record 'm client =
  cl_cc :: "'m \<Rightarrow> omciCC"
  cl_setCc :: "omciCC \<Rightarrow> 'm \<Rightarrow> 'm"
  cl_comm :: "'m \<Rightarrow> Message list"
  cl_setComm :: "Message list \<Rightarrow> 'm \<Rightarrow> 'm"
  cl_channel :: channel
  cl_served :: "'m \<Rightarrow> bool"
  cl_serve :: "Message \<Rightarrow> 'm \<Rightarrow> 'm outcome"
  cl_internal :: "'m \<Rightarrow> 'm \<Rightarrow> bool"

text \<open>How many frames the ONU has answered, and how many posted messages have been delivered.\<close>

record 'm loop =
  lp_machine :: 'm
  lp_answered :: nat
  lp_delivered :: nat

inductive loop_step :: "omciLib \<Rightarrow> (omciRequest \<Rightarrow> u8 list) \<Rightarrow> 'm client \<Rightarrow> 'm loop \<Rightarrow> 'm loop \<Rightarrow> bool"
  for lib onu C where
  lp_task: "cc = cl_cc C (lp_machine s) \<Longrightarrow> ccTasks cc = ts1 @ task # ts2 \<Longrightarrow>
    loop_step lib onu C s (s\<lparr>lp_machine :=
      cl_setCc C (runTask (\<lambda>_. TxOk) task (cc\<lparr>ccTasks := ts1 @ ts2\<rparr>)) (lp_machine s)\<rparr>)"
| lp_onu: "cc = cl_cc C (lp_machine s) \<Longrightarrow> lp_answered s < length (wire cc) \<Longrightarrow>
    iaPayload (wire cc ! lp_answered s) = Some rq \<Longrightarrow> receiveMessage lib (onu rq) cc = (r, cc') \<Longrightarrow>
    loop_step lib onu C s (s\<lparr>lp_machine := cl_setCc C cc' (lp_machine s), lp_answered := Suc (lp_answered s)\<rparr>)"
| lp_deliver: "cc = cl_cc C (lp_machine s) \<Longrightarrow> lp_delivered s < length (posted cc) \<Longrightarrow>
    posted cc ! lp_delivered s = (ch, msg) \<Longrightarrow>
    m' = (if ch = cl_channel C
          then cl_setComm C (cl_comm C (lp_machine s) @ [msg]) (lp_machine s) else lp_machine s) \<Longrightarrow>
    loop_step lib onu C s (s\<lparr>lp_machine := m', lp_delivered := Suc (lp_delivered s)\<rparr>)"
| lp_serve: "cl_served C (lp_machine s) \<Longrightarrow> cl_comm C (lp_machine s) = msg # ms \<Longrightarrow>
    cl_serve C msg (cl_setComm C ms (lp_machine s)) = Done m' \<Longrightarrow>
    loop_step lib onu C s (s\<lparr>lp_machine := m'\<rparr>)"
| lp_internal: "cl_internal C (lp_machine s) m' \<Longrightarrow> loop_step lib onu C s (s\<lparr>lp_machine := m'\<rparr>)"

definition rests :: "'m client \<Rightarrow> 'm \<Rightarrow> bool" where
  "rests C m \<longleftrightarrow> (\<forall>m'. \<not> cl_internal C m m')"

text \<open>One request is under way and nothing else: it waits in the transmit queue.\<close>

definition waits_for :: "channel \<Rightarrow> omciRequest \<Rightarrow> omciCC \<Rightarrow> bool" where
  "waits_for ch rq cc \<longleftrightarrow> map txFrame (txQueue cc) = [Some rq] \<and> ccTasks cc = [TxTask] \<and> ccHasEntry cc \<and>
     rxSchedulerMap cc (rqTid rq) = Some \<lparr>cbRespChannel = ch, cbFunctionOf = Some ReceiveOmciResponse\<rparr>"

text \<open>Nothing is under way.\<close>

definition idle_cc :: "omciCC \<Rightarrow> bool" where
  "idle_cc cc \<longleftrightarrow> txQueue cc = [] \<and> ccTasks cc = [] \<and> ccHasEntry cc"

text \<open>The channel after the answer has been posted.\<close>

definition exchanged :: "channel \<Rightarrow> omciRequest \<Rightarrow> omciHeader \<Rightarrow> rxPacket \<Rightarrow> omciCC \<Rightarrow> omciCC" where
  "exchanged ch rq hdr packet cc =
     cc\<lparr>txQueue := [], ccTasks := [], rxSchedulerMap := (rxSchedulerMap cc)(rqTid rq := None),
        wire := wire cc @ map (interAdapterMsg cc) (txQueue cc), posted := posted cc @ [(ch, OMCI hdr packet)]\<rparr>"

lemma exchanged_fields [simp]:
  "txQueue (exchanged ch rq hdr packet cc) = []" "ccTasks (exchanged ch rq hdr packet cc) = []"
  "ccHasEntry (exchanged ch rq hdr packet cc) = ccHasEntry cc"
  "uploadSequNo (exchanged ch rq hdr packet cc) = uploadSequNo cc"
  "uploadNoOfCmds (exchanged ch rq hdr packet cc) = uploadNoOfCmds cc"
  "pLastTxMeInstance (exchanged ch rq hdr packet cc) = pLastTxMeInstance cc"
  "length (wire (exchanged ch rq hdr packet cc)) = length (wire cc) + length (txQueue cc)"
  "length (posted (exchanged ch rq hdr packet cc)) = Suc (length (posted cc))"
  by (simp_all add: exchanged_def)

lemma wire_exchanged: "waits_for ch rq cc \<Longrightarrow>
  map iaPayload (wire (exchanged ch rq hdr packet cc)) = map iaPayload (wire cc) @ [Some rq]"
  by (auto simp: exchanged_def waits_for_def)

lemma idle_exchanged: "ccHasEntry cc \<Longrightarrow> idle_cc (exchanged ch rq hdr packet cc)"
  by (simp add: idle_cc_def)

section \<open>The round trip\<close>

text \<open>What the ONU sends decodes to an acknowledged answer with the identifier of the request.\<close>

definition answered_by :: "omciLib \<Rightarrow> (omciRequest \<Rightarrow> u8 list) \<Rightarrow> omciRequest \<Rightarrow> omciHeader \<Rightarrow> rxPacket \<Rightarrow> bool" where
  "answered_by lib onu rq hdr packet \<longleftrightarrow> 44 \<le> length (onu rq) \<and>
     lib_decode lib (fixTrailer (onu rq)) = Decoded hdr packet \<and> TransactionID hdr = rqTid rq \<and>
     hdrMessageType hdr AND NOT AK \<noteq> 0"

text \<open>What distinguishes a request for the ONU, and what has gone over the wire.\<close>

type_synonym rqKey = "omciRequestType \<times> classID \<times> u16 \<times> u16"

definition rqKeyOf :: "omciRequest \<Rightarrow> rqKey" where
  "rqKeyOf rq = (rqType rq, rqClass rq, rqEntity rq, rqSequNo rq)"

definition wireLog :: "omciCC \<Rightarrow> rqKey option list" where
  "wireLog cc = map (\<lambda>m. map_option rqKeyOf (iaPayload m)) (wire cc)"

text \<open>The same with the attributes of the requests.\<close>

definition requestLog :: "omciCC \<Rightarrow> (rqKey \<times> attrs) option list" where
  "requestLog cc = map (\<lambda>m. map_option (\<lambda>rq. (rqKeyOf rq, rqAttrs rq)) (iaPayload m)) (wire cc)"

lemma wireLog_requestLog: "wireLog cc = map (map_option fst) (requestLog cc)"
  by (simp add: wireLog_def requestLog_def option.map_comp o_def)

text \<open>The answers of an ONU with the given identity and MIB.\<close>

fun onuAnswer :: "onuIdentity \<Rightarrow> (classID \<times> u16 \<times> attrs) list \<Rightarrow> rqKey \<Rightarrow> rxPacket" where
  "onuAnswer d reports (MibResetRequest, c, i, sequ) = Some (MibResetResponse me_Success)"
| "onuAnswer d reports (MibUploadRequest, c, i, sequ) = Some (MibUploadResponse (of_nat (length reports)))"
| "onuAnswer d reports (MibUploadNextRequest, c, i, sequ) =
     (if unat sequ < length reports
      then (case reports ! unat sequ of (c', i', a) \<Rightarrow> Some (MibUploadNextResponse c' i' a)) else Some OtherLayer)"
| "onuAnswer d reports (GetRequest, c, i, sequ) =
     Some (GetResponse c i me_Success
       (if c = OnuGClassID then [(''VendorId'', idVendor d), (''SerialNumber'', AOctets (idSerial d))]
        else if c = Onu2GClassID then [(''EquipmentId'', idEquipment d)]
        else if c = SoftwareImageClassID then
          (let im = (if i = 0 then fst (idImages d) else snd (idImages d)) in
           [(''Version'', fst im), (''IsActive'', AU8 (snd im))])
        else [(''MacAddress'', AOctets (idMac d))]))"
| "onuAnswer d reports (CreateRequest, c, i, sequ) = Some (CreateResponse c i me_Success)"
| "onuAnswer d reports (SetRequest, c, i, sequ) = Some (SetResponse c i me_Success)"
| "onuAnswer d reports (RebootRequest, c, i, sequ) = Some (RebootResponse me_Success)"

fun responseType :: "omciRequestType \<Rightarrow> u8" where
  "responseType CreateRequest = CreateResponseType"
| "responseType SetRequest = SetResponseType"
| "responseType GetRequest = GetResponseType"
| "responseType MibResetRequest = MibResetResponseType"
| "responseType MibUploadRequest = MibUploadResponseType"
| "responseType MibUploadNextRequest = MibUploadNextResponseType"
| "responseType RebootRequest = RebootResponseType"

text \<open>An ONU whose answers are \<open>ans\<close>; one that acknowledges every request; and one that refuses some.\<close>

definition answers :: "omciLib \<Rightarrow> (omciRequest \<Rightarrow> u8 list) \<Rightarrow> (rqKey \<Rightarrow> rxPacket) \<Rightarrow> bool" where
  "answers lib onu ans \<longleftrightarrow>
     (\<forall>rq. \<exists>hdr. answered_by lib onu rq hdr (ans (rqKeyOf rq)) \<and> hdrMessageType hdr = responseType (rqType rq))"

definition conforming :: "omciLib \<Rightarrow> (omciRequest \<Rightarrow> u8 list) \<Rightarrow> onuIdentity \<Rightarrow> (classID \<times> u16 \<times> attrs) list \<Rightarrow> bool" where
  "conforming lib onu d reports \<longleftrightarrow> answers lib onu (onuAnswer d reports)"

fun onuRefusal :: "u8 \<Rightarrow> rqKey \<Rightarrow> rxPacket" where
  "onuRefusal r (CreateRequest, c, i, sequ) = Some (CreateResponse c i r)"
| "onuRefusal r (SetRequest, c, i, sequ) = Some (SetResponse c i r)"
| "onuRefusal r (_, c, i, sequ) = Some OtherLayer"

definition onuDecision :: "(rqKey \<Rightarrow> bool) \<Rightarrow> u8 \<Rightarrow> onuIdentity \<Rightarrow> (classID \<times> u16 \<times> attrs) list \<Rightarrow> rqKey \<Rightarrow> rxPacket" where
  "onuDecision accepts r d reports k = (if accepts k then onuAnswer d reports k else onuRefusal r k)"

definition selective :: "omciLib \<Rightarrow> (omciRequest \<Rightarrow> u8 list) \<Rightarrow> (rqKey \<Rightarrow> bool) \<Rightarrow> u8 \<Rightarrow> onuIdentity \<Rightarrow>
    (classID \<times> u16 \<times> attrs) list \<Rightarrow> bool" where
  "selective lib onu accepts r d reports \<longleftrightarrow> r \<noteq> me_Success \<and> answers lib onu (onuDecision accepts r d reports)"

lemma conforming_selective:
  "conforming lib onu d reports \<Longrightarrow> r \<noteq> me_Success \<Longrightarrow> selective lib onu (\<lambda>_. True) r d reports"
  by (simp add: selective_def conforming_def onuDecision_def [abs_def])

text \<open>Nothing has been handed over that has not been answered and delivered.\<close>

definition loopOf :: "'m client \<Rightarrow> 'm \<Rightarrow> 'm loop" where
  "loopOf C m = \<lparr>lp_machine = m, lp_answered = length (wire (cl_cc C m)), lp_delivered = length (posted (cl_cc C m))\<rparr>"

text \<open>The machine waits for the answer to one request.\<close>

definition client_asks :: "'m client \<Rightarrow> rqKey \<Rightarrow> 'm \<Rightarrow> bool" where
  "client_asks C k m \<longleftrightarrow> (\<exists>rq. waits_for (cl_channel C) rq (cl_cc C m) \<and> rqKeyOf rq = k) \<and> cl_comm C m = [] \<and>
     cl_served C m \<and> rests C m"

definition same_log :: "omciCC \<Rightarrow> omciCC \<Rightarrow> bool" where
  "same_log cc cc' \<longleftrightarrow> wire cc' = wire cc \<and> posted cc' = posted cc"

locale omci_client =
  fixes C :: "'m client"
  assumes cc_setCc [simp]: "cl_cc C (cl_setCc C cc m) = cc"
    and setCc_setCc [simp]: "cl_setCc C cc (cl_setCc C cc' m) = cl_setCc C cc m"
    and comm_setComm [simp]: "cl_comm C (cl_setComm C ms m) = ms"
    and setComm_setComm [simp]: "cl_setComm C ms (cl_setComm C ms' m) = cl_setComm C ms m"
    and setComm_comm: "cl_setComm C (cl_comm C m) m = m"
    and cc_setComm [simp]: "cl_cc C (cl_setComm C ms m) = cl_cc C m"
    and comm_setCc [simp]: "cl_comm C (cl_setCc C cc m) = cl_comm C m"
    and served_setCc [simp]: "cl_served C (cl_setCc C cc m) = cl_served C m"
    and served_setComm [simp]: "cl_served C (cl_setComm C ms m) = cl_served C m"
    and internal_setCc [simp]: "rests C (cl_setCc C cc m) \<longleftrightarrow> rests C m"
    and internal_setComm [simp]: "rests C (cl_setComm C ms m) \<longleftrightarrow> rests C m"
begin

lemma setComm_empty: "cl_comm C m = [] \<Longrightarrow> cl_setComm C [] m = m"
  using setComm_comm [of m] by simp

text \<open>With one activity possible, the next step is forced.\<close>

lemma forced_task:
  assumes "cc = cl_cc C m" and "ccTasks cc = [task]" and "a = length (wire cc)" and "d = length (posted cc)"
    and "cl_comm C m = []" and "rests C m"
    and "inevitable (loop_step lib onu C) P
      \<lparr>lp_machine = cl_setCc C (runTask (\<lambda>_. TxOk) task (cc\<lparr>ccTasks := []\<rparr>)) m, lp_answered = a, lp_delivered = d\<rparr>"
  shows "inevitable (loop_step lib onu C) P \<lparr>lp_machine = m, lp_answered = a, lp_delivered = d\<rparr>"
proof (rule inevitable_forced [OF _ _ assms(7)])
  let ?s = "\<lparr>lp_machine = m, lp_answered = a, lp_delivered = d\<rparr>"
  have "ccTasks cc = [] @ task # []" using assms(2) by simp
  from lp_task [where s = ?s and C = C, OF _ this] assms(1)
  show "loop_step lib onu C ?s
      \<lparr>lp_machine = cl_setCc C (runTask (\<lambda>_. TxOk) task (cc\<lparr>ccTasks := []\<rparr>)) m, lp_answered = a, lp_delivered = d\<rparr>"
    by simp
  show "s' = \<lparr>lp_machine = cl_setCc C (runTask (\<lambda>_. TxOk) task (cc\<lparr>ccTasks := []\<rparr>)) m, lp_answered = a, lp_delivered = d\<rparr>"
    if "loop_step lib onu C ?s s'" for s'
    using that by cases (use assms in \<open>auto simp: rests_def Cons_eq_append_conv append_eq_Cons_conv\<close>)
qed

lemma forced_onu:
  assumes "cc = cl_cc C m" and "ccTasks cc = []" and "a < length (wire cc)" and "d = length (posted cc)"
    and "cl_comm C m = []" and "iaPayload (wire cc ! a) = Some rq" and "receiveMessage lib (onu rq) cc = (r, cc')"
    and "rests C m"
    and "inevitable (loop_step lib onu C) P \<lparr>lp_machine = cl_setCc C cc' m, lp_answered = Suc a, lp_delivered = d\<rparr>"
  shows "inevitable (loop_step lib onu C) P \<lparr>lp_machine = m, lp_answered = a, lp_delivered = d\<rparr>"
proof (rule inevitable_forced [OF _ _ assms(9)])
  let ?s = "\<lparr>lp_machine = m, lp_answered = a, lp_delivered = d\<rparr>"
  from lp_onu [where s = ?s and C = C and onu = onu and rq = rq, OF _ _ _ assms(7)] assms(1,3,6)
  show "loop_step lib onu C ?s \<lparr>lp_machine = cl_setCc C cc' m, lp_answered = Suc a, lp_delivered = d\<rparr>"
    by simp
  show "s' = \<lparr>lp_machine = cl_setCc C cc' m, lp_answered = Suc a, lp_delivered = d\<rparr>"
    if "loop_step lib onu C ?s s'" for s'
    using that by cases (use assms in \<open>auto simp: rests_def\<close>)
qed

lemma forced_deliver:
  assumes "cc = cl_cc C m" and "ccTasks cc = []" and "a = length (wire cc)" and "d < length (posted cc)"
    and "cl_comm C m = []" and "posted cc ! d = (cl_channel C, msg)" and "rests C m"
    and "inevitable (loop_step lib onu C) P \<lparr>lp_machine = cl_setComm C [msg] m, lp_answered = a, lp_delivered = Suc d\<rparr>"
  shows "inevitable (loop_step lib onu C) P \<lparr>lp_machine = m, lp_answered = a, lp_delivered = d\<rparr>"
proof (rule inevitable_forced [OF _ _ assms(8)])
  let ?s = "\<lparr>lp_machine = m, lp_answered = a, lp_delivered = d\<rparr>"
  from lp_deliver [where s = ?s and C = C, OF _ _ _ refl] assms(1,4,5,6)
  show "loop_step lib onu C ?s \<lparr>lp_machine = cl_setComm C [msg] m, lp_answered = a, lp_delivered = Suc d\<rparr>"
    by fastforce
  show "s' = \<lparr>lp_machine = cl_setComm C [msg] m, lp_answered = a, lp_delivered = Suc d\<rparr>"
    if "loop_step lib onu C ?s s'" for s'
    using that by cases (use assms in \<open>auto simp: rests_def\<close>)
qed

lemma forced_serve:
  assumes "cc = cl_cc C m" and "ccTasks cc = []" and "a = length (wire cc)" and "d = length (posted cc)"
    and "cl_comm C m = [msg]" and "cl_served C m" and "cl_serve C msg (cl_setComm C [] m) = Done m'"
    and "rests C m"
    and "inevitable (loop_step lib onu C) P \<lparr>lp_machine = m', lp_answered = a, lp_delivered = d\<rparr>"
  shows "inevitable (loop_step lib onu C) P \<lparr>lp_machine = m, lp_answered = a, lp_delivered = d\<rparr>"
proof (rule inevitable_forced [OF _ _ assms(9)])
  let ?s = "\<lparr>lp_machine = m, lp_answered = a, lp_delivered = d\<rparr>"
  from lp_serve [where s = ?s and C = C, OF _ _ ] assms(5,6,7)
  show "loop_step lib onu C ?s \<lparr>lp_machine = m', lp_answered = a, lp_delivered = d\<rparr>"
    by fastforce
  show "s' = \<lparr>lp_machine = m', lp_answered = a, lp_delivered = d\<rparr>"
    if "loop_step lib onu C ?s s'" for s'
    using that by cases (use assms in \<open>auto simp: rests_def\<close>)
qed

lemma forced_internal:
  assumes "cc = cl_cc C m" and "ccTasks cc = []" and "a = length (wire cc)" and "d = length (posted cc)"
    and "cl_comm C m = []" and "cl_internal C m m'" and "\<And>m''. cl_internal C m m'' \<Longrightarrow> m'' = m'"
    and "inevitable (loop_step lib onu C) P \<lparr>lp_machine = m', lp_answered = a, lp_delivered = d\<rparr>"
  shows "inevitable (loop_step lib onu C) P \<lparr>lp_machine = m, lp_answered = a, lp_delivered = d\<rparr>"
proof (rule inevitable_forced [OF _ _ assms(8)])
  let ?s = "\<lparr>lp_machine = m, lp_answered = a, lp_delivered = d\<rparr>"
  from lp_internal [where s = ?s and C = C] assms(6)
  show "loop_step lib onu C ?s \<lparr>lp_machine = m', lp_answered = a, lp_delivered = d\<rparr>"
    by fastforce
  show "s' = \<lparr>lp_machine = m', lp_answered = a, lp_delivered = d\<rparr>"
    if "loop_step lib onu C ?s s'" for s'
    using that
  proof cases
    case (lp_internal m2)
    then have "m2 = m'" using assms(7) by simp
    with lp_internal show ?thesis by simp
  qed (use assms(1-5) in auto)
qed

text \<open>The four activities of a request, and the turn of the machine that its answer causes.\<close>

lemma round_trip:
  assumes "waits_for (cl_channel C) rq (cl_cc C m)" and "cl_comm C m = []" and "cl_served C m" and "rests C m"
    and "answered_by lib onu rq hdr packet"
    and "cl_serve C (OMCI hdr packet) (cl_setCc C (exchanged (cl_channel C) rq hdr packet (cl_cc C m)) m) = Done m'"
    and "inevitable (loop_step lib onu C) P
      \<lparr>lp_machine = m', lp_answered = Suc (length (wire (cl_cc C m))), lp_delivered = Suc (length (posted (cl_cc C m)))\<rparr>"
  shows "inevitable (loop_step lib onu C) P
      \<lparr>lp_machine = m, lp_answered = length (wire (cl_cc C m)), lp_delivered = length (posted (cl_cc C m))\<rparr>"
proof -
  let ?cc = "cl_cc C m" and ?ch = "cl_channel C"
  let ?cb = "\<lparr>cbRespChannel = ?ch, cbFunctionOf = Some ReceiveOmciResponse\<rparr>"
  obtain x where x: "txQueue ?cc = [x]" "txFrame x = Some rq" and t: "ccTasks ?cc = [TxTask]" "ccHasEntry ?cc"
      and cb: "rxSchedulerMap ?cc (rqTid rq) = Some ?cb"
    using assms(1) by (auto simp: waits_for_def)
  have a: "44 \<le> length (onu rq)" "lib_decode lib (fixTrailer (onu rq)) = Decoded hdr packet"
      "TransactionID hdr = rqTid rq" "hdrMessageType hdr AND NOT AK \<noteq> 0"
    using assms(5) by (simp_all add: answered_by_def)
  let ?cc1 = "?cc\<lparr>txQueue := [], ccTasks := [], wire := wire ?cc @ [interAdapterMsg ?cc x]\<rparr>"
  let ?cc2 = "?cc1\<lparr>ccTasks := [RxTask ?cb hdr packet], rxSchedulerMap := (rxSchedulerMap ?cc)(rqTid rq := None)\<rparr>"
  let ?cc3 = "exchanged ?ch rq hdr packet ?cc"
  have 1: "runTask (\<lambda>_. TxOk) TxTask (?cc\<lparr>ccTasks := []\<rparr>) = ?cc1"
    by (simp add: runTask_def sendNextRequest_def x interAdapterMsg_def)
  have 2: "receiveMessage lib (onu rq) ?cc1 = (None, ?cc2)"
    using a cb by (simp add: receiveMessage_def)
  have 3: "runTask (\<lambda>_. TxOk) (RxTask ?cb hdr packet) (?cc2\<lparr>ccTasks := []\<rparr>) = ?cc3"
    by (simp add: runTask_def receiveOmciResponse_def t exchanged_def x)
  have 5: "inevitable (loop_step lib onu C) P \<lparr>lp_machine = cl_setComm C [OMCI hdr packet] (cl_setCc C ?cc3 m),
      lp_answered = Suc (length (wire ?cc)), lp_delivered = Suc (length (posted ?cc))\<rparr>"
  proof (rule forced_serve [OF refl _ _ _ _ _ _ _ assms(7)])
    have "cl_setComm C [] (cl_setCc C ?cc3 m) = cl_setCc C ?cc3 m"
      by (simp add: setComm_empty assms(2))
    then show "cl_serve C (OMCI hdr packet) (cl_setComm C [] (cl_setComm C [OMCI hdr packet] (cl_setCc C ?cc3 m))) = Done m'"
      using assms(6) by simp
  qed (simp_all add: x assms(3,4))
  have 4: "inevitable (loop_step lib onu C) P \<lparr>lp_machine = cl_setCc C ?cc3 m,
      lp_answered = Suc (length (wire ?cc)), lp_delivered = length (posted ?cc)\<rparr>"
    by (rule forced_deliver [OF refl _ _ _ _ _ _ 5]) (simp_all add: x assms(2,4) exchanged_def)
  have "inevitable (loop_step lib onu C) P \<lparr>lp_machine = cl_setCc C ?cc2 m,
      lp_answered = Suc (length (wire ?cc)), lp_delivered = length (posted ?cc)\<rparr>"
    by (rule forced_task [OF refl, where task = "RxTask ?cb hdr packet"]) (use 3 4 assms(2,4) in simp_all)
  then have "inevitable (loop_step lib onu C) P \<lparr>lp_machine = cl_setCc C ?cc1 m,
      lp_answered = length (wire ?cc), lp_delivered = length (posted ?cc)\<rparr>"
    by (intro forced_onu [where cc = ?cc1 and cc' = ?cc2 and m = "cl_setCc C ?cc1 m" and rq = rq and r = None])
      (use 2 assms(2,4) in \<open>simp_all add: x\<close>)
  then show ?thesis
    by (intro forced_task [OF refl t(1) refl refl assms(2,4)]) (simp add: 1)
qed

lemma answered_with:
  assumes "waits_for (cl_channel C) rq (cl_cc C m)" and "cl_comm C m = []" and "cl_served C m" and "rests C m"
    and "answers lib onu ans"
    and "\<And>cc hdr. idle_cc cc \<Longrightarrow> requestLog cc = requestLog (cl_cc C m) @ [Some (rqKeyOf rq, rqAttrs rq)] \<Longrightarrow>
      uploadSequNo cc = uploadSequNo (cl_cc C m) \<Longrightarrow> uploadNoOfCmds cc = uploadNoOfCmds (cl_cc C m) \<Longrightarrow>
      pLastTxMeInstance cc = pLastTxMeInstance (cl_cc C m) \<Longrightarrow> hdrMessageType hdr = responseType (rqType rq) \<Longrightarrow>
      \<exists>m'. cl_serve C (OMCI hdr (ans (rqKeyOf rq))) (cl_setCc C cc m) = Done m' \<and>
        same_log cc (cl_cc C m') \<and> inevitable (loop_step lib onu C) P (loopOf C m')"
  shows "inevitable (loop_step lib onu C) P (loopOf C m)"
proof -
  let ?k = "rqKeyOf rq"
  obtain hdr where a: "answered_by lib onu rq hdr (ans ?k)"
      and h: "hdrMessageType hdr = responseType (rqType rq)"
    using assms(5) unfolding answers_def by metis
  let ?cc = "exchanged (cl_channel C) rq hdr (ans ?k) (cl_cc C m)"
  have i: "idle_cc ?cc"
    using assms(1) by (intro idle_exchanged) (simp add: waits_for_def)
  have l: "requestLog ?cc = requestLog (cl_cc C m) @ [Some (?k, rqAttrs rq)]"
    using assms(1) by (auto simp: requestLog_def exchanged_def waits_for_def)
  obtain m' where s: "cl_serve C (OMCI hdr (ans ?k)) (cl_setCc C ?cc m) = Done m'"
      and g: "same_log ?cc (cl_cc C m')" and v: "inevitable (loop_step lib onu C) P (loopOf C m')"
    using assms(6) [OF i l _ _ _ h] by auto
  have n: "length (txQueue (cl_cc C m)) = 1"
    using assms(1) by (auto simp: waits_for_def)
  show ?thesis
    unfolding loopOf_def
    by (rule round_trip [OF assms(1-4) a s]) (use v g n in \<open>simp add: loopOf_def same_log_def\<close>)
qed

lemma answered:
  assumes "client_asks C k m" and "conforming lib onu d reports"
    and "\<And>cc hdr. idle_cc cc \<Longrightarrow> wireLog cc = wireLog (cl_cc C m) @ [Some k] \<Longrightarrow>
      uploadSequNo cc = uploadSequNo (cl_cc C m) \<Longrightarrow> uploadNoOfCmds cc = uploadNoOfCmds (cl_cc C m) \<Longrightarrow>
      pLastTxMeInstance cc = pLastTxMeInstance (cl_cc C m) \<Longrightarrow> hdrMessageType hdr = responseType (fst k) \<Longrightarrow>
      \<exists>m'. cl_serve C (OMCI hdr (onuAnswer d reports k)) (cl_setCc C cc m) = Done m' \<and>
        same_log cc (cl_cc C m') \<and> inevitable (loop_step lib onu C) P (loopOf C m')"
  shows "inevitable (loop_step lib onu C) P (loopOf C m)"
proof -
  obtain rq where rq: "waits_for (cl_channel C) rq (cl_cc C m)" "rqKeyOf rq = k" "cl_comm C m = []"
      "cl_served C m" "rests C m"
    using assms(1) by (auto simp: client_asks_def)
  have "rqType rq = fst k" using rq(2) by (auto simp: rqKeyOf_def)
  show ?thesis
  proof (rule answered_with [OF rq(1,3,4,5) assms(2) [unfolded conforming_def]])
    fix cc and hdr :: omciHeader
    assume "idle_cc cc" "requestLog cc = requestLog (cl_cc C m) @ [Some (rqKeyOf rq, rqAttrs rq)]"
      "uploadSequNo cc = uploadSequNo (cl_cc C m)" "uploadNoOfCmds cc = uploadNoOfCmds (cl_cc C m)"
      "pLastTxMeInstance cc = pLastTxMeInstance (cl_cc C m)" "hdrMessageType hdr = responseType (rqType rq)"
    then show "\<exists>m'. cl_serve C (OMCI hdr (onuAnswer d reports (rqKeyOf rq))) (cl_setCc C cc m) = Done m' \<and>
        same_log cc (cl_cc C m') \<and> inevitable (loop_step lib onu C) P (loopOf C m')"
      unfolding rq(2) by (intro assms(3)) (simp_all add: wireLog_requestLog rq(2) \<open>rqType rq = fst k\<close>)
  qed
qed

text \<open>The machine takes a message it has posted to itself, or its goroutine goes on.\<close>

lemma takes_message:
  assumes "idle_cc (cl_cc C m)" and "cl_comm C m = [msg]" and "cl_served C m" and "rests C m"
    and "cl_serve C msg (cl_setComm C [] m) = Done m'" and "same_log (cl_cc C m) (cl_cc C m')"
    and "inevitable (loop_step lib onu C) P (loopOf C m')"
  shows "inevitable (loop_step lib onu C) P (loopOf C m)"
  unfolding loopOf_def
  by (rule forced_serve [OF refl _ refl refl assms(2,3,5,4)])
    (use assms(1,6,7) in \<open>simp_all add: idle_cc_def loopOf_def same_log_def\<close>)

lemma goes_on:
  assumes "idle_cc (cl_cc C m)" and "cl_comm C m = []" and "cl_internal C m m'"
    and "\<And>m''. cl_internal C m m'' \<Longrightarrow> m'' = m'" and "same_log (cl_cc C m) (cl_cc C m')" and "inevitable (loop_step lib onu C) P (loopOf C m')"
  shows "inevitable (loop_step lib onu C) P (loopOf C m)"
  unfolding loopOf_def
  by (rule forced_internal [OF refl _ refl refl assms(2,3,4)])
    (use assms(1,5,6) in \<open>simp_all add: idle_cc_def loopOf_def same_log_def\<close>)

end

section \<open>Requests on an idle channel\<close>


lemma getNextTid_same: "getNextTid hp oo = (t, oo') \<Longrightarrow> txQueue oo' = txQueue oo \<and> ccTasks oo' = ccTasks oo \<and>
    ccHasEntry oo' = ccHasEntry oo \<and> wire oo' = wire oo \<and> posted oo' = posted oo \<and>
    uploadSequNo oo' = uploadSequNo oo \<and> uploadNoOfCmds oo' = uploadNoOfCmds oo"
  by (auto simp: getNextTid_def Let_def split: if_splits)


section \<open>An example\<close>

text \<open>An ONU, and a codec that decodes what the ONU sends to the answers it is to give.\<close>

fun typeCode :: "omciRequestType \<Rightarrow> u8" where
  "typeCode CreateRequest = 4" | "typeCode SetRequest = 8" | "typeCode GetRequest = 9"
| "typeCode MibUploadRequest = 13" | "typeCode MibUploadNextRequest = 14" | "typeCode MibResetRequest = 15"
| "typeCode RebootRequest = 25"

definition codeType :: "u8 \<Rightarrow> omciRequestType" where
  "codeType b = (if b = 4 then CreateRequest else if b = 8 then SetRequest else if b = 9 then GetRequest
     else if b = 13 then MibUploadRequest else if b = 14 then MibUploadNextRequest
     else if b = 15 then MibResetRequest else RebootRequest)"

definition example_onu :: "omciRequest \<Rightarrow> u8 list" where
  "example_onu rq = PutUint16 (rqTid rq) @ PutUint16 (rqClass rq) @ PutUint16 (rqEntity rq) @ PutUint16 (rqSequNo rq) @
     typeCode (rqType rq) # replicate 33 0 @ PutUint16 40"

definition deciding_codec :: "(rqKey \<Rightarrow> rxPacket) \<Rightarrow> omciLib" where
  "deciding_codec ans = permissive_lib\<lparr>lib_decode := (\<lambda>bs.
     let ty = codeType (hd (drop 8 bs)) in
     Decoded \<lparr>TransactionID = Uint16 bs, hdrMessageType = responseType ty, DeviceIdentifier = 10, hdrPayload = []\<rparr>
       (ans (ty, Uint16 (drop 2 bs), Uint16 (drop 4 bs), Uint16 (drop 6 bs))))\<rparr>"

definition example_codec :: "(classID \<times> u16 \<times> attrs) list \<Rightarrow> omciLib" where
  "example_codec reports = deciding_codec (onuAnswer example_identity reports)"

lemma codeType_typeCode [simp]: "codeType (typeCode ty) = ty"
  by (cases ty) (simp_all add: codeType_def)

lemma drop_PutUint16 [simp]: "drop 2 (PutUint16 v @ rest) = rest" "2 \<le> n \<Longrightarrow> drop n (PutUint16 v @ rest) = drop (n - 2) rest"
  by (simp_all add: PutUint16_def numeral_2_eq_2 drop_Cons' split: nat.split)

lemma Uint16_last [simp]: "Uint16 (PutUint16 v) = v"
  using Uint16_PutUint16 [of v "[]"] by simp

lemma deciding_answers: "answers (deciding_codec ans) example_onu ans"
proof -
  have "fixTrailer (example_onu rq) = example_onu rq" for rq
    by (simp add: fixTrailer_def example_onu_def)
  moreover have "responseType ty AND NOT AK \<noteq> 0" for ty
    by (cases ty) (simp_all add: msg_types)
  ultimately show ?thesis
    by (simp add: answers_def answered_by_def deciding_codec_def Let_def rqKeyOf_def) (simp add: example_onu_def)
qed

lemma deciding_complete: "lib_complete (deciding_codec ans)"
  by (simp add: lib_complete_def deciding_codec_def permissive_lib_def)

lemma example_conforming: "conforming (example_codec reports) example_onu example_identity reports"
  by (simp add: conforming_def example_codec_def deciding_answers)

text \<open>The same for an ONU that refuses requests as having parameter errors.\<close>

definition refusing_codec :: "(rqKey \<Rightarrow> bool) \<Rightarrow> omciLib" where
  "refusing_codec accepts = deciding_codec (onuDecision accepts 3 example_identity [])"

lemma refusing_complete: "lib_complete (refusing_codec accepts)"
  by (simp add: refusing_codec_def deciding_complete)

lemma refusing_selective: "selective (refusing_codec accepts) example_onu accepts 3 example_identity []"
  by (simp add: selective_def refusing_codec_def deciding_answers me_Success_def)

end
