(* ===== verification/Sync_Loop.thy ===== *)
theory Sync_Loop
  imports Closed_Loop
begin

text \<open>
  The MIB synchronisation in the loop with its channel and an ONU that answers: on every run
  it identifies the ONU, finds no template, uploads the MIB and reports it synchronised.
\<close>

section \<open>The MIB synchronisation as a client\<close>

definition mibClient :: "omciLib \<Rightarrow> mibEnv \<Rightarrow> (ulState \<times> mibSync) client" where
  "mibClient lib env =
     \<lparr>cl_cc = (\<lambda>(st, w). m_cc w), cl_setCc = (\<lambda>cc (st, w). (st, w\<lparr>m_cc := cc\<rparr>)),
      cl_comm = (\<lambda>(st, w). m_comm w), cl_setComm = (\<lambda>ms (st, w). (st, w\<lparr>m_comm := ms\<rparr>)),
      cl_channel = ChMibUpload, cl_served = (\<lambda>(st, w). 0 < m_servers w),
      cl_serve = processMibSyncMessage lib env, cl_internal = (\<lambda>_ _. False)\<rparr>"





lemma mibClient_simps [simp]:
  "cl_cc (mibClient lib env) (st, w) = m_cc w" "cl_setCc (mibClient lib env) cc (st, w) = (st, w\<lparr>m_cc := cc\<rparr>)"
  "cl_comm (mibClient lib env) (st, w) = m_comm w" "cl_setComm (mibClient lib env) ms (st, w) = (st, w\<lparr>m_comm := ms\<rparr>)"
  "cl_channel (mibClient lib env) = ChMibUpload" "cl_served (mibClient lib env) (st, w) \<longleftrightarrow> 0 < m_servers w"
  "cl_serve (mibClient lib env) = processMibSyncMessage lib env" "rests (mibClient lib env) m"
  by (simp_all add: mibClient_def rests_def)




section \<open>The requests of the synchronisation\<close>



section \<open>The upload in the loop\<close>


text \<open>What the entry has learnt about the ONU.\<close>

definition learnt :: "mibSync \<Rightarrow> string \<times> string \<times> string \<times> string \<times> swImages list" where
  "learnt w = (m_vendorID w, m_serialNumber w, m_equipmentID w, m_macAddress w, m_swImages w)"

lemma learnt_updates [simp]:
  "learnt (w\<lparr>m_cc := cc\<rparr>) = learnt w" "learnt (w\<lparr>m_db := db\<rparr>) = learnt w"
  "learnt (w\<lparr>m_cc := cc, m_db := db\<rparr>) = learnt w"
  by (simp_all add: learnt_def)






section \<open>The identification in the loop\<close>





text \<open>What the answers leave in the entry.\<close>

definition learn_vendor :: "mibEnv \<Rightarrow> onuIdentity \<Rightarrow> mibSync \<Rightarrow> mibSync" where
  "learn_vendor env d w = w\<lparr>m_vendorID := Sprintf_s (me_printFloat env) (idVendor d),
     m_serialNumber := map (\<lambda>b. char_of (unat b)) (take 4 (idSerial d)) @ hexEncode (drop 4 (idSerial d))\<rparr>"

definition learn_equipment :: "mibEnv \<Rightarrow> onuIdentity \<Rightarrow> mibSync \<Rightarrow> mibSync" where
  "learn_equipment env d w = w\<lparr>m_equipmentID := Sprintf_s (me_printFloat env) (idEquipment d)\<rparr>"

definition learn_image :: "mibEnv \<Rightarrow> nat \<Rightarrow> attr_val \<times> u8 \<Rightarrow> mibSync \<Rightarrow> mibSync" where
  "learn_image env i im w = w\<lparr>m_swImages := (m_swImages w)[i :=
     \<lparr>sw_version = Sprintf_s (me_printFloat env) (fst im), sw_isActive = snd im\<rparr>]\<rparr>"

definition learn_mac :: "onuIdentity \<Rightarrow> mibSync \<Rightarrow> mibSync" where
  "learn_mac d w = w\<lparr>m_macAddress := hexEncode (idMac d)\<rparr>"

lemmas learn_defs = learn_vendor_def learn_equipment_def learn_image_def learn_mac_def

lemma learn_fields [simp]:
  "m_cc (learn_vendor env d w) = m_cc w" "m_comm (learn_vendor env d w) = m_comm w"
  "m_servers (learn_vendor env d w) = m_servers w" "m_swImages (learn_vendor env d w) = m_swImages w"
  "m_cc (learn_equipment env d w) = m_cc w" "m_comm (learn_equipment env d w) = m_comm w"
  "m_servers (learn_equipment env d w) = m_servers w" "m_swImages (learn_equipment env d w) = m_swImages w"
  "m_cc (learn_image env i im w) = m_cc w" "m_comm (learn_image env i im w) = m_comm w"
  "m_servers (learn_image env i im w) = m_servers w"
  "length (m_swImages (learn_image env i im w)) = length (m_swImages w)"
  "m_cc (learn_mac d w) = m_cc w" "m_comm (learn_mac d w) = m_comm w" "m_servers (learn_mac d w) = m_servers w"
  by (simp_all add: learn_defs)


lemma learn_cc [simp]:
  "learn_vendor env d (w\<lparr>m_cc := cc\<rparr>) = (learn_vendor env d w)\<lparr>m_cc := cc\<rparr>"
  "learn_equipment env d (w\<lparr>m_cc := cc\<rparr>) = (learn_equipment env d w)\<lparr>m_cc := cc\<rparr>"
  "learn_image env i im (w\<lparr>m_cc := cc\<rparr>) = (learn_image env i im w)\<lparr>m_cc := cc\<rparr>"
  "learn_mac d (w\<lparr>m_cc := cc\<rparr>) = (learn_mac d w)\<lparr>m_cc := cc\<rparr>"
  by (cases w; simp add: learn_defs)+











section \<open>From the template to the synchronised data base\<close>








section \<open>Property\<close>



end
