(* ===== verification/Phase_Loop.thy ===== *)
theory Phase_Loop
  imports Closed_Loop
begin

text \<open>
  What the configuration machines share in the loop with their channel and an ONU. Each has
  goroutines that send one managed entity after the other and wait for each response; the
  message loop hands them one acknowledgement at a time on an unbuffered Go channel. The
  step relation \<open>phase_step\<close> takes these goroutines apart into their sends and waits.

  The locale \<open>phased_machine\<close> is the contract of such a machine. It gives the contract of a
  client of the channel, so that every machine inherits the round trip of a request; the
  machines interpret it with their own state, events and requests.
\<close>

section \<open>The goroutines of a machine\<close>

text \<open>A goroutine of kind \<open>'x\<close> that has requests \<open>'s\<close> left to send.\<close>

datatype ('x, 's) phasePc = PcIdle | PcSend 'x "'s list" | PcWait 'x "'s list"

text \<open>
  The parts of a machine: its OMCI channel, the acknowledgements on their way to a waiting
  goroutine, the Go channel it is served from, its events and its handler, how it sends a
  request, the requests and the final event of each kind of goroutine, the event after a
  negative response, and what its other goroutines do.
\<close>

record ('ev, 'st, 'x, 's, 'm) phased =
  ph_cc :: "('ev, 'x, 'm) fsmWorld_scheme \<Rightarrow> omciCC"
  ph_setCc :: "omciCC \<Rightarrow> ('ev, 'x, 'm) fsmWorld_scheme \<Rightarrow> ('ev, 'x, 'm) fsmWorld_scheme"
  ph_responses :: "('ev, 'x, 'm) fsmWorld_scheme \<Rightarrow> bool list"
  ph_setResponses :: "bool list \<Rightarrow> ('ev, 'x, 'm) fsmWorld_scheme \<Rightarrow> ('ev, 'x, 'm) fsmWorld_scheme"
  ph_channel :: channel
  ph_fire :: "'ev \<Rightarrow> 'st \<times> ('ev, 'x, 'm) fsmWorld_scheme \<Rightarrow> 'st \<times> ('ev, 'x, 'm) fsmWorld_scheme"
  ph_handler :: "omciHeader \<Rightarrow> rxPacket \<Rightarrow> 'st \<times> ('ev, 'x, 'm) fsmWorld_scheme \<Rightarrow>
    ('st \<times> ('ev, 'x, 'm) fsmWorld_scheme) outcome"
  ph_transmit :: "'s \<Rightarrow> ('ev, 'x, 'm) fsmWorld_scheme \<Rightarrow> ('ev, 'x, 'm) fsmWorld_scheme"
  ph_phase :: "'x \<Rightarrow> ((('ev, 'x, 'm) fsmWorld_scheme \<Rightarrow> 's list) \<times> 'ev) option"
  ph_reset :: 'ev
  ph_other :: "'x \<Rightarrow> 'st \<times> ('ev, 'x, 'm) fsmWorld_scheme \<Rightarrow> 'st \<times> ('ev, 'x, 'm) fsmWorld_scheme \<Rightarrow> bool"

text \<open>
  The steps of the goroutines: a loop starts, sends, has sent everything, is acknowledged or
  refused; an event is fired; another goroutine runs.
\<close>

inductive phase_step :: "('ev, 'st, 'x, 's, 'm) phased \<Rightarrow>
    ('st \<times> ('ev, 'x, 'm) fsmWorld_scheme) \<times> ('x, 's) phasePc \<Rightarrow>
    ('st \<times> ('ev, 'x, 'm) fsmWorld_scheme) \<times> ('x, 's) phasePc \<Rightarrow> bool" for M where
  ps_start: "w_tasks w = ts1 @ GoWork x # ts2 \<Longrightarrow> ph_phase M x = Some (senders, evDone) \<Longrightarrow>
    phase_step M ((st, w), PcIdle)
      ((st, w\<lparr>w_tasks := ts1 @ ts2\<rparr>), PcSend x (senders (w\<lparr>w_tasks := ts1 @ ts2\<rparr>)))"
| ps_send: "phase_step M ((st, w), PcSend x (s # ss)) ((st, ph_transmit M s w), PcWait x ss)"
| ps_done: "ph_phase M x = Some (senders, evDone) \<Longrightarrow>
    phase_step M ((st, w), PcSend x []) (ph_fire M evDone (st, w), PcIdle)"
| ps_acknowledged: "ph_responses M w = True # rs \<Longrightarrow>
    phase_step M ((st, w), PcWait x ss) ((st, ph_setResponses M rs w), PcSend x ss)"
| ps_refused: "ph_responses M w = False # rs \<Longrightarrow>
    phase_step M ((st, w), PcWait x ss) (ph_fire M (ph_reset M) (st, ph_setResponses M rs w), PcIdle)"
| ps_event: "w_tasks w = ts1 @ GoEvent e # ts2 \<Longrightarrow>
    phase_step M ((st, w), pc) (ph_fire M e (st, w\<lparr>w_tasks := ts1 @ ts2\<rparr>), pc)"
| ps_other: "w_tasks w = ts1 @ GoWork x # ts2 \<Longrightarrow> ph_phase M x = None \<Longrightarrow>
    ph_other M x (st, w\<lparr>w_tasks := ts1 @ ts2\<rparr>) s' \<Longrightarrow> phase_step M ((st, w), pc) (s', pc)"

inductive_cases phase_stepE: "phase_step M ((st, w), pc) m'"

lemma split_single: "ts1 @ x # ts2 = [a] \<longleftrightarrow> ts1 = [] \<and> x = a \<and> ts2 = []"
    "[a] = ts1 @ x # ts2 \<longleftrightarrow> ts1 = [] \<and> x = a \<and> ts2 = []"
  by (cases ts1; auto)+

lemma split_pair: "ts1 @ x # ts2 = [a, b] \<longleftrightarrow> ts1 = [] \<and> x = a \<and> ts2 = [b] \<or> ts1 = [a] \<and> x = b \<and> ts2 = []"
    "[a, b] = ts1 @ x # ts2 \<longleftrightarrow> ts1 = [] \<and> x = a \<and> ts2 = [b] \<or> ts1 = [a] \<and> x = b \<and> ts2 = []"
  by (cases ts1; auto simp: split_single)+

lemmas split_tasks = split_single split_pair

text \<open>One turn of the message loop; an acknowledgement blocks it until a goroutine takes it.\<close>

fun phaseServe :: "('ev, 'st, 'x, 's, 'm) phased \<Rightarrow> Message \<Rightarrow>
    ('st \<times> ('ev, 'x, 'm) fsmWorld_scheme) \<times> ('x, 's) phasePc \<Rightarrow>
    (('st \<times> ('ev, 'x, 'm) fsmWorld_scheme) \<times> ('x, 's) phasePc) outcome" where
  "phaseServe M (OMCI hdr packet) (s, pc) = bind_outcome (ph_handler M hdr packet s) (\<lambda>s'. Done (s', pc))"
| "phaseServe M (TestMsg AbortMessageProcessing) ((st, w), pc) =
     Done ((st, w\<lparr>w_tasks := remove1 GoMessages (w_tasks w)\<rparr>), pc)"
| "phaseServe M (TestMsg _) m = Done m"

definition phaseClient :: "('ev, 'st, 'x, 's, 'm) phased \<Rightarrow>
    (('st \<times> ('ev, 'x, 'm) fsmWorld_scheme) \<times> ('x, 's) phasePc) client" where
  "phaseClient M =
     \<lparr>cl_cc = (\<lambda>((st, w), pc). ph_cc M w), cl_setCc = (\<lambda>cc ((st, w), pc). ((st, ph_setCc M cc w), pc)),
      cl_comm = (\<lambda>((st, w), pc). w_comm w), cl_setComm = (\<lambda>ms ((st, w), pc). ((st, w\<lparr>w_comm := ms\<rparr>), pc)),
      cl_channel = ph_channel M,
      cl_served = (\<lambda>((st, w), pc). GoMessages \<in> set (w_tasks w) \<and> ph_responses M w = []),
      cl_serve = phaseServe M, cl_internal = phase_step M\<rparr>"

lemma phaseClient_simps [simp]:
  "cl_cc (phaseClient M) ((st, w), pc) = ph_cc M w"
  "cl_setCc (phaseClient M) cc ((st, w), pc) = ((st, ph_setCc M cc w), pc)"
  "cl_comm (phaseClient M) ((st, w), pc) = w_comm w"
  "cl_setComm (phaseClient M) ms ((st, w), pc) = ((st, w\<lparr>w_comm := ms\<rparr>), pc)"
  "cl_channel (phaseClient M) = ph_channel M"
  "cl_served (phaseClient M) ((st, w), pc) \<longleftrightarrow> GoMessages \<in> set (w_tasks w) \<and> ph_responses M w = []"
  "cl_serve (phaseClient M) = phaseServe M" "cl_internal (phaseClient M) = phase_step M"
  by (simp_all add: phaseClient_def)

text \<open>Nothing to do but to wait for messages.\<close>

definition quietly :: "('ev, 'st, 'x, 's, 'm) phased \<Rightarrow> ('ev, 'x, 'm) fsmWorld_scheme \<Rightarrow> bool" where
  "quietly M w \<longleftrightarrow> idle_cc (ph_cc M w) \<and> w_comm w = [] \<and> w_tasks w = [GoMessages] \<and> ph_responses M w = []"

lemma quietly_fields:
  assumes "quietly M w"
  shows "w\<lparr>w_comm := []\<rparr> = w" "w\<lparr>w_tasks := [GoMessages]\<rparr> = w"
  using assms by (cases w; simp add: quietly_def)+

definition lastTx :: "omciCC \<Rightarrow> (classID \<times> u16) option" where
  "lastTx cc = map_option (\<lambda>m. (meClass m, meEntity m)) (pLastTxMeInstance cc)"

lemma lastTx_iff: "lastTx cc = Some (c, i) \<longleftrightarrow> (\<exists>m. pLastTxMeInstance cc = Some m \<and> meClass m = c \<and> meEntity m = i)"
  by (auto simp: lastTx_def)

text \<open>A create or set request of an instance, as the ONU sees it.\<close>

definition instance_key :: "rqKey \<Rightarrow> bool" where
  "instance_key k \<longleftrightarrow> fst k = CreateRequest \<or> fst k = SetRequest"

definition key_instance :: "rqKey \<Rightarrow> classID \<times> u16" where
  "key_instance k = (fst (snd k), fst (snd (snd k)))"

text \<open>The request \<open>k\<close> with its attributes has been sent on an idle channel.\<close>

definition in_flight :: "('ev, 'st, 'x, 's, 'm) phased \<Rightarrow> rqKey \<times> attrs \<Rightarrow> omciCC \<Rightarrow> omciCC \<Rightarrow> bool" where
  "in_flight M k cc cc' \<longleftrightarrow> (\<exists>rq. waits_for (ph_channel M) rq cc' \<and> (rqKeyOf rq, rqAttrs rq) = k) \<and>
     lastTx cc' = Some (key_instance (fst k)) \<and> same_log cc cc'"

definition asks_for :: "('ev, 'st, 'x, 's, 'm) phased \<Rightarrow> 's \<Rightarrow> rqKey \<times> attrs \<Rightarrow> bool" where
  "asks_for M s k \<longleftrightarrow> (\<forall>w. idle_cc (ph_cc M w) \<longrightarrow>
     (\<exists>cc'. ph_transmit M s w = ph_setCc M cc' w \<and> in_flight M k (ph_cc M w) cc'))"

text \<open>
  What the handler does with the answer to a request: it passes the acknowledgement on to the
  waiting goroutine, fires an event, or drops the answer.
\<close>

definition handles :: "('ev, 'st, 'x, 's, 'm) phased \<Rightarrow> (rqKey \<Rightarrow> rxPacket) \<Rightarrow> rqKey \<Rightarrow>
    ('st \<times> ('ev, 'x, 'm) fsmWorld_scheme \<Rightarrow> 'st \<times> ('ev, 'x, 'm) fsmWorld_scheme) \<Rightarrow> bool" where
  "handles M ans k f \<longleftrightarrow> (\<forall>hdr st w. hdrMessageType hdr = responseType (fst k) \<and>
     lastTx (ph_cc M w) = Some (key_instance k) \<longrightarrow> ph_handler M hdr (ans k) (st, w) = Done (f (st, w)))"

definition passes_on :: "('ev, 'st, 'x, 's, 'm) phased \<Rightarrow> (rqKey \<Rightarrow> rxPacket) \<Rightarrow> rqKey \<Rightarrow> bool" where
  "passes_on M ans k \<longleftrightarrow> handles M ans k (\<lambda>(st, w). (st, ph_setResponses M (ph_responses M w @ [True]) w))"

definition triggers :: "('ev, 'st, 'x, 's, 'm) phased \<Rightarrow> (rqKey \<Rightarrow> rxPacket) \<Rightarrow> rqKey \<Rightarrow> 'ev \<Rightarrow> bool" where
  "triggers M ans k e \<longleftrightarrow> handles M ans k (ph_fire M e)"

definition drops :: "('ev, 'st, 'x, 's, 'm) phased \<Rightarrow> (rqKey \<Rightarrow> rxPacket) \<Rightarrow> rqKey \<Rightarrow> bool" where
  "drops M ans k \<longleftrightarrow> handles M ans k id"

text \<open>
  Requests that are \<open>heard\<close>: the ONU accepts them and the handler takes notice. If all
  requests \<open>ks\<close> of a machine are heard, \<open>P\<close> holds at its \<open>final\<close> state, with whatever channel they leave;
  after the first one that is not, \<open>P\<close> holds where the machine \<open>halts\<close>.
\<close>

definition ends_with :: "('ev, 'st, 'x, 's, 'm) phased \<Rightarrow> (rqKey \<Rightarrow> bool) \<Rightarrow> ('st \<Rightarrow> ('x, 's) phasePc \<Rightarrow> bool) \<Rightarrow>
    ((('st \<times> ('ev, 'x, 'm) fsmWorld_scheme) \<times> ('x, 's) phasePc) loop \<Rightarrow> bool) \<Rightarrow>
    (('ev, 'x, 'm) fsmWorld_scheme \<Rightarrow> 'st \<times> ('ev, 'x, 'm) fsmWorld_scheme) \<Rightarrow> (rqKey \<times> attrs) list \<Rightarrow>
    ('ev, 'x, 'm) fsmWorld_scheme \<Rightarrow> bool" where
  "ends_with M heard halts P final ks w \<longleftrightarrow>
     (\<forall>cc. list_all (heard \<circ> fst) ks \<and> idle_cc cc \<and> requestLog cc = requestLog (ph_cc M w) @ map Some ks \<longrightarrow>
        P (loopOf (phaseClient M) (final (ph_setCc M cc w), PcIdle))) \<and>
     (\<forall>good bad rest cc st pc. ks = good @ bad # rest \<and> list_all (heard \<circ> fst) good \<and> \<not> heard (fst bad) \<and> idle_cc cc \<and>
        requestLog cc = requestLog (ph_cc M w) @ map Some (good @ [bad]) \<and> halts st pc \<longrightarrow>
        P (loopOf (phaseClient M) ((st, ph_setCc M cc w), pc)))"

text \<open>
  The machine halts after the first of its requests that is not heard: nothing is possible any
  more, except that the time limit of a waiting goroutine runs out, which leads to \<open>R\<close> on every run.
\<close>

definition halted :: "('ev, 'st, 'x, 's, 'm) phased \<Rightarrow> omciLib \<Rightarrow> (omciRequest \<Rightarrow> u8 list) \<Rightarrow> (rqKey \<Rightarrow> bool) \<Rightarrow>
    (rqKey \<times> attrs) list \<Rightarrow> ('st \<Rightarrow> ('x, 's) phasePc \<Rightarrow> bool) \<Rightarrow> (rqKey \<times> attrs) option list \<Rightarrow>
    (('ev, 'x, 'm) fsmWorld_scheme \<Rightarrow> bool) \<Rightarrow> ((('st \<times> ('ev, 'x, 'm) fsmWorld_scheme) \<times> ('x, 's) phasePc) loop \<Rightarrow> bool) \<Rightarrow>
    (('st \<times> ('ev, 'x, 'm) fsmWorld_scheme) \<times> ('x, 's) phasePc) loop \<Rightarrow> bool" where
  "halted M lib onu heard reqs halts sent Q R s \<longleftrightarrow> (\<exists>good bad rest st w pc.
     reqs = good @ bad # rest \<and> list_all (heard \<circ> fst) good \<and> \<not> heard (fst bad) \<and>
     lp_machine s = ((st, w), pc) \<and> halts st pc \<and> requestLog (ph_cc M w) = sent @ map Some (good @ [bad]) \<and> Q w \<and>
     (\<nexists>s'. loop_step lib onu (phaseClient M) s s') \<and>
     (\<forall>x ss. pc = PcWait x ss \<longrightarrow>
        inevitable (loop_step lib onu (phaseClient M)) R (loopOf (phaseClient M) (ph_fire M (ph_reset M) (st, w), PcIdle))))"

definition outcome :: "('ev, 'st, 'x, 's, 'm) phased \<Rightarrow> omciLib \<Rightarrow> (omciRequest \<Rightarrow> u8 list) \<Rightarrow> (rqKey \<Rightarrow> bool) \<Rightarrow>
    (rqKey \<times> attrs) list \<Rightarrow> ('st \<Rightarrow> ('x, 's) phasePc \<Rightarrow> bool) \<Rightarrow> (rqKey \<times> attrs) option list \<Rightarrow>
    (('ev, 'x, 'm) fsmWorld_scheme \<Rightarrow> bool) \<Rightarrow> ((('st \<times> ('ev, 'x, 'm) fsmWorld_scheme) \<times> ('x, 's) phasePc) loop \<Rightarrow> bool) \<Rightarrow>
    ((('st \<times> ('ev, 'x, 'm) fsmWorld_scheme) \<times> ('x, 's) phasePc) loop \<Rightarrow> bool) \<Rightarrow>
    (('st \<times> ('ev, 'x, 'm) fsmWorld_scheme) \<times> ('x, 's) phasePc) loop \<Rightarrow> bool" where
  "outcome M lib onu heard reqs halts sent Q R Good s \<longleftrightarrow>
     (if list_all (heard \<circ> fst) reqs then Good s else halted M lib onu heard reqs halts sent Q R s)"

text \<open>What does not touch the channels and the goroutines of a machine.\<close>

definition works_aside :: "('ev, 'st, 'x, 's, 'm) phased \<Rightarrow>
    (('ev, 'x, 'm) fsmWorld_scheme \<Rightarrow> ('ev, 'x, 'm) fsmWorld_scheme) \<Rightarrow> bool" where
  "works_aside M h \<longleftrightarrow> (\<forall>v ms. h (v\<lparr>w_comm := ms\<rparr>) = (h v)\<lparr>w_comm := ms\<rparr>) \<and>
     (\<forall>v ts. h (v\<lparr>w_tasks := ts\<rparr>) = (h v)\<lparr>w_tasks := ts\<rparr>) \<and>
     (\<forall>v. ph_cc M (h v) = ph_cc M v \<and> ph_responses M (h v) = ph_responses M v \<and> w_comm (h v) = w_comm v)"

lemma works_aside_simps:
  assumes "works_aside M h"
  shows "h (v\<lparr>w_comm := ms\<rparr>) = (h v)\<lparr>w_comm := ms\<rparr>" "h (v\<lparr>w_tasks := ts\<rparr>) = (h v)\<lparr>w_tasks := ts\<rparr>"
    "ph_cc M (h v) = ph_cc M v" "ph_responses M (h v) = ph_responses M v" "w_comm (h v) = w_comm v"
  using assms by (simp_all add: works_aside_def)

lemma same_log_refl [simp]: "same_log cc cc"
  by (simp add: same_log_def)

lemma requestLog_same: "same_log cc cc' \<Longrightarrow> requestLog cc' = requestLog cc"
  by (simp add: same_log_def requestLog_def)

section \<open>The contract\<close>

locale phased_machine =
  fixes M :: "('ev, 'st, 'x, 's, 'm) phased"
  assumes cc_set: "ph_cc M (ph_setCc M c w) = c"
    and set_set: "ph_setCc M c (ph_setCc M c' w) = ph_setCc M c w"
    and set_cc: "ph_setCc M (ph_cc M w) w = w"
    and set_world: "w_comm (ph_setCc M c w) = w_comm w" "w_tasks (ph_setCc M c w) = w_tasks w"
    and world_set: "ph_setCc M c (w\<lparr>w_comm := ms\<rparr>) = (ph_setCc M c w)\<lparr>w_comm := ms\<rparr>"
      "ph_setCc M c (w\<lparr>w_tasks := ts\<rparr>) = (ph_setCc M c w)\<lparr>w_tasks := ts\<rparr>"
    and cc_world: "ph_cc M (w\<lparr>w_comm := ms\<rparr>) = ph_cc M w" "ph_cc M (w\<lparr>w_tasks := ts\<rparr>) = ph_cc M w"
    and responses_set: "ph_responses M (ph_setResponses M rs w) = rs"
      "ph_responses M (ph_setCc M c w) = ph_responses M w"
    and responses_world: "ph_responses M (w\<lparr>w_comm := ms\<rparr>) = ph_responses M w"
      "ph_responses M (w\<lparr>w_tasks := ts\<rparr>) = ph_responses M w"
    and setResponses: "ph_setResponses M (ph_responses M w) w = w"
      "ph_setResponses M rs (ph_setResponses M rs' w) = ph_setResponses M rs w"
    and setResponses_world: "w_comm (ph_setResponses M rs w) = w_comm w"
      "w_tasks (ph_setResponses M rs w) = w_tasks w" "ph_cc M (ph_setResponses M rs w) = ph_cc M w"
    and other_cc: "ph_other M x (st, w) s' \<Longrightarrow> \<exists>s''. ph_other M x (st, ph_setCc M c w) s''"
    and other_comm: "ph_other M x (st, w) s' \<Longrightarrow> \<exists>s''. ph_other M x (st, w\<lparr>w_comm := ms\<rparr>) s''"
begin

lemmas machine_simps [simp] = cc_set set_set set_world cc_world responses_set responses_world
  setResponses_world setResponses(2)

lemma step_with_cc: "phase_step M ((st, w), pc) m' \<Longrightarrow> \<exists>m''. phase_step M ((st, ph_setCc M c w), pc) m''"
proof (erule phase_stepE, goal_cases)
  case (1 ts1 x ts2 senders evDone)
  then show ?case using ps_start [of "ph_setCc M c w" ts1 x ts2 M senders evDone st] by auto
next
  case (2 x s ss)
  then show ?case by (metis ps_send)
next
  case (3 x senders evDone)
  then show ?case by (metis ps_done)
next
  case (4 rs x ss)
  then show ?case using ps_acknowledged [of M "ph_setCc M c w" rs st x ss] by auto
next
  case (5 rs x ss)
  then show ?case by (simp del: split_paired_Ex) (rule exI, rule ps_refused [of M "ph_setCc M c w" rs st x ss], simp)
next
  case (6 ts1 e ts2)
  then show ?case by - (rule exI, rule ps_event [of "ph_setCc M c w" ts1 e ts2], simp)
next
  case (7 ts1 x ts2 s')
  obtain s'' where "ph_other M x (st, (ph_setCc M c w)\<lparr>w_tasks := ts1 @ ts2\<rparr>) s''"
    using other_cc [OF 7(4), of c] by (auto simp: world_set)
  with 7 show ?case by - (rule exI, rule ps_other [of "ph_setCc M c w" ts1 x ts2], simp_all)
qed

lemma step_with_comm: "phase_step M ((st, w), pc) m' \<Longrightarrow> \<exists>m''. phase_step M ((st, w\<lparr>w_comm := ms\<rparr>), pc) m''"
proof (erule phase_stepE, goal_cases)
  case (1 ts1 x ts2 senders evDone)
  then show ?case using ps_start [of "w\<lparr>w_comm := ms\<rparr>" ts1 x ts2 M senders evDone st] by auto
next
  case (2 x s ss)
  then show ?case by (metis ps_send)
next
  case (3 x senders evDone)
  then show ?case by (metis ps_done)
next
  case (4 rs x ss)
  then show ?case using ps_acknowledged [of M "w\<lparr>w_comm := ms\<rparr>" rs st x ss] by auto
next
  case (5 rs x ss)
  then show ?case by (simp del: split_paired_Ex) (rule exI, rule ps_refused [of M "w\<lparr>w_comm := ms\<rparr>" rs st x ss], simp)
next
  case (6 ts1 e ts2)
  then show ?case by - (rule exI, rule ps_event [of "w\<lparr>w_comm := ms\<rparr>" ts1 e ts2], simp)
next
  case (7 ts1 x ts2 s')
  have "w\<lparr>w_tasks := ts1 @ ts2, w_comm := ms\<rparr> = w\<lparr>w_comm := ms, w_tasks := ts1 @ ts2\<rparr>" by simp
  with other_comm [OF 7(4), of ms] obtain s'' where "ph_other M x (st, w\<lparr>w_comm := ms, w_tasks := ts1 @ ts2\<rparr>) s''"
    by auto
  with 7 show ?case by - (rule exI, rule ps_other [of "w\<lparr>w_comm := ms\<rparr>" ts1 x ts2], simp_all)
qed

lemma rests_cc: "rests (phaseClient M) ((st, ph_setCc M c w), pc) \<longleftrightarrow> rests (phaseClient M) ((st, w), pc)"
  using step_with_cc [of st w pc _ c] step_with_cc [of st "ph_setCc M c w" pc _ "ph_cc M w"]
  by (auto simp: rests_def set_cc)

lemma rests_comm: "rests (phaseClient M) ((st, w\<lparr>w_comm := ms\<rparr>), pc) \<longleftrightarrow> rests (phaseClient M) ((st, w), pc)"
  using step_with_comm [of st w pc _ ms] step_with_comm [of st "w\<lparr>w_comm := ms\<rparr>" pc _ "w_comm w"]
  by (auto simp: rests_def)

lemma rests_quiet:
  "w_tasks w = [GoMessages] \<Longrightarrow> ph_responses M w = [] \<Longrightarrow> pc = PcIdle \<or> (\<exists>x ss. pc = PcWait x ss) \<Longrightarrow>
   rests (phaseClient M) ((st, w), pc)"
  by (auto simp: rests_def split_tasks elim!: phase_stepE)

end

text \<open>Every such machine is a client of the channel.\<close>

sublocale phased_machine \<subseteq> client: omci_client "phaseClient M"
proof (unfold_locales, goal_cases)
  case (10 cc m)
  obtain st w pc where "m = ((st, w), pc)" by (metis surj_pair)
  then show ?case by (simp add: rests_cc)
next
  case (11 ms m)
  obtain st w pc where "m = ((st, w), pc)" by (metis surj_pair)
  then show ?case by (simp add: rests_comm)
qed (auto simp: phaseClient_def split: prod.splits)

section \<open>Requests and acknowledgements\<close>

context phased_machine
begin

abbreviation inev :: "omciLib \<Rightarrow> (omciRequest \<Rightarrow> u8 list) \<Rightarrow>
    ((('st \<times> ('ev, 'x, 'm) fsmWorld_scheme) \<times> ('x, 's) phasePc) loop \<Rightarrow> bool) \<Rightarrow>
    (('st \<times> ('ev, 'x, 'm) fsmWorld_scheme) \<times> ('x, 's) phasePc) loop \<Rightarrow> bool" where
  "inev lib onu \<equiv> inevitable (loop_step lib onu (phaseClient M))"

abbreviation lp :: "'st \<Rightarrow> ('ev, 'x, 'm) fsmWorld_scheme \<Rightarrow> ('x, 's) phasePc \<Rightarrow>
    (('st \<times> ('ev, 'x, 'm) fsmWorld_scheme) \<times> ('x, 's) phasePc) loop" where
  "lp st w pc \<equiv> loopOf (phaseClient M) ((st, w), pc)"

text \<open>The answer to a request arrives, and the handler deals with it.\<close>

lemma answer_arrives:
  assumes "answers lib onu ans" and "quietly M w" and "in_flight M k (ph_cc M w) cc'"
    and "pc = PcIdle \<or> (\<exists>x ss. pc = PcWait x ss)"
    and "\<And>cc hdr. idle_cc cc \<Longrightarrow> requestLog cc = requestLog (ph_cc M w) @ [Some k] \<Longrightarrow>
      lastTx cc = Some (key_instance (fst k)) \<Longrightarrow> hdrMessageType hdr = responseType (fst (fst k)) \<Longrightarrow>
      \<exists>st' w'. ph_handler M hdr (ans (fst k)) (st, ph_setCc M cc w) = Done (st', w') \<and>
        same_log cc (ph_cc M w') \<and> inev lib onu P (lp st' w' pc)"
  shows "inev lib onu P (lp st (ph_setCc M cc' w) pc)"
proof -
  let ?m = "((st, ph_setCc M cc' w), pc)"
  obtain rq where rq: "waits_for (ph_channel M) rq cc'" "k = (rqKeyOf rq, rqAttrs rq)"
    using assms(3) by (auto simp: in_flight_def)
  have q: "w_comm w = []" "w_tasks w = [GoMessages]" "ph_responses M w = []"
    using assms(2) by (simp_all add: quietly_def)
  show ?thesis
  proof (rule client.answered_with [OF _ _ _ _ assms(1), where rq = rq])
    fix cc and hdr :: omciHeader
    assume "idle_cc cc" "hdrMessageType hdr = responseType (rqType rq)"
      and "requestLog cc = requestLog (cl_cc (phaseClient M) ?m) @ [Some (rqKeyOf rq, rqAttrs rq)]"
      and "pLastTxMeInstance cc = pLastTxMeInstance (cl_cc (phaseClient M) ?m)"
    moreover from this have "lastTx cc = Some (key_instance (fst k))" "requestLog cc = requestLog (ph_cc M w) @ [Some k]"
      using assms(3) rq(2) requestLog_same [of "ph_cc M w" cc'] by (simp_all add: in_flight_def lastTx_def)
    moreover have "rqType rq = fst (fst k)" using rq(2) by (simp add: rqKeyOf_def)
    ultimately obtain st' w' where "ph_handler M hdr (ans (fst k)) (st, ph_setCc M cc w) = Done (st', w')"
        "same_log cc (ph_cc M w')" "inev lib onu P (lp st' w' pc)"
      using assms(5) [of cc hdr] by auto
    then show "\<exists>m'. cl_serve (phaseClient M) (OMCI hdr (ans (rqKeyOf rq))) (cl_setCc (phaseClient M) cc ?m) = Done m' \<and>
        same_log cc (cl_cc (phaseClient M) m') \<and> inev lib onu P (loopOf (phaseClient M) m')"
      using rq(2) by (intro exI [of _ "((st', w'), pc)"]) (simp add: panic_simps)
  qed (use rq(1) q assms(4) rests_quiet [of "ph_setCc M cc' w" pc st] in auto)
qed

text \<open>The acknowledgement moves the machine to its next state.\<close>

lemma answer_moves:
  assumes "answers lib onu ans" and "quietly M w" and "in_flight M k (ph_cc M w) cc'" and "triggers M ans (fst k) e"
    and "\<And>cc. idle_cc cc \<Longrightarrow> requestLog cc = requestLog (ph_cc M w) @ [Some k] \<Longrightarrow>
      \<exists>st' w'. ph_fire M e (st, ph_setCc M cc w) = (st', w') \<and> same_log cc (ph_cc M w') \<and> inev lib onu P (lp st' w' PcIdle)"
  shows "inev lib onu P (lp st (ph_setCc M cc' w) PcIdle)"
proof (rule answer_arrives [OF assms(1-3)])
  fix cc and hdr :: omciHeader
  assume cc: "idle_cc cc" "requestLog cc = requestLog (ph_cc M w) @ [Some k]" "lastTx cc = Some (key_instance (fst k))"
      "hdrMessageType hdr = responseType (fst (fst k))"
  have "ph_handler M hdr (ans (fst k)) (st, ph_setCc M cc w) = Done (ph_fire M e (st, ph_setCc M cc w))"
    using assms(4) cc(3,4) by (simp add: triggers_def handles_def)
  with assms(5) [OF cc(1,2)]
  show "\<exists>st' w'. ph_handler M hdr (ans (fst k)) (st, ph_setCc M cc w) = Done (st', w') \<and>
      same_log cc (ph_cc M w') \<and> inev lib onu P (lp st' w' PcIdle)"
    by auto
qed simp

text \<open>A goroutine that waits gets the acknowledgement and goes on.\<close>

lemma acknowledged:
  assumes "answers lib onu ans" and "quietly M w" and "in_flight M k (ph_cc M w) cc'" and "passes_on M ans (fst k)"
    and "\<And>cc. idle_cc cc \<Longrightarrow> requestLog cc = requestLog (ph_cc M w) @ [Some k] \<Longrightarrow>
      inev lib onu P (lp st (ph_setCc M cc w) (PcSend x ss))"
  shows "inev lib onu P (lp st (ph_setCc M cc' w) (PcWait x ss))"
proof (rule answer_arrives [OF assms(1-3)])
  fix cc and hdr :: omciHeader
  assume cc: "idle_cc cc" "requestLog cc = requestLog (ph_cc M w) @ [Some k]" "lastTx cc = Some (key_instance (fst k))"
      "hdrMessageType hdr = responseType (fst (fst k))"
  have q: "w_comm w = []" "w_tasks w = [GoMessages]" "ph_responses M w = []"
    using assms(2) by (simp_all add: quietly_def)
  let ?w = "ph_setCc M cc w" and ?w' = "ph_setResponses M [True] (ph_setCc M cc w)"
  have h: "ph_handler M hdr (ans (fst k)) (st, ?w) = Done (st, ?w')"
    using assms(4) cc(3,4) q(3) by (simp add: passes_on_def handles_def)
  have taken: "ph_setResponses M [] ?w = ?w"
    using setResponses(1) [of ?w] q(3) by simp
  have "inev lib onu P (lp st ?w' (PcWait x ss))"
  proof (rule client.goes_on)
    show "cl_internal (phaseClient M) ((st, ?w'), PcWait x ss) ((st, ?w), PcSend x ss)"
      using ps_acknowledged [of M ?w' "[]" st x ss] by (simp add: taken)
    show "m'' = ((st, ?w), PcSend x ss)" if "cl_internal (phaseClient M) ((st, ?w'), PcWait x ss) m''" for m''
      using that q by (auto elim!: phase_stepE simp: split_tasks taken)
    show "inev lib onu P (lp st ?w (PcSend x ss))" by (rule assms(5) [OF cc(1,2)])
  qed (use cc(1) q in simp_all)
  with h show "\<exists>st' w'. ph_handler M hdr (ans (fst k)) (st, ?w) = Done (st', w') \<and>
      same_log cc (ph_cc M w') \<and> inev lib onu P (lp st' w' (PcWait x ss))"
    by (intro exI [of _ st] exI [of _ ?w']) simp
qed simp

text \<open>The answer is dropped: the machine stays where it is.\<close>

lemma answer_dropped:
  assumes "answers lib onu ans" and "quietly M w" and "in_flight M k (ph_cc M w) cc'" and "drops M ans (fst k)"
    and "pc = PcIdle \<or> (\<exists>x ss. pc = PcWait x ss)"
    and "\<And>cc. idle_cc cc \<Longrightarrow> requestLog cc = requestLog (ph_cc M w) @ [Some k] \<Longrightarrow> P (lp st (ph_setCc M cc w) pc)"
  shows "inev lib onu P (lp st (ph_setCc M cc' w) pc)"
proof (rule answer_arrives [OF assms(1-3,5)])
  fix cc and hdr :: omciHeader
  assume cc: "idle_cc cc" "requestLog cc = requestLog (ph_cc M w) @ [Some k]" "lastTx cc = Some (key_instance (fst k))"
      "hdrMessageType hdr = responseType (fst (fst k))"
  show "\<exists>st' w'. ph_handler M hdr (ans (fst k)) (st, ph_setCc M cc w) = Done (st', w') \<and>
      same_log cc (ph_cc M w') \<and> inev lib onu P (lp st' w' pc)"
    using assms(4) cc assms(6) [OF cc(1,2)]
    by (intro exI [of _ st] exI [of _ "ph_setCc M cc w"]) (simp add: drops_def handles_def inevitable_now)
qed

text \<open>A loop sends its requests one after the other, and goes on with the rest.\<close>

lemma loop_sends_some:
  assumes "answers lib onu ans"
  shows "list_all2 (asks_for M) ss ks \<Longrightarrow> list_all (passes_on M ans \<circ> fst) ks \<Longrightarrow> quietly M w \<Longrightarrow>
    (\<And>cc. idle_cc cc \<Longrightarrow> requestLog cc = requestLog (ph_cc M w) @ map Some ks \<Longrightarrow>
      inev lib onu P (lp st (ph_setCc M cc w) (PcSend x rest))) \<Longrightarrow>
    inev lib onu P (lp st w (PcSend x (ss @ rest)))"
proof (induction ss ks arbitrary: w rule: list_all2_induct)
  case Nil
  then show ?case using Nil.prems(3) [of "ph_cc M w"] by (simp add: quietly_def set_cc)
next
  case (Cons s ss k ks)
  have q: "idle_cc (ph_cc M w)" "w_comm w = []" "w_tasks w = [GoMessages]"
    using Cons.prems(2) by (simp_all add: quietly_def)
  obtain cc' where t: "ph_transmit M s w = ph_setCc M cc' w" "in_flight M k (ph_cc M w) cc'"
    using Cons.hyps(1) q(1) unfolding asks_for_def by blast
  have "inev lib onu P (lp st (ph_setCc M cc' w) (PcWait x (ss @ rest)))"
  proof (rule acknowledged [OF assms Cons.prems(2) t(2)])
    show "passes_on M ans (fst k)" using Cons.prems(1) by simp
    fix cc2
    assume cc2: "idle_cc cc2" "requestLog cc2 = requestLog (ph_cc M w) @ [Some k]"
    show "inev lib onu P (lp st (ph_setCc M cc2 w) (PcSend x (ss @ rest)))"
    proof (rule Cons.IH)
      show "inev lib onu P (lp st (ph_setCc M cc3 (ph_setCc M cc2 w)) (PcSend x rest))"
        if "idle_cc cc3" "requestLog cc3 = requestLog (ph_cc M (ph_setCc M cc2 w)) @ map Some ks" for cc3
        using Cons.prems(3) [of cc3] that cc2(2) by simp
    qed (use Cons.prems(1,2) cc2(1) in \<open>simp_all add: quietly_def\<close>)
  qed
  then show ?case
  proof (rule client.goes_on [rotated -1])
    show "cl_internal (phaseClient M) ((st, w), PcSend x ((s # ss) @ rest)) ((st, ph_setCc M cc' w), PcWait x (ss @ rest))"
      using ps_send [of M st w x s "ss @ rest"] t(1) by simp
    show "m'' = ((st, ph_setCc M cc' w), PcWait x (ss @ rest))"
      if "cl_internal (phaseClient M) ((st, w), PcSend x ((s # ss) @ rest)) m''" for m''
      using that q(3) t(1) by (auto elim!: phase_stepE simp: split_tasks)
    show "same_log (cl_cc (phaseClient M) ((st, w), PcSend x ((s # ss) @ rest)))
        (cl_cc (phaseClient M) ((st, ph_setCc M cc' w), PcWait x (ss @ rest)))"
      using t(2) by (simp add: in_flight_def)
  qed (use q in simp_all)
qed

lemma loop_sends:
  assumes "answers lib onu ans" and "list_all2 (asks_for M) ss ks" and "list_all (passes_on M ans \<circ> fst) ks" and "quietly M w"
    and "\<And>cc. idle_cc cc \<Longrightarrow> requestLog cc = requestLog (ph_cc M w) @ map Some ks \<Longrightarrow>
      inev lib onu P (lp st (ph_setCc M cc w) (PcSend x []))"
  shows "inev lib onu P (lp st w (PcSend x ss))"
  using loop_sends_some [OF assms(1-4), of P st x "[]"] assms(5) by simp

text \<open>An answer that the handler drops leaves the goroutine waiting, with nothing left to happen.\<close>

lemma waits_in_vain:
  assumes "answers lib onu ans" and "quietly M w" and "asks_for M s k" and "drops M ans (fst k)"
    and "\<And>cc. idle_cc cc \<Longrightarrow> requestLog cc = requestLog (ph_cc M w) @ [Some k] \<Longrightarrow>
      P (lp st (ph_setCc M cc w) (PcWait x ss))"
  shows "inev lib onu P (lp st w (PcSend x (s # ss)))"
proof -
  have q: "idle_cc (ph_cc M w)" "w_comm w = []" "w_tasks w = [GoMessages]"
    using assms(2) by (simp_all add: quietly_def)
  obtain cc' where t: "ph_transmit M s w = ph_setCc M cc' w" "in_flight M k (ph_cc M w) cc'"
    using assms(3) q(1) unfolding asks_for_def by blast
  have "inev lib onu P (lp st (ph_setCc M cc' w) (PcWait x ss))"
    by (rule answer_dropped [OF assms(1,2) t(2) assms(4)]) (use assms(5) in simp_all)
  then show ?thesis
  proof (rule client.goes_on [rotated -1])
    show "cl_internal (phaseClient M) ((st, w), PcSend x (s # ss)) ((st, ph_setCc M cc' w), PcWait x ss)"
      using ps_send [of M st w x s ss] t(1) by simp
    show "m'' = ((st, ph_setCc M cc' w), PcWait x ss)"
      if "cl_internal (phaseClient M) ((st, w), PcSend x (s # ss)) m''" for m''
      using that q(3) t(1) by (auto elim!: phase_stepE simp: split_tasks)
    show "same_log (cl_cc (phaseClient M) ((st, w), PcSend x (s # ss)))
        (cl_cc (phaseClient M) ((st, ph_setCc M cc' w), PcWait x ss))"
      using t(2) by (simp add: in_flight_def)
  qed (use q in simp_all)
qed

lemma stuck:
  assumes "quietly M w" and "pc = PcIdle \<or> (\<exists>x ss. pc = PcWait x ss)"
  shows "\<nexists>s'. loop_step lib onu (phaseClient M) (lp st w pc) s'"
proof
  assume "\<exists>s'. loop_step lib onu (phaseClient M) (lp st w pc) s'"
  then obtain s' where "loop_step lib onu (phaseClient M) (lp st w pc) s'" by blast
  moreover have "rests (phaseClient M) ((st, w), pc)"
    using assms by (intro rests_quiet) (simp_all add: quietly_def)
  ultimately show False
    by cases (use assms in \<open>auto simp: loopOf_def quietly_def idle_cc_def rests_def\<close>)
qed

text \<open>A goroutine that is the only one besides the message loop.\<close>

lemma event_fires:
  assumes "idle_cc (ph_cc M w)" and "w_comm w = []" and "ph_responses M w = []"
    and "pc = PcIdle \<or> (\<exists>x ss. pc = PcWait x ss)" and "w_tasks w = [GoMessages, GoEvent e]"
    and "ph_fire M e (st, w\<lparr>w_tasks := [GoMessages]\<rparr>) = (st', w')" and "same_log (ph_cc M w) (ph_cc M w')"
    and "inev lib onu P (lp st' w' pc)"
  shows "inev lib onu P (lp st w pc)"
proof (rule client.goes_on [OF _ _ _ _ _ assms(8)])
  show "cl_internal (phaseClient M) ((st, w), pc) ((st', w'), pc)"
    using ps_event [of w "[GoMessages]" e "[]" M st pc] assms(5,6) by simp
  show "m'' = ((st', w'), pc)" if "cl_internal (phaseClient M) ((st, w), pc) m''" for m''
    using that assms(3-6) by (auto elim!: phase_stepE simp: split_tasks)
qed (use assms in simp_all)

lemma other_runs:
  assumes "idle_cc (ph_cc M w)" and "w_comm w = []" and "w_tasks w = [GoMessages, GoWork x]" and "ph_phase M x = None"
    and "\<And>s'. ph_other M x (st, w\<lparr>w_tasks := [GoMessages]\<rparr>) s' \<longleftrightarrow> s' = (st', w')"
    and "same_log (ph_cc M w) (ph_cc M w')" and "inev lib onu P (lp st' w' PcIdle)"
  shows "inev lib onu P (lp st w PcIdle)"
proof (rule client.goes_on [OF _ _ _ _ _ assms(7)])
  show "cl_internal (phaseClient M) ((st, w), PcIdle) ((st', w'), PcIdle)"
    using ps_other [of w "[GoMessages]" x "[]" M st "(st', w')" PcIdle] assms(3-5) by simp
  show "m'' = ((st', w'), PcIdle)" if "cl_internal (phaseClient M) ((st, w), PcIdle) m''" for m''
    using that assms(3-5) by (auto elim!: phase_stepE simp: split_tasks)
qed (use assms in simp_all)

lemma loop_starts:
  assumes "idle_cc (ph_cc M w)" and "w_comm w = []" and "w_tasks w = [GoMessages, GoWork x]"
    and "ph_phase M x = Some (senders, evDone)"
    and "inev lib onu P (lp st (w\<lparr>w_tasks := [GoMessages]\<rparr>) (PcSend x (senders (w\<lparr>w_tasks := [GoMessages]\<rparr>))))"
  shows "inev lib onu P (lp st w PcIdle)"
proof (rule client.goes_on [OF _ _ _ _ _ assms(5)])
  let ?m = "((st, w\<lparr>w_tasks := [GoMessages]\<rparr>), PcSend x (senders (w\<lparr>w_tasks := [GoMessages]\<rparr>)))"
  show "cl_internal (phaseClient M) ((st, w), PcIdle) ?m"
    using ps_start [of w "[GoMessages]" x "[]" M senders evDone st] assms(3,4) by simp
  show "m'' = ?m" if "cl_internal (phaseClient M) ((st, w), PcIdle) m''" for m''
    using that assms(3,4) by (auto elim!: phase_stepE simp: split_tasks)
qed (use assms in simp_all)

lemma loop_ends:
  assumes "quietly M w" and "ph_phase M x = Some (senders, evDone)"
    and "ph_fire M evDone (st, w) = (st', w')" and "same_log (ph_cc M w) (ph_cc M w')"
    and "inev lib onu P (lp st' w' PcIdle)"
  shows "inev lib onu P (lp st w (PcSend x []))"
proof (rule client.goes_on [OF _ _ _ _ _ assms(5)])
  show "cl_internal (phaseClient M) ((st, w), PcSend x []) ((st', w'), PcIdle)"
    using ps_done [OF assms(2), of st w] assms(3) by simp
  show "m'' = ((st', w'), PcIdle)" if "cl_internal (phaseClient M) ((st, w), PcSend x []) m''" for m''
    using that assms(1-3) by (auto elim!: phase_stepE simp: split_tasks quietly_def)
qed (use assms in \<open>simp_all add: quietly_def\<close>)

text \<open>A whole phase: the loop starts, sends everything, and fires its final event.\<close>

lemma phase_completes:
  assumes "answers lib onu ans" and "quietly M (w\<lparr>w_tasks := [GoMessages]\<rparr>)"
    and "w_tasks w = [GoMessages, GoWork x]" and "ph_phase M x = Some (senders, evDone)"
    and "list_all2 (asks_for M) (senders (w\<lparr>w_tasks := [GoMessages]\<rparr>)) ks" and "list_all (passes_on M ans \<circ> fst) ks"
    and "\<And>cc. idle_cc cc \<Longrightarrow> requestLog cc = requestLog (ph_cc M w) @ map Some ks \<Longrightarrow>
      \<exists>st' w'. ph_fire M evDone (st, ph_setCc M cc (w\<lparr>w_tasks := [GoMessages]\<rparr>)) = (st', w') \<and>
        same_log cc (ph_cc M w') \<and> inev lib onu P (lp st' w' PcIdle)"
  shows "inev lib onu P (lp st w PcIdle)"
proof (rule loop_starts [OF _ _ assms(3,4)])
  let ?w = "w\<lparr>w_tasks := [GoMessages]\<rparr>"
  show "inev lib onu P (lp st ?w (PcSend x (senders ?w)))"
  proof (rule loop_sends [OF assms(1,5,6,2)])
    fix cc
    assume cc: "idle_cc cc" "requestLog cc = requestLog (ph_cc M ?w) @ map Some ks"
    then obtain st' w' where f: "ph_fire M evDone (st, ph_setCc M cc ?w) = (st', w')" "same_log cc (ph_cc M w')"
        "inev lib onu P (lp st' w' PcIdle)"
      using assms(7) [of cc] by auto
    have "quietly M (ph_setCc M cc ?w)" using assms(2) cc(1) by (simp add: quietly_def)
    then show "inev lib onu P (lp st (ph_setCc M cc ?w) (PcSend x []))"
      by (rule loop_ends [OF _ assms(4) f(1)]) (use f in simp_all)
  qed
qed (use assms(2) in \<open>simp_all add: quietly_def\<close>)

section \<open>Stages\<close>

lemma quietly_cc: "quietly M w \<Longrightarrow> idle_cc cc \<Longrightarrow> quietly M (ph_setCc M cc w)"
  by (simp add: quietly_def)

text \<open>
  A stage starts with a quiet machine, whose channel has not sent anything new when the state
  \<open>s\<close> is entered, and ends with an event on the channel it leaves: stages compose by their rules.
\<close>

abbreviation goes :: "omciLib \<Rightarrow> (omciRequest \<Rightarrow> u8 list) \<Rightarrow>
    ((('st \<times> ('ev, 'x, 'm) fsmWorld_scheme) \<times> ('x, 's) phasePc) loop \<Rightarrow> bool) \<Rightarrow>
    ('ev, 'x, 'm) fsmWorld_scheme \<Rightarrow> 'st \<times> ('ev, 'x, 'm) fsmWorld_scheme \<Rightarrow> bool" where
  "goes lib onu P w s \<equiv> same_log (ph_cc M w) (ph_cc M (snd s)) \<and> inev lib onu P (loopOf (phaseClient M) (s, PcIdle))"

lemma ends_with_rest:
  assumes "ends_with M heard halts P final (ks @ ks') w" and "list_all (heard \<circ> fst) ks"
    and "requestLog cc = requestLog (ph_cc M w) @ map Some ks"
  shows "ends_with M heard halts P final ks' (ph_setCc M cc w)"
  unfolding ends_with_def
proof (intro conjI allI impI, goal_cases)
  case (1 cc')
  with assms show ?case by (simp add: ends_with_def)
next
  case (2 good bad rest cc' st pc)
  with assms have "ks @ ks' = (ks @ good) @ bad # rest" "list_all (heard \<circ> fst) (ks @ good)"
      "requestLog cc' = requestLog (ph_cc M w) @ map Some ((ks @ good) @ [bad])"
    by simp_all
  with 2 assms(1) have "P (lp st (ph_setCc M cc' w) pc)" unfolding ends_with_def by blast
  then show ?case by simp
qed

lemma ends_with_bad:
  "ends_with M heard halts P final (good @ bad # rest) w \<Longrightarrow> list_all (heard \<circ> fst) good \<Longrightarrow> \<not> heard (fst bad) \<Longrightarrow>
   idle_cc cc \<Longrightarrow> requestLog cc = requestLog (ph_cc M w) @ map Some (good @ [bad]) \<Longrightarrow> halts st pc \<Longrightarrow>
   P (lp st (ph_setCc M cc w) pc)"
  unfolding ends_with_def by blast

text \<open>A single request that its acknowledgement ends.\<close>

lemma request_goes:
  assumes "answers lib onu ans" and "quietly M w" and "asks_for M s k"
    and "heard (fst k) \<Longrightarrow> triggers M ans (fst k) e" and "\<not> heard (fst k) \<Longrightarrow> drops M ans (fst k)"
    and "ends_with M heard halts P final (k # ks) w" and "halts st PcIdle"
    and "\<And>cc. idle_cc cc \<Longrightarrow> ends_with M heard halts P final ks (ph_setCc M cc w) \<Longrightarrow>
      goes lib onu P (ph_setCc M cc w) (ph_fire M e (st, ph_setCc M cc w))"
  shows "goes lib onu P w (st, ph_transmit M s w)"
proof -
  have "idle_cc (ph_cc M w)" using assms(2) by (simp add: quietly_def)
  then obtain cc' where t: "ph_transmit M s w = ph_setCc M cc' w" "in_flight M k (ph_cc M w) cc'"
    using assms(3) unfolding asks_for_def by blast
  have "inev lib onu P (lp st (ph_setCc M cc' w) PcIdle)"
  proof (cases "heard (fst k)")
    case True
    show ?thesis
    proof (rule answer_moves [OF assms(1,2) t(2) assms(4) [OF True]])
      fix cc
      assume cc: "idle_cc cc" "requestLog cc = requestLog (ph_cc M w) @ [Some k]"
      have "ends_with M heard halts P final ks (ph_setCc M cc w)"
        by (rule ends_with_rest [where ks = "[k]"]) (use assms(6) True cc in simp_all)
      from assms(8) [OF cc(1) this]
      show "\<exists>st' w'. ph_fire M e (st, ph_setCc M cc w) = (st', w') \<and> same_log cc (ph_cc M w') \<and> inev lib onu P (lp st' w' PcIdle)"
        by (cases "ph_fire M e (st, ph_setCc M cc w)") auto
    qed
  next
    case False
    show ?thesis
      by (rule answer_dropped [OF assms(1,2) t(2) assms(5) [OF False]])
        (use ends_with_bad [of heard halts P final "[]" k ks w] assms(6,7) False in auto)
  qed
  with t show ?thesis by (simp add: in_flight_def)
qed

text \<open>A loop of requests with its final event.\<close>

lemma phase_goes:
  assumes "answers lib onu ans" and "quietly M w" and "ph_phase M x = Some (senders, e)"
    and "list_all2 (asks_for M) (senders w) ks"
    and hears: "\<And>k. k \<in> set ks \<Longrightarrow> heard (fst k) \<Longrightarrow> passes_on M ans (fst k)"
      "\<And>k. k \<in> set ks \<Longrightarrow> \<not> heard (fst k) \<Longrightarrow> drops M ans (fst k)"
    and ends: "ends_with M heard halts P final (ks @ ks') w" and "\<And>ss. halts st (PcWait x ss)"
    and next_stage: "\<And>cc. idle_cc cc \<Longrightarrow> ends_with M heard halts P final ks' (ph_setCc M cc w) \<Longrightarrow>
      goes lib onu P (ph_setCc M cc w) (ph_fire M e (st, ph_setCc M cc w))"
  shows "goes lib onu P w (st, w\<lparr>w_tasks := [GoMessages, GoWork x]\<rparr>)"
proof -
  let ?w = "w\<lparr>w_tasks := [GoMessages, GoWork x]\<rparr>"
  have b: "?w\<lparr>w_tasks := [GoMessages]\<rparr> = w" using quietly_fields(2) [OF assms(2)] by simp
  have "inev lib onu P (lp st ?w PcIdle)"
  proof (cases "list_all (heard \<circ> fst) ks")
    case True
    show ?thesis
    proof (rule phase_completes [OF assms(1) _ _ assms(3)])
      show "list_all (passes_on M ans \<circ> fst) ks" using True hears(1) by (auto simp: list_all_iff)
      fix cc
      assume cc: "idle_cc cc" "requestLog cc = requestLog (ph_cc M ?w) @ map Some ks"
      have "ends_with M heard halts P final ks' (ph_setCc M cc w)"
        by (rule ends_with_rest [OF ends True]) (use cc in simp)
      from next_stage [OF cc(1) this]
      show "\<exists>st' w'. ph_fire M e (st, ph_setCc M cc (?w\<lparr>w_tasks := [GoMessages]\<rparr>)) = (st', w') \<and>
          same_log cc (ph_cc M w') \<and> inev lib onu P (lp st' w' PcIdle)"
        unfolding b by (cases "ph_fire M e (st, ph_setCc M cc w)") auto
    qed (use assms(2,4) b in simp_all)
  next
    case False
    then obtain good bad rest where ks: "ks = good @ bad # rest" "\<not> heard (fst bad)" "list_all (heard \<circ> fst) good"
      using split_list_first_prop [of ks "\<lambda>k. \<not> heard (fst k)"] by (auto simp: list_all_iff)
    then obtain ss1 s ss2 where ss: "senders w = ss1 @ s # ss2" "list_all2 (asks_for M) ss1 good" "asks_for M s bad"
      using assms(4) by (auto simp: list_all2_append2 list_all2_Cons2)
    have "inev lib onu P (lp st w (PcSend x (ss1 @ s # ss2)))"
    proof (rule loop_sends_some [OF assms(1) ss(2) _ assms(2)])
      show "list_all (passes_on M ans \<circ> fst) good" using ks hears(1) by (auto simp: list_all_iff)
      fix cc
      assume cc: "idle_cc cc" "requestLog cc = requestLog (ph_cc M w) @ map Some good"
      show "inev lib onu P (lp st (ph_setCc M cc w) (PcSend x (s # ss2)))"
      proof (rule waits_in_vain [OF assms(1) quietly_cc [OF assms(2) cc(1)] ss(3)])
        show "drops M ans (fst bad)" using ks hears(2) by simp
        fix cc2
        assume "idle_cc cc2" "requestLog cc2 = requestLog (ph_cc M (ph_setCc M cc w)) @ [Some bad]"
        then show "P (lp st (ph_setCc M cc2 (ph_setCc M cc w)) (PcWait x ss2))"
          using ends_with_bad [of heard halts P final good bad "rest @ ks'" w cc2 st "PcWait x ss2"] ends ks cc(2) assms(8)
          by simp
      qed
    qed
    then show ?thesis
      by (intro loop_starts [where x = x and senders = senders and evDone = e])
        (use assms(2,3) ss(1) in \<open>simp_all add: quietly_def quietly_fields [OF assms(2)]\<close>)
  qed
  then show ?thesis by simp
qed

text \<open>An event that a callback fires from a goroutine of its own.\<close>

lemma event_goes:
  assumes "quietly M w" and "goes lib onu P w (ph_fire M e (st, w))"
  shows "goes lib onu P w (st, w\<lparr>w_tasks := [GoMessages, GoEvent e]\<rparr>)"
proof -
  let ?w = "w\<lparr>w_tasks := [GoMessages, GoEvent e]\<rparr>"
  have "inev lib onu P (lp st ?w PcIdle)"
    by (rule event_fires [where st' = "fst (ph_fire M e (st, w))" and w' = "snd (ph_fire M e (st, w))"])
      (use assms in \<open>simp_all add: quietly_def quietly_fields [OF assms(1)]\<close>)
  then show ?thesis by simp
qed

lemma other_goes:
  assumes "quietly M w" and "ph_phase M x = None" and "\<And>s'. ph_other M x (st, w) s' \<longleftrightarrow> s' = s"
    and "goes lib onu P w s"
  shows "goes lib onu P w (st, w\<lparr>w_tasks := [GoMessages, GoWork x]\<rparr>)"
proof -
  let ?w = "w\<lparr>w_tasks := [GoMessages, GoWork x]\<rparr>"
  have "inev lib onu P (lp st ?w PcIdle)"
    by (rule other_runs [where st' = "fst s" and w' = "snd s" and x = x])
      (use assms in \<open>simp_all add: quietly_def quietly_fields [OF assms(1)]\<close>)
  then show ?thesis by simp
qed

text \<open>The end.\<close>

lemma goes_now: "P (lp st w PcIdle) \<Longrightarrow> goes lib onu P w (st, w)"
  by (simp add: inevitable_now)

lemma ends_with_now:
  assumes "ends_with M heard halts P final [] w" and "idle_cc (ph_cc M w)"
  shows "P (loopOf (phaseClient M) (final w, PcIdle))"
  using assms by (auto simp: ends_with_def set_cc dest: spec [of _ "ph_cc M w"])

text \<open>The outcome of a machine whose requests are \<open>reqs\<close>.\<close>

lemma ends_with_outcome:
  assumes "quietly M w" and "\<And>st pc. halts st pc \<Longrightarrow> pc = PcIdle \<or> (\<exists>x ss. pc = PcWait x ss)"
    and good: "\<And>cc. idle_cc cc \<Longrightarrow> requestLog cc = requestLog (ph_cc M w) @ map Some reqs \<Longrightarrow>
      Good (loopOf (phaseClient M) (final (ph_setCc M cc w), PcIdle))"
    and quiet: "\<And>cc. Q (ph_setCc M cc w)"
    and reset: "\<And>cc st x ss. idle_cc cc \<Longrightarrow> halts st (PcWait x ss) \<Longrightarrow>
      inev lib onu R (loopOf (phaseClient M) (ph_fire M (ph_reset M) (st, ph_setCc M cc w), PcIdle))"
  shows "ends_with M heard halts (outcome M lib onu heard reqs halts (requestLog (ph_cc M w)) Q R Good) final reqs w"
  unfolding ends_with_def
proof (intro conjI allI impI, goal_cases)
  case (1 cc)
  then show ?case using good by (simp add: outcome_def)
next
  case (2 good bad rest cc st pc)
  then have q: "quietly M (ph_setCc M cc w)" using quietly_cc [OF assms(1)] by blast
  have "\<nexists>s'. loop_step lib onu (phaseClient M) (lp st (ph_setCc M cc w) pc) s'"
    by (rule stuck [OF q]) (use 2 assms(2) in blast)
  moreover have "\<not> list_all (heard \<circ> fst) reqs" using 2 by simp
  moreover have "lp_machine (lp st (ph_setCc M cc w) pc) = ((st, ph_setCc M cc w), pc)" by (simp add: loopOf_def)
  ultimately show ?case
    using 2 quiet reset unfolding outcome_def halted_def if_not_P [OF \<open>\<not> list_all (heard \<circ> fst) reqs\<close>]
    by (intro exI [of _ good] exI [of _ bad] exI [of _ rest] exI [of _ st] exI [of _ "ph_setCc M cc w"] exI [of _ pc]) auto
qed

section \<open>The reset at the end\<close>

text \<open>An abort message is pending; whatever else runs first, the message loop ends.\<close>

lemma abort_pending:
  assumes "idle_cc (ph_cc M w)" and "w_comm w = [fsmAbortMsg]" and "w_tasks w = GoMessages # ts" and "ph_responses M w = []"
    and served: "inev lib onu P (lp st (w\<lparr>w_comm := [], w_tasks := ts\<rparr>) PcIdle)"
    and first: "\<And>m'. phase_step M ((st, w), PcIdle) m' \<Longrightarrow> \<exists>st' w'. m' = ((st', w'), PcIdle) \<and>
      same_log (ph_cc M w) (ph_cc M w') \<and> inev lib onu P (lp st' w' PcIdle)"
  shows "inev lib onu P (lp st w PcIdle)"
proof (rule inevitable_later)
  have cc: "ccTasks (ph_cc M w) = []" using assms(1) by (simp add: idle_cc_def)
  show "loop_step lib onu (phaseClient M) (lp st w PcIdle) (lp st (w\<lparr>w_comm := [], w_tasks := ts\<rparr>) PcIdle)"
    using lp_serve [of "phaseClient M" "lp st w PcIdle" fsmAbortMsg "[]" "((st, w\<lparr>w_comm := [], w_tasks := ts\<rparr>), PcIdle)" lib onu]
      assms(2-4) by (simp add: loopOf_def)
  fix s'
  assume "loop_step lib onu (phaseClient M) (lp st w PcIdle) s'"
  then show "inev lib onu P s'"
  proof cases
    case (lp_serve msg ms m')
    then have "s' = lp st (w\<lparr>w_comm := [], w_tasks := ts\<rparr>) PcIdle"
      using assms(2,3) by (auto simp: loopOf_def)
    with served show ?thesis by simp
  next
    case (lp_internal m')
    with first [of m'] obtain st' w' where "m' = ((st', w'), PcIdle)" "same_log (ph_cc M w) (ph_cc M w')"
        "inev lib onu P (lp st' w' PcIdle)"
      by (auto simp: loopOf_def)
    with lp_internal show ?thesis by (simp add: loopOf_def same_log_def)
  qed (use cc in \<open>auto simp: loopOf_def\<close>)
qed

text \<open>The abort message and the restart, in either order.\<close>

lemma reset_ends:
  assumes "idle_cc (ph_cc M w)" and "w_comm w = [fsmAbortMsg]" and "w_tasks w = [GoMessages, GoEvent evRestart]"
    and "ph_responses M w = []" and restart: "\<And>v. ph_fire M evRestart (stResetting, v) = (stDisabled, v)"
    and "P (lp stDisabled (w\<lparr>w_comm := [], w_tasks := []\<rparr>) PcIdle)"
  shows "inev lib onu P (lp stResetting w PcIdle)"
proof (rule abort_pending [OF assms(1-4)])
  let ?w1 = "w\<lparr>w_comm := [], w_tasks := [GoEvent evRestart]\<rparr>"
    and ?w2 = "w\<lparr>w_tasks := [GoMessages]\<rparr>" and ?w3 = "w\<lparr>w_comm := [], w_tasks := []\<rparr>"
  show "inev lib onu P (lp stResetting ?w1 PcIdle)"
  proof (rule client.goes_on [rotated -1, OF inevitable_now])
    show "P (lp stDisabled ?w3 PcIdle)" by (rule assms(6))
    show "cl_internal (phaseClient M) ((stResetting, ?w1), PcIdle) ((stDisabled, ?w3), PcIdle)"
      using ps_event [of ?w1 "[]" evRestart "[]" M stResetting PcIdle] by (simp add: restart)
    show "m'' = ((stDisabled, ?w3), PcIdle)" if "cl_internal (phaseClient M) ((stResetting, ?w1), PcIdle) m''" for m''
      using that by (auto elim!: phase_stepE simp: split_tasks restart)
  qed (use assms in simp_all)
  have "inev lib onu P (lp stDisabled ?w2 PcIdle)"
    by (rule abort_pending [where ts = "[]"]) (use assms in \<open>auto intro!: inevitable_now elim!: phase_stepE simp: split_tasks\<close>)
  then show "\<exists>st' w'. m' = ((st', w'), PcIdle) \<and> same_log (ph_cc M w) (ph_cc M w') \<and> inev lib onu P (lp st' w' PcIdle)"
    if "phase_step M ((stResetting, w), PcIdle) m'" for m'
    using that assms(3) by (auto elim!: phase_stepE simp: split_tasks restart)
qed

text \<open>The same for a machine whose restart starts another goroutine.\<close>

lemma reset_leaves:
  assumes "idle_cc (ph_cc M w)" and "w_comm w = [fsmAbortMsg]" and "w_tasks w = [GoMessages, GoEvent evRestart]"
    and "ph_responses M w = []" and f: "works_aside M f" and g: "works_aside M g"
    and restart: "\<And>v. ph_fire M evRestart (stResetting, v) = (stDisabled, (f v)\<lparr>w_tasks := w_tasks v @ [GoWork y]\<rparr>)"
    and y: "ph_phase M y = None" "\<And>v s'. ph_other M y (stDisabled, v) s' \<longleftrightarrow> s' = (stDisabled, g v)"
    and P: "P (lp stDisabled ((g (f w))\<lparr>w_comm := [], w_tasks := []\<rparr>) PcIdle)"
  shows "inev lib onu P (lp stResetting w PcIdle)"
proof (rule abort_pending [OF assms(1-4)])
  note aside = works_aside_simps [OF f] works_aside_simps [OF g]
  let ?f = "f w" and ?gf = "(g (f w))\<lparr>w_comm := [], w_tasks := []\<rparr>"
  have last: "inev lib onu P (lp stDisabled (?f\<lparr>w_comm := [], w_tasks := [GoWork y]\<rparr>) PcIdle)"
  proof (rule client.goes_on [rotated -1, OF inevitable_now])
    let ?v = "?f\<lparr>w_comm := [], w_tasks := [GoWork y]\<rparr>"
    show "P (lp stDisabled ?gf PcIdle)" by (rule P)
    show "cl_internal (phaseClient M) ((stDisabled, ?v), PcIdle) ((stDisabled, ?gf), PcIdle)"
      using ps_other [of ?v "[]" y "[]" M stDisabled "(stDisabled, ?gf)" PcIdle] y by (simp add: aside)
    show "m'' = ((stDisabled, ?gf), PcIdle)" if "cl_internal (phaseClient M) ((stDisabled, ?v), PcIdle) m''" for m''
      using that y by (auto elim!: phase_stepE simp: split_tasks aside)
  qed (use assms(1) in \<open>simp_all add: aside\<close>)
  show "inev lib onu P (lp stResetting (w\<lparr>w_comm := [], w_tasks := [GoEvent evRestart]\<rparr>) PcIdle)"
  proof (rule client.goes_on [rotated -1, OF last])
    let ?v = "w\<lparr>w_comm := [], w_tasks := [GoEvent evRestart]\<rparr>" and ?v' = "?f\<lparr>w_comm := [], w_tasks := [GoWork y]\<rparr>"
    show "cl_internal (phaseClient M) ((stResetting, ?v), PcIdle) ((stDisabled, ?v'), PcIdle)"
      using ps_event [of ?v "[]" evRestart "[]" M stResetting PcIdle] by (simp add: restart aside)
    show "m'' = ((stDisabled, ?v'), PcIdle)" if "cl_internal (phaseClient M) ((stResetting, ?v), PcIdle) m''" for m''
      using that by (auto elim!: phase_stepE simp: split_tasks restart aside)
  qed (use assms(1,4) in \<open>simp_all add: aside\<close>)
  have verified: "inev lib onu P (lp stDisabled ((g ?f)\<lparr>w_tasks := [GoMessages]\<rparr>) PcIdle)"
    by (rule abort_pending [where ts = "[]"])
      (use assms P in \<open>auto simp: aside split_tasks intro!: inevitable_now elim!: phase_stepE\<close>)
  have "inev lib onu P (lp stDisabled (?f\<lparr>w_tasks := [GoMessages, GoWork y]\<rparr>) PcIdle)"
  proof (rule abort_pending [where ts = "[GoWork y]"])
    show "inev lib onu P (lp stDisabled (?f\<lparr>w_tasks := [GoMessages, GoWork y], w_comm := [], w_tasks := [GoWork y]\<rparr>) PcIdle)"
      using last by simp
    show "\<exists>st' w'. m' = ((st', w'), PcIdle) \<and>
        same_log (ph_cc M (?f\<lparr>w_tasks := [GoMessages, GoWork y]\<rparr>)) (ph_cc M w') \<and> inev lib onu P (lp st' w' PcIdle)"
      if "phase_step M ((stDisabled, ?f\<lparr>w_tasks := [GoMessages, GoWork y]\<rparr>), PcIdle) m'" for m'
      using that y verified by (auto elim!: phase_stepE simp: split_tasks aside)
  qed (use assms in \<open>simp_all add: aside\<close>)
  then show "\<exists>st' w'. m' = ((st', w'), PcIdle) \<and> same_log (ph_cc M w) (ph_cc M w') \<and> inev lib onu P (lp st' w' PcIdle)"
    if "phase_step M ((stResetting, w), PcIdle) m'" for m'
    using that assms(3) by (auto elim!: phase_stepE simp: split_tasks restart aside)
qed

text \<open>A machine that has finished and resets itself.\<close>

lemma resets:
  assumes "quietly M v"
    and reset: "\<And>u. ph_fire M evReset (stDone, u) =
      (stResetting, u\<lparr>w_comm := w_comm u @ [fsmAbortMsg], w_tasks := w_tasks u @ [GoEvent evRestart]\<rparr>)"
    and "inev lib onu P (lp stResetting (v\<lparr>w_comm := [fsmAbortMsg], w_tasks := [GoMessages, GoEvent evRestart]\<rparr>) PcIdle)"
  shows "inev lib onu P (lp stDone (v\<lparr>w_tasks := [GoMessages, GoEvent evReset]\<rparr>) PcIdle)"
proof (rule event_fires [where st' = stResetting])
  show "ph_fire M evReset (stDone, v\<lparr>w_tasks := [GoMessages, GoEvent evReset], w_tasks := [GoMessages]\<rparr>) =
      (stResetting, v\<lparr>w_comm := [fsmAbortMsg], w_tasks := [GoMessages, GoEvent evRestart]\<rparr>)"
    using assms(1) by (simp add: reset quietly_def)
qed (use assms(1,3) in \<open>simp_all add: quietly_def\<close>)

lemma resets_itself:
  assumes "quietly M v"
    and reset: "\<And>u. ph_fire M evReset (stDone, u) =
      (stResetting, u\<lparr>w_comm := w_comm u @ [fsmAbortMsg], w_tasks := w_tasks u @ [GoEvent evRestart]\<rparr>)"
    and restart: "\<And>u. ph_fire M evRestart (stResetting, u) = (stDisabled, u)"
    and "P (lp stDisabled (v\<lparr>w_tasks := []\<rparr>) PcIdle)"
  shows "inev lib onu P (lp stDone (v\<lparr>w_tasks := [GoMessages, GoEvent evReset]\<rparr>) PcIdle)"
proof (rule resets [OF assms(1,2)])
  have "P (lp stDisabled (v\<lparr>w_comm := [], w_tasks := []\<rparr>) PcIdle)"
    using assms(4) by (simp only: quietly_fields [OF assms(1)])
  with assms(1) show "inev lib onu P (lp stResetting (v\<lparr>w_comm := [fsmAbortMsg], w_tasks := [GoMessages, GoEvent evRestart]\<rparr>) PcIdle)"
    by (intro reset_ends [where evRestart = evRestart and stDisabled = stDisabled, OF _ _ _ _ restart]) (simp_all add: quietly_def)
qed

end

section \<open>Requests of managed entities\<close>

text \<open>The senders of the machines on an idle channel, with a library that encodes what it is given.\<close>

lemma sendMe_requests:
  assumes "lib_complete lib" and "idle_cc cc"
  obtains rq cc' where "sendMe lib ty defaults c timeout True p ch cc =
      (Some \<lparr>meClass = c, meEntity = EntityID p, meAttrs = Attributes p\<rparr>, cc')"
    and "waits_for ch rq cc'" and "rqKeyOf rq = (ty, c, EntityID p, 0)" and "rqAttrs rq = Attributes p" and "same_log cc cc'"
proof -
  obtain t oo1 where t: "getNextTid True cc = (t, oo1)" by fastforce
  note f = getNextTid_same [OF t]
  let ?rq = "\<lparr>rqType = ty, rqTid = t, rqClass = c, rqEntity = EntityID p, rqAttrs = Attributes p,
    rqAddDefaults = defaults, rqSequNo = 0, rqMask = 0\<rparr>"
  let ?cc = "send (Some ?rq) timeout 0 True t \<lparr>cbRespChannel = ch, cbFunctionOf = Some ReceiveOmciResponse\<rparr> oo1"
  have "sendMe lib ty defaults c timeout True p ch cc =
      (Some \<lparr>meClass = c, meEntity = EntityID p, meAttrs = Attributes p\<rparr>, ?cc)"
    using assms(1) by (simp add: sendMe_def prepareMe_def t NewManagedEntity_def
        EncodeFrame_def serializeOmciLayer_def lib_complete_def)
  then show ?thesis
    using that [of ?cc ?rq] f assms(2)
    by (simp add: waits_for_def idle_cc_def send_def rqKeyOf_def same_log_def)
qed

lemma in_flight_last:
  assumes "waits_for (ph_channel M) rq cc'" and "rqKeyOf rq = fst k" and "rqAttrs rq = snd k" and "same_log cc cc'"
    and "meClass m = fst (key_instance (fst k))" and "meEntity m = snd (key_instance (fst k))"
  shows "in_flight M k cc (cc'\<lparr>pLastTxMeInstance := Some m\<rparr>)"
  using assms by (auto simp: in_flight_def waits_for_def lastTx_def same_log_def prod_eq_iff)

text \<open>A request that creates or sets a managed entity, as the ONU sees it.\<close>

definition meRequest :: "omciRequestType \<Rightarrow> classID \<Rightarrow> ParamData \<Rightarrow> rqKey \<times> attrs" where
  "meRequest ty c p = ((ty, c, EntityID p, 0), Attributes p)"

lemma meRequest_fst [simp]: "fst (meRequest ty c p) = (ty, c, EntityID p, 0)"
  by (simp add: meRequest_def)

lemma transmits:
  assumes "lib_complete lib" and "idle_cc cc"
  obtains cc' where "sendMe lib ty defaults c timeout True p (ph_channel M) cc =
      (Some \<lparr>meClass = c, meEntity = EntityID p, meAttrs = Attributes p\<rparr>, cc')"
    and "in_flight M (meRequest ty c p) cc
      (cc'\<lparr>pLastTxMeInstance := Some \<lparr>meClass = c, meEntity = EntityID p, meAttrs = Attributes p\<rparr>\<rparr>)"
proof -
  obtain rq cc' where s: "sendMe lib ty defaults c timeout True p (ph_channel M) cc =
      (Some \<lparr>meClass = c, meEntity = EntityID p, meAttrs = Attributes p\<rparr>, cc')" "waits_for (ph_channel M) rq cc'"
      "rqKeyOf rq = (ty, c, EntityID p, 0)" "rqAttrs rq = Attributes p" "same_log cc cc'"
    by (rule sendMe_requests [OF assms])
  then show ?thesis
    by (intro that [OF s(1)] in_flight_last [where rq = rq]) (simp_all add: meRequest_def key_instance_def)
qed

text \<open>The machines whose senders return the channel.\<close>

definition transmitted :: "('w \<Rightarrow> omciCC) \<Rightarrow> (omciCC \<Rightarrow> 'w \<Rightarrow> 'w) \<Rightarrow> sender \<Rightarrow> 'w \<Rightarrow> 'w" where
  "transmitted getCc setCc s w = (case s (getCc w) of (meInstance, cc) \<Rightarrow> setCc (cc\<lparr>pLastTxMeInstance := meInstance\<rparr>) w)"

lemma sender_asks_for:
  assumes "lib_complete lib" and "ph_transmit M = transmitted (ph_cc M) (ph_setCc M)"
    and "s = sendMe lib ty defaults c timeout True p (ph_channel M)"
  shows "asks_for M s (meRequest ty c p)"
proof -
  have "\<exists>cc'. ph_transmit M s w = ph_setCc M cc' w \<and> in_flight M (meRequest ty c p) (ph_cc M w) cc'"
    if i: "idle_cc (ph_cc M w)" for w
    by (rule transmits [OF assms(1) i, of ty defaults c timeout p M]) (auto simp: assms(2,3) transmitted_def)
  then show ?thesis by (simp add: asks_for_def)
qed

end
