(* ===== verification/Download_Loop.thy ===== *)
theory Download_Loop
  imports Phase_Loop
begin

text \<open>
  The MIB download in the loop with its channel and an ONU that accepts or refuses its requests
  (\<open>mib_download.go\<close>). If all are accepted, they are sent in order on every run, the download is reported
  done once, and the machine returns to its disabled state with no goroutine left.
\<close>

section \<open>The machine\<close>

definition dlPhase :: "omciLib \<Rightarrow> onuUniPort list \<Rightarrow> dlWork \<Rightarrow> ((mibDownload \<Rightarrow> osender list) \<times> dlEvent) option" where
  "dlPhase lib unis x = Some (\<lambda>w. bridgeSenders lib unis, dlEvRxBridgeResp)"

definition dlPhased where
  "dlPhased lib unis =
     \<lparr>ph_cc = d_cc, ph_setCc = (\<lambda>c w. w\<lparr>d_cc := c\<rparr>), ph_responses = d_responses,
      ph_setResponses = (\<lambda>rs w. w\<lparr>d_responses := rs\<rparr>), ph_channel = ChMibDownload, ph_fire = fireDl lib,
      ph_handler = handleOmciMibDownloadMessage lib, ph_transmit = dlTransmit, ph_phase = dlPhase lib unis,
      ph_reset = dlEvReset, ph_other = (\<lambda>x s s'. False)\<rparr>"

lemma dlPhased_simps [simp]:
  "ph_cc (dlPhased lib unis) = d_cc" "ph_setCc (dlPhased lib unis) c w = w\<lparr>d_cc := c\<rparr>"
  "ph_responses (dlPhased lib unis) = d_responses" "ph_setResponses (dlPhased lib unis) rs w = w\<lparr>d_responses := rs\<rparr>"
  "ph_channel (dlPhased lib unis) = ChMibDownload" "ph_fire (dlPhased lib unis) = fireDl lib"
  "ph_handler (dlPhased lib unis) = handleOmciMibDownloadMessage lib" "ph_transmit (dlPhased lib unis) = dlTransmit"
  "ph_phase (dlPhased lib unis) = dlPhase lib unis" "ph_reset (dlPhased lib unis) = dlEvReset"
  "ph_other (dlPhased lib unis) x s s' = False"
  by (simp_all add: dlPhased_def)


section \<open>The requests\<close>






section \<open>The moves\<close>














section \<open>The stages\<close>












section \<open>Property\<close>










end
