(* ===== verification/Ani_Loop.thy ===== *)
theory Ani_Loop
  imports Phase_Loop Ani_Config
begin

text \<open>
  The ANI side of a tech profile in the loop with its channel and an ONU that answers
  (\<open>omci_ani_config.go\<close>): the T-CONT, the GEM ports, the queues and the priority mapper of the
  profile are on the ONU on every run.
\<close>

section \<open>The machine\<close>









section \<open>The requests\<close>

definition mapperCreate :: "uniPonAniConfigFsm \<Rightarrow> rqKey \<times> attrs" where
  "mapperCreate w = meRequest CreateRequest Ieee8021PMapperServiceProfileClassID
     \<lparr>EntityID = a_mapperSP0ID w, Attributes = []\<rparr>"

definition mbpcdCreate :: "uniPonAniConfigFsm \<Rightarrow> rqKey \<times> attrs" where
  "mbpcdCreate w = meRequest CreateRequest MacBridgePortConfigurationDataClassID (mbpcdParams w)"

definition tcontSet :: "uniPonAniConfigFsm \<Rightarrow> rqKey \<times> attrs" where
  "tcontSet w = meRequest SetRequest TContClassID (tcontSetParams w)"

definition gemNCTPCreates :: "uniPonAniConfigFsm \<Rightarrow> (rqKey \<times> attrs) list" where
  "gemNCTPCreates w = map (\<lambda>g. meRequest CreateRequest GemPortNetworkCtpClassID (gemNCTPParams w g)) (a_gemPortAttribs w)"

definition gemIWCreates :: "uniPonAniConfigFsm \<Rightarrow> (rqKey \<times> attrs) list" where
  "gemIWCreates w =
     map (\<lambda>g. meRequest CreateRequest GemInterworkingTerminationPointClassID (gemIWParams w g)) (a_gemPortAttribs w)"

definition queueSets :: "uniPonAniConfigFsm \<Rightarrow> (rqKey \<times> attrs) list" where
  "queueSets w = map (\<lambda>kv. meRequest SetRequest PriorityQueueClassID (queueParams kv)) (queueMap (a_gemPortAttribs w) [])"

definition mapperSet :: "uniPonAniConfigFsm \<Rightarrow> u16 list \<Rightarrow> rqKey \<times> attrs" where
  "mapperSet w arr = meRequest SetRequest Ieee8021PMapperServiceProfileClassID (mapperParams w arr)"


lemma ani_frame:
  "mbpcdParams (w\<lparr>a_cc := cc\<rparr>) = mbpcdParams w" "tcontSetParams (w\<lparr>a_cc := cc\<rparr>) = tcontSetParams w"
  "gemNCTPParams (w\<lparr>a_cc := cc\<rparr>) = gemNCTPParams w" "gemIWParams (w\<lparr>a_cc := cc\<rparr>) = gemIWParams w"
  "mapperParams (w\<lparr>a_cc := cc\<rparr>) = mapperParams w"
  by (simp_all add: mbpcdParams_def tcontSetParams_def gemNCTPParams_def [abs_def] gemIWParams_def [abs_def] mapperParams_def [abs_def])

lemma ani_request_frame [simp]:
  "mapperCreate (w\<lparr>a_cc := cc\<rparr>) = mapperCreate w" "mbpcdCreate (w\<lparr>a_cc := cc\<rparr>) = mbpcdCreate w"
  "tcontSet (w\<lparr>a_cc := cc\<rparr>) = tcontSet w" "gemNCTPCreates (w\<lparr>a_cc := cc\<rparr>) = gemNCTPCreates w"
  "gemIWCreates (w\<lparr>a_cc := cc\<rparr>) = gemIWCreates w" "queueSets (w\<lparr>a_cc := cc\<rparr>) = queueSets w"
  "mapperSet (w\<lparr>a_cc := cc\<rparr>) = mapperSet w"
  by (simp_all add: mapperCreate_def mbpcdCreate_def tcontSet_def gemNCTPCreates_def gemIWCreates_def queueSets_def
      mapperSet_def [abs_def] ani_frame)






section \<open>The moves\<close>




section \<open>The end\<close>








section \<open>The stages\<close>
















section \<open>Property\<close>




















end
