(* ===== verification/Vlan_Loop.thy ===== *)
theory Vlan_Loop
  imports Phase_Loop Vlan_Config
begin

text \<open>
  The VLAN configuration of a UNI port in the loop with its channel and an ONU that accepts or refuses
  its requests (\<open>omci_vlan_config.go\<close>): what a flow asks for is on the ONU on every run on which the
  ONU accepts it, after the tech profile of the UNI has been configured.
\<close>

section \<open>The machine\<close>

fun vlanPhase :: "omciLib \<Rightarrow> vlanWork \<Rightarrow> ((uniVlanConfigFsm \<Rightarrow> sender list) \<times> vlanEvent) option" where
  "vlanPhase lib ConfigEvtocdEntries = Some (evtocdSenders lib, vlanEvRxConfigEvtocd)"
| "vlanPhase lib DecideTechProf = None"
| "vlanPhase lib RemoveVlanFilterFsm = None"

text \<open>\<open>tpDone\<close>: whether the tech profile of the UNI is configured when the machine asks.\<close>

fun vlanOther :: "omciLib \<Rightarrow> bool \<Rightarrow> vlanWork \<Rightarrow> vlanState \<times> uniVlanConfigFsm \<Rightarrow> vlanState \<times> uniVlanConfigFsm \<Rightarrow> bool" where
  "vlanOther lib tpDone DecideTechProf s s' \<longleftrightarrow> s' = decideTechProf lib tpDone s"
| "vlanOther lib tpDone RemoveVlanFilterFsm (st, w) s' \<longleftrightarrow> s' = (st, w\<lparr>v_removalRequested := True\<rparr>)"
| "vlanOther lib tpDone ConfigEvtocdEntries s s' \<longleftrightarrow> False"

definition vlanPhased where
  "vlanPhased lib uni tpDone =
     \<lparr>ph_cc = v_cc, ph_setCc = (\<lambda>c w. w\<lparr>v_cc := c\<rparr>), ph_responses = v_responses,
      ph_setResponses = (\<lambda>rs w. w\<lparr>v_responses := rs\<rparr>), ph_channel = ChVlan uni, ph_fire = fireVlan lib,
      ph_handler = handleOmciVlanConfigMessage lib, ph_transmit = transmitted v_cc (\<lambda>c w. w\<lparr>v_cc := c\<rparr>),
      ph_phase = vlanPhase lib, ph_reset = vlanEvReset, ph_other = vlanOther lib tpDone\<rparr>"

lemma vlanPhased_simps [simp]:
  "ph_cc (vlanPhased lib uni tpDone) = v_cc" "ph_setCc (vlanPhased lib uni tpDone) = (\<lambda>c w. w\<lparr>v_cc := c\<rparr>)"
  "ph_responses (vlanPhased lib uni tpDone) = v_responses"
  "ph_setResponses (vlanPhased lib uni tpDone) rs w = w\<lparr>v_responses := rs\<rparr>"
  "ph_channel (vlanPhased lib uni tpDone) = ChVlan uni" "ph_fire (vlanPhased lib uni tpDone) = fireVlan lib"
  "ph_handler (vlanPhased lib uni tpDone) = handleOmciVlanConfigMessage lib"
  "ph_transmit (vlanPhased lib uni tpDone) = transmitted v_cc (\<lambda>c w. w\<lparr>v_cc := c\<rparr>)"
  "ph_phase (vlanPhased lib uni tpDone) = vlanPhase lib" "ph_reset (vlanPhased lib uni tpDone) = vlanEvReset"
  "ph_other (vlanPhased lib uni tpDone) = vlanOther lib tpDone"
  by (simp_all add: vlanPhased_def)



section \<open>The requests\<close>













section \<open>The moves\<close>




section \<open>The stages\<close>





section \<open>Property\<close>















end
