(* ===== verification/Lock_Loop.thy ===== *)
theory Lock_Loop
  imports Phase_Loop Lock_Fsm
begin

text \<open>
  Locking and unlocking in the loop with the channel and an ONU that accepts or refuses requests
  (\<open>uniportadmin.go\<close>): without VEIP ports and if all is accepted, the machine sets the state of the ONU
  and of every port on every run; with a VEIP port, it waits for an acknowledgement that its handler has dropped.
\<close>

section \<open>The machine\<close>





section \<open>The requests\<close>



















section \<open>The moves\<close>




section \<open>The stages\<close>












section \<open>Property\<close>









end
