(* ===== verification/Vlan_Race.thy ===== *)
theory Vlan_Race
  imports Vlan_Config Tech_Prof
begin

text \<open>
  Two goroutines meet at the tech profile of a UNI: that of the starting VLAN machine asks whether the
  profile is configured and fires what follows (\<open>enterConfigStarting\<close> of \<open>omci_vlan_config.go\<close>);
  the ANI configuration machine reports that it is, and then has the VLAN machine continued, if it
  waits (\<open>enterDisabledState\<close> of \<open>omci_ani_config.go\<close>, \<open>verifyUniVlanConfigRequest\<close> of
  \<open>device_handler.go\<close>). No lock covers either sequence.
\<close>

section \<open>The steps\<close>

datatype raceStep = ReadDone | FireDecision | SetDone | CheckWaiting | FireContinue

definition askSteps :: "raceStep list" where
  "askSteps = [ReadDone, FireDecision]"

definition reportSteps :: "raceStep list" where
  "reportSteps = [SetDone, CheckWaiting, FireContinue]"

text \<open>The tech profile state and the VLAN machine, and what the two goroutines have read; \<open>uni\<close>: the port of
  the ANI configuration machine.\<close>

record race =
  r_tp :: onuUniTechProf
  r_vlan :: "vlanState \<times> uniVlanConfigFsm"
  r_done :: bool
  r_waiting :: bool

definition readDone :: "race \<Rightarrow> race" where
  "readDone r =
     (let w = snd (r_vlan r) in r\<lparr>r_done := getTechProfileDone (uniID (v_uni w)) (v_techProfileID w) (r_tp r)\<rparr>)"

definition fireDecision :: "omciLib \<Rightarrow> race \<Rightarrow> race" where
  "fireDecision lib r = r\<lparr>r_vlan := decideTechProf lib (r_done r) (r_vlan r)\<rparr>"

definition reportDone :: "u8 \<Rightarrow> race \<Rightarrow> race" where
  "reportDone uni r = r\<lparr>r_tp := setConfigDone uni True (r_tp r)\<rparr>"

definition checkWaiting :: "race \<Rightarrow> race" where
  "checkWaiting r = r\<lparr>r_waiting := (fst (r_vlan r) = vlanStWaitingTechProf)\<rparr>"

definition fireContinue :: "omciLib \<Rightarrow> race \<Rightarrow> race" where
  "fireContinue lib r = (if r_waiting r then r\<lparr>r_vlan := fireVlan lib vlanEvContinueConfig (r_vlan r)\<rparr> else r)"

fun race_step :: "omciLib \<Rightarrow> u8 \<Rightarrow> raceStep \<Rightarrow> race \<Rightarrow> race" where
  "race_step lib uni ReadDone r = readDone r"
| "race_step lib uni FireDecision r = fireDecision lib r"
| "race_step lib uni SetDone r = reportDone uni r"
| "race_step lib uni CheckWaiting r = checkWaiting r"
| "race_step lib uni FireContinue r = fireContinue lib r"

lemmas race_defs = readDone_def fireDecision_def reportDone_def checkWaiting_def fireContinue_def

definition raceRun :: "omciLib \<Rightarrow> u8 \<Rightarrow> raceStep list \<Rightarrow> onuUniTechProf \<Rightarrow> vlanState \<times> uniVlanConfigFsm \<Rightarrow> race" where
  "raceRun lib uni steps tp s = fold (race_step lib uni) steps \<lparr>r_tp = tp, r_vlan = s, r_done = False, r_waiting = False\<rparr>"

section \<open>Property\<close>

lemma race_schedules:
  "steps \<in> shuffles askSteps reportSteps \<longleftrightarrow>
     steps \<in> set [[ReadDone, FireDecision, SetDone, CheckWaiting, FireContinue],
       [ReadDone, SetDone, FireDecision, CheckWaiting, FireContinue],
       [ReadDone, SetDone, CheckWaiting, FireDecision, FireContinue],
       [ReadDone, SetDone, CheckWaiting, FireContinue, FireDecision],
       [SetDone, ReadDone, FireDecision, CheckWaiting, FireContinue],
       [SetDone, ReadDone, CheckWaiting, FireDecision, FireContinue],
       [SetDone, ReadDone, CheckWaiting, FireContinue, FireDecision],
       [SetDone, CheckWaiting, ReadDone, FireDecision, FireContinue],
       [SetDone, CheckWaiting, ReadDone, FireContinue, FireDecision],
       [SetDone, CheckWaiting, FireContinue, ReadDone, FireDecision]]"
  by (auto simp: askSteps_def reportSteps_def)

lemma race_moves:
  "\<exists>w'. decideTechProf lib True (vlanStStarting, w) = (vlanStConfigVtfd, w')"
  "\<exists>w'. decideTechProf lib False (vlanStStarting, w) = (vlanStWaitingTechProf, w')"
  "fireVlan lib vlanEvContinueConfig (vlanStWaitingTechProf, w) = (vlanStConfigVtfd, enterConfigVtfd lib w)"
  by (simp_all add: decideTechProf_def fireVlan_outcome vlan_table)

text \<open>C9: in every interleaving of the two goroutines the tech profile ends up configured, but
  the VLAN machine does not always go on: when the profile is found unconfigured, then reported and
  the machine found not yet waiting, all before the machine goes to wait, it waits although nobody is
  left who would continue it. These are the only two of the ten interleavings in which the
  configuration of the VLAN is lost.\<close>

theorem tech_profile_wakeup:
  assumes "steps \<in> shuffles askSteps reportSteps"
    and "uniID (v_uni w) = uni" and "mapUniTpIndication tp uni = Some i"
    and "techProfileID i = v_techProfileID w" and "\<not> techProfileConfigDone i"
  shows "getTechProfileDone uni (v_techProfileID w) (r_tp (raceRun lib uni steps tp (vlanStStarting, w))) \<and>
    fst (r_vlan (raceRun lib uni steps tp (vlanStStarting, w))) =
      (if take 3 steps = [ReadDone, SetDone, CheckWaiting] then vlanStWaitingTechProf else vlanStConfigVtfd)"
proof -
  have d: "getTechProfileDone uni (v_techProfileID w) (setConfigDone uni True tp)"
    using assms(3,4) by (simp add: getTechProfileDone_setConfigDone)
  have n: "getTechProfileDone uni (v_techProfileID w) tp = False"
    using assms(3,5) by (simp add: getTechProfileDone_def)
  obtain w1 w2 where m: "decideTechProf lib True (vlanStStarting, w) = (vlanStConfigVtfd, w1)"
      "decideTechProf lib False (vlanStStarting, w) = (vlanStWaitingTechProf, w2)"
    using race_moves(1,2) by blast
  show ?thesis
    using assms(1) unfolding race_schedules by (auto simp: raceRun_def race_defs Let_def assms(2) d n m race_moves(3))
qed

theorem tech_profile_wakeup_witness:
  "let w = snd (NewUniVlanConfigFsm example_cc (newOnuUniPort 0 0 257 uniPPTP) 64 OmciVlanFilterDone True 100 200 0);
       tp = (newOnuUniTechProf True True)\<lparr>mapUniTpIndication := [0 \<mapsto> \<lparr>techProfileType = ''XGS'', techProfileID = 64,
         techProfileConfigDone = False\<rparr>]\<rparr> in
   fst (r_vlan (raceRun permissive_lib 0 [ReadDone, SetDone, CheckWaiting, FireDecision, FireContinue] tp (vlanStStarting, w))) =
     vlanStWaitingTechProf"
  using tech_profile_wakeup [of "[ReadDone, SetDone, CheckWaiting, FireDecision, FireContinue]"
      "snd (NewUniVlanConfigFsm example_cc (newOnuUniPort 0 0 257 uniPPTP) 64 OmciVlanFilterDone True 100 200 0)" 0
      "(newOnuUniTechProf True True)\<lparr>mapUniTpIndication := [0 \<mapsto> \<lparr>techProfileType = ''XGS'', techProfileID = 64,
         techProfileConfigDone = False\<rparr>]\<rparr>" _ permissive_lib]
  by (simp add: race_schedules NewUniVlanConfigFsm_def newOnuUniPort_def Let_def)

end
