(* ===== verification/Flow_Item.thy ===== *)
theory Flow_Item
  imports Vlan_Config
begin

text \<open>
  What the device handler reads out of an OpenFlow flow (\<open>getFlowOfbFields\<close>,
  \<open>getFlowActions\<close> and the parsing half of \<open>addFlowItemToUniPort\<close> in
  \<open>device_handler.go\<close>), with the accessors it uses
  (\<open>vendor/github.com/opencord/voltha-lib-go/v3/pkg/flows/flow_utils.go\<close>).

  The fields and actions of a flow are pointers of protocol messages that may be nil, which
  is \<open>None\<close> here; a nil flow item has cookie 0 and is skipped, so flows are never nil.
\<close>

section \<open>Flows\<close>

datatype oxmOfbFieldType = OFB_IN_PORT | OFB_ETH_TYPE | OFB_IP_PROTO | OFB_VLAN_VID | OFB_VLAN_PCP
  | OFB_UDP_DST | OFB_UDP_SRC | OFB_IPV4_DST | OFB_IPV4_SRC | OFB_METADATA | OFB_OTHER

text \<open>A match field with what its getters return: 0 for a value it does not hold.\<close>

record ofpOxmOfbField =
  ofbType :: oxmOfbFieldType
  GetPort :: u32
  GetVlanVid :: u32
  GetVlanVidMask :: u32
  GetVlanPcp :: u32
  GetIpProto :: u32

text \<open>\<open>oxmBasic\<close>: the class is \<open>OFPXMC_OPENFLOW_BASIC\<close>.\<close>

record ofpOxmField =
  oxmBasic :: bool
  GetOfbField :: "ofpOxmOfbField option"

datatype ofpAction = OFPAT_OUTPUT "u32 option" | OFPAT_PUSH_VLAN "u32 option"
  | OFPAT_SET_FIELD "ofpOxmField option option" | OFPAT_OTHER

datatype ofpInstruction = OFPIT_APPLY_ACTIONS "ofpAction list option"
  | OFPIT_WRITE_METADATA "u64 option" | OFPIT_OTHER

text \<open>\<open>matchOxm\<close>: there is a match and its type is \<open>OFPMT_OXM\<close>.\<close>

record ofpFlowStats =
  Cookie :: u64
  matchOxm :: bool
  OxmFields :: "ofpOxmField list"
  Instructions :: "ofpInstruction list"

definition OFPVID_NONE :: u16 where "OFPVID_NONE = 0"
definition OFPP_INVALID :: u32 where "OFPP_INVALID = 0"

abbreviation vid_present :: u16 where "vid_present \<equiv> 4096"

section \<open>The library\<close>

definition GetOfbFields :: "ofpFlowStats \<Rightarrow> ofpOxmOfbField option list" where
  "GetOfbFields f =
     (if \<not> matchOxm f then [] else map GetOfbField (filter oxmBasic (OxmFields f)))"

fun firstInPort :: "ofpOxmOfbField option list \<Rightarrow> u32 outcome" where
  "firstInPort [] = Done 0"
| "firstInPort (None # fs) = Panic NilDeref"
| "firstInPort (Some field # fs) =
     (if ofbType field = OFB_IN_PORT then Done (GetPort field) else firstInPort fs)"

definition GetInPort :: "ofpFlowStats \<Rightarrow> u32 outcome" where
  "GetInPort f = firstInPort (GetOfbFields f)"

text \<open>Only the first instruction that applies actions counts.\<close>

fun firstActions :: "ofpInstruction list \<Rightarrow> ofpAction list" where
  "firstActions [] = []"
| "firstActions (OFPIT_APPLY_ACTIONS instActions # is) =
     (case instActions of None \<Rightarrow> [] | Some as \<Rightarrow> as)"
| "firstActions (_ # is) = firstActions is"

definition GetActions :: "ofpFlowStats \<Rightarrow> ofpAction list" where
  "GetActions f = firstActions (Instructions f)"

fun firstMetadata :: "ofpInstruction list \<Rightarrow> u64" where
  "firstMetadata [] = 0"
| "firstMetadata (OFPIT_WRITE_METADATA (Some md) # is) = md"
| "firstMetadata (_ # is) = firstMetadata is"

definition GetMetadataFromWriteMetadataAction :: "ofpFlowStats \<Rightarrow> u64" where
  "GetMetadataFromWriteMetadataAction f = firstMetadata (Instructions f)"

definition GetTechProfileIDFromWriteMetaData :: "u64 \<Rightarrow> u16" where
  "GetTechProfileIDFromWriteMetaData metadata =
     (if metadata \<noteq> 0 then ucast (drop_bit 32 metadata AND 0xFFFF) else 0)"

section \<open>Match fields and actions\<close>

text \<open>
  \<open>getFlowOfbFields\<close> on the variables \<open>loMatchVlan\<close>, \<open>loAddPcp\<close>, \<open>loIPProto\<close>; the IGMP
  trap ends the loop at once.
\<close>

fun getFlowOfbFields :: "ofpOxmOfbField option list \<Rightarrow> u16 \<times> u8 \<times> u32 \<Rightarrow> (u16 \<times> u8 \<times> u32) outcome" where
  "getFlowOfbFields [] (loMatchVlan, loAddPcp, loIPProto) = Done (loMatchVlan, loAddPcp, loIPProto)"
| "getFlowOfbFields (None # fs) (loMatchVlan, loAddPcp, loIPProto) = Panic NilDeref"
| "getFlowOfbFields (Some field # fs) (loMatchVlan, loAddPcp, loIPProto) =
     (case ofbType field of
        OFB_IP_PROTO \<Rightarrow>
          if GetIpProto field = 2 then Done (loMatchVlan, loAddPcp, GetIpProto field)
          else getFlowOfbFields fs (loMatchVlan, loAddPcp, GetIpProto field)
      | OFB_VLAN_VID \<Rightarrow>
          (let vid = ucast (GetVlanVid field); loMatchVlanMask = ucast (GetVlanVidMask field) in
           getFlowOfbFields fs
             (if \<not> (vid = vid_present \<and> loMatchVlanMask = vid_present) then vid AND 0xFFF else vid,
              loAddPcp, loIPProto))
      | OFB_VLAN_PCP \<Rightarrow> getFlowOfbFields fs (loMatchVlan, ucast (GetVlanPcp field), loIPProto)
      | _ \<Rightarrow> getFlowOfbFields fs (loMatchVlan, loAddPcp, loIPProto))"

text \<open>
  One action on \<open>loSetPcp\<close>, \<open>loSetVlan\<close>. The argument of the log call for a pushed tag
  dereferences the data of the action; the class of a set field is checked for the log only.
\<close>

fun getFlowAction :: "ofpAction \<Rightarrow> u8 \<times> u16 \<Rightarrow> (u8 \<times> u16) outcome" where
  "getFlowAction (OFPAT_OUTPUT _) s = Done s"
| "getFlowAction OFPAT_OTHER s = Done s"
| "getFlowAction (OFPAT_PUSH_VLAN push) s = bind_outcome (deref push) (\<lambda>_. Done s)"
| "getFlowAction (OFPAT_SET_FIELD pActionSetField) (loSetPcp, loSetVlan) =
     bind_outcome (deref pActionSetField) (\<lambda>Field.
     bind_outcome (deref Field) (\<lambda>oxm.
     bind_outcome (deref (GetOfbField oxm)) (\<lambda>ofb.
       Done (if ofbType ofb = OFB_VLAN_VID then (loSetPcp, ucast (GetVlanVid ofb))
             else if ofbType ofb = OFB_VLAN_PCP then (ucast (GetVlanPcp ofb), loSetVlan)
             else (loSetPcp, loSetVlan)))))"

definition getFlowActions :: "ofpAction list \<Rightarrow> u8 \<times> u16 \<Rightarrow> (u8 \<times> u16) outcome" where
  "getFlowActions as s = fold_outcome getFlowAction as s"

section \<open>The VLAN request of a flow\<close>

datatype flow_error = FlowInvalidMetadata | FlowVlanInconsistent | FlowFsmRunning | FlowInPortInvalid
  | FlowInPortNotFound u32 | FlowNoDevice | FlowFsmNotDisabled | FlowCannotStart

text \<open>A rejected flow, one that is ignored, or technology profile, match VID, set VID, priority.\<close>

datatype flowRequest = FlowRejected flow_error | FlowIgnored | FlowVlan u16 u16 u16 u8

definition flowVids :: "u16 \<Rightarrow> u16 \<Rightarrow> (u16 \<times> u16) option" where
  "flowVids loMatchVlan loSetVlan =
     (if loSetVlan = OFPVID_NONE \<and> loMatchVlan \<noteq> vid_present then None
      else if loSetVlan = OFPVID_NONE \<and> loMatchVlan = vid_present then Some (loMatchVlan, loMatchVlan)
      else Some (loMatchVlan, if loSetVlan \<noteq> vid_present then loSetVlan AND 0x0FFF else loSetVlan))"

definition flowVlan :: "ofpFlowStats \<Rightarrow> flowRequest outcome" where
  "flowVlan f =
     (let metadata = GetMetadataFromWriteMetadataAction f in
      if metadata = 0 then Done (FlowRejected FlowInvalidMetadata)
      else
        bind_outcome (getFlowOfbFields (GetOfbFields f) (vid_present, 0, 0))
          (\<lambda>(loMatchVlan, loAddPcp, loIPProto).
             if loIPProto = 2 then Done FlowIgnored
             else
               bind_outcome (getFlowActions (GetActions f) (0, OFPVID_NONE))
                 (\<lambda>(loSetPcp, loSetVlan).
                    Done (case flowVids loMatchVlan loSetVlan of
                            None \<Rightarrow> FlowRejected FlowVlanInconsistent
                          | Some (match, set') \<Rightarrow>
                              FlowVlan (GetTechProfileIDFromWriteMetaData metadata) match set' loSetPcp))))"

section \<open>Ranges\<close>

lemma vid_mask_less: "unat (v AND 0xFFF :: u16) < 4096"
proof -
  have "v AND 0xFFF = take_bit 12 v"
    by (simp add: take_bit_eq_mask mask_eq_exp_minus_1)
  moreover have "unat (take_bit 12 v) < 2 ^ 12"
    unfolding unsigned_take_bit_eq by (rule take_bit_nat_less_exp)
  ultimately show ?thesis by simp
qed

lemma getFlowOfbFields_vid:
  "getFlowOfbFields fs (m, p, i) = Done (m', p', i') \<Longrightarrow> unat m \<le> 4096 \<Longrightarrow> unat m' \<le> 4096"
proof (induction fs "(m, p, i)" arbitrary: m p i rule: getFlowOfbFields.induct)
  case (3 field fs m p i)
  have "unat (v AND 0xFFF :: u16) \<le> 4096" for v
    using vid_mask_less [of v] by simp
  then show ?case
    using 3 by (cases "ofbType field") (auto simp: Let_def split: if_splits)
qed auto

lemma flowVids_range:
  "flowVids m s = Some (m', s') \<Longrightarrow> unat m \<le> 4096 \<Longrightarrow> m' = m \<and> unat s' \<le> 4096"
  using vid_mask_less [of s] by (auto simp: flowVids_def split: if_splits)

lemma flowVlan_range:
  assumes "flowVlan f = Done (FlowVlan tp m s p)"
  shows "unat m \<le> 4096 \<and> unat s \<le> 4096"
proof -
  from assms obtain mv ap ip sp sv where
    f: "getFlowOfbFields (GetOfbFields f) (vid_present, 0, 0) = Done (mv, ap, ip)"
    and v: "flowVids mv sv = Some (m, s)"
    by (auto simp: flowVlan_def Let_def panic_simps split: if_splits option.splits)
  have "unat mv \<le> 4096"
    using getFlowOfbFields_vid [OF f] by simp
  then show ?thesis
    using flowVids_range [OF v] by simp
qed

end
