(* ===== verification/Device_Handler.thy ===== *)
theory Device_Handler
  imports Omci_Test Mib_Upload Lock_Fsm Ani_Config Flow_Item
begin

text \<open>
  The device handler (\<open>device_handler.go\<close>): the state it keeps for one ONU, its own state
  machine, the creation and start of the device entry, the reaction to ONU indications, to the
  events of the device entry and to administrative requests, and the UNI ports.

  Every start of the device entry makes a new OMCI channel, while the machines of the handler
  keep the channel they were made with. The channels are therefore kept in a store, \<open>h_ccs\<close>,
  and everything that refers to one holds its index. A machine is loaded with its channel
  before an event is fired at it, and the channel is stored back afterwards.
\<close>

section \<open>State\<close>

datatype devEvent = devEvDeviceInit | devEvGrpcConnected | devEvGrpcDisconnected | devEvDeviceUpInd
  | devEvDeviceDownInd

datatype devState = devStNull | devStDown | devStInit | devStConnected | devStUp

record volthaDevice =
  dev_Id :: string
  dev_Type :: string
  dev_ParentId :: string
  dev_ParentPortNo :: u32
  dev_SerialNumber :: string
  dev_ProxyDeviceId :: string
  dev_ProxyDeviceType :: string
  dev_Root :: bool
  dev_Vendor :: string
  dev_Model :: string
  dev_Reason :: string
  dev_ConnectStatus :: ConnectStatus

record onuIndication =
  IntfId :: u32
  OnuId :: u32
  OperState :: string
  AdminStateS :: string

text \<open>The calls to the core.\<close>

datatype coreCall =
    DeviceUpdate volthaDevice
  | PonPortCreated u32 string
  | UniPortCreated VolthaPort
  | DeviceStateUpdate ConnectStatus OperStatus
  | DeviceReasonUpdate string

text \<open>A message to the OLT adapter: the ONU indication with the given payload and message id.\<close>

record oltMessage =
  om_payload :: string
  om_from :: string
  om_to :: string
  om_toDevice :: string
  om_proxyDevice :: string
  om_id :: string

text \<open>Goroutines the handler starts.\<close>

datatype dhTask = GoReconcileOnuInd | GoEnableUniPorts | GoOnuOperStateEvent OperStatus
  | GoReconcileTechProf | GoPortStateUpdate u32 OperStatus

text \<open>
  The device entry with its two machines; \<open>e_cc\<close> is its current channel, nil before the first
  start. Its \<open>devState\<close> is the one both machines see.
\<close>

record devEntry =
  e_started :: bool
  e_cc :: "nat option"
  e_devState :: OnuDeviceEvent
  e_ul :: "ulState \<times> mibSync"
  e_dl :: "dlState \<times> mibDownload"

record deviceHandler =
  h_ids :: handlerIds
  h_device :: volthaDevice
  h_logicalDeviceID :: string
  h_parentID :: string
  h_ponPortNumber :: u32
  h_devState :: devState
  h_deviceEntrySet :: bool
  h_entry :: "devEntry option"
  h_tp :: "onuUniTechProf option"
  h_ani :: "(nat option \<times> aniState \<times> uniPonAniConfigFsm) option"
  h_pOnuIndication :: "onuIndication option"
  h_deviceReason :: string
  h_lock :: "(nat option \<times> uniState \<times> lockStateFsm) option"
  h_unlock :: "(nat option \<times> uniState \<times> lockStateFsm) option"
  h_uniEntityMap :: "(u32 \<times> onuUniPort) list"
  h_vlans :: "u8 \<rightharpoonup> nat option \<times> vlanState \<times> uniVlanConfigFsm"
  h_reconciling :: bool
  h_ccs :: "omciCC list"
  h_calls :: "coreCall list"
  h_oltMsgs :: "oltMessage list"
  h_tasks :: "dhTask list"
  h_crash :: "panic option"

text \<open>
  The environment of a step: the encoder of the OMCI library, the world of the MIB
  synchronisation, which calls the core and which messages the OLT adapter accepts, and whether the entry that a caller waits for
  is added within the waiting time.
\<close>

record dhEnv =
  de_lib :: omciLib
  de_mib :: mibEnv
  de_coreOk :: "coreCall \<Rightarrow> bool"
  de_oltOk :: "oltMessage \<Rightarrow> bool"
  de_entryInTime :: bool
  de_templates :: "string \<rightharpoonup> string"
  de_tpStore :: bool
  de_onuStore :: bool
  de_acceptIncrementalEvto :: bool

definition newDeviceHandler :: "volthaDevice \<Rightarrow> deviceHandler" where
  "newDeviceHandler device =
     \<lparr>h_ids = \<lparr>hdDeviceID = dev_Id device, hdDeviceType = dev_Type device, hdProxyAddressID = [],
               hdProxyAddressType = []\<rparr>,
      h_device = device, h_logicalDeviceID = [], h_parentID = [], h_ponPortNumber = 0,
      h_devState = devStNull, h_deviceEntrySet = False, h_entry = None, h_tp = None, h_ani = None,
      h_pOnuIndication = None, h_deviceReason = [], h_lock = None, h_unlock = None,
      h_uniEntityMap = [], h_vlans = Map.empty, h_reconciling = False, h_ccs = [], h_calls = [],
      h_oltMsgs = [], h_tasks = [], h_crash = None\<rparr>"

definition dh_go :: "dhTask list \<Rightarrow> deviceHandler \<Rightarrow> deviceHandler" where
  "dh_go ts dh = dh\<lparr>h_tasks := h_tasks dh @ ts\<rparr>"

text \<open>A call to the core and whether it succeeded.\<close>

definition core :: "dhEnv \<Rightarrow> coreCall \<Rightarrow> deviceHandler \<Rightarrow> bool \<times> deviceHandler" where
  "core env c dh = (de_coreOk env c, dh\<lparr>h_calls := h_calls dh @ [c]\<rparr>)"

text \<open>A call of which a failure is only logged, skipped while reconciling.\<close>

definition notifyCore :: "dhEnv \<Rightarrow> coreCall \<Rightarrow> deviceHandler \<Rightarrow> deviceHandler" where
  "notifyCore env c dh = (if h_reconciling dh then dh else snd (core env c dh))"

text \<open>The error of \<open>Event\<close> for a machine without cancelling callbacks.\<close>

definition canFire :: "('ev, 'st) EventDesc list \<Rightarrow> 'ev \<Rightarrow> 'st \<Rightarrow> bool" where
  "canFire events e s = (case NewFSM events (e, s) of None \<Rightarrow> False | Some d \<Rightarrow> d \<noteq> s)"

text \<open>
  \<open>sendMsgToOlt\<close> (\<open>olt_onu_msg.go\<close>) for the option nil, which is encoded as \<open>null\<close>: all
  callers pass nil.
\<close>

definition sendMsgToOlt :: "dhEnv \<Rightarrow> string \<Rightarrow> deviceHandler \<Rightarrow> bool \<times> deviceHandler" where
  "sendMsgToOlt env msg dh =
     (let m = \<lparr>om_payload = ''null'', om_from = hdDeviceType (h_ids dh),
               om_to = hdProxyAddressType (h_ids dh), om_toDevice = hdDeviceID (h_ids dh),
               om_proxyDevice = h_parentID dh, om_id = msg\<rparr>
      in (de_oltOk env m, dh\<lparr>h_oltMsgs := h_oltMsgs dh @ [m]\<rparr>))"

section \<open>The machines of the handler\<close>

text \<open>
  Loading a machine with the channel its pointer refers to and storing the channel back. A
  machine with a nil pointer keeps what it has, its entry actions may then not use it.
\<close>

definition getCC :: "nat option \<Rightarrow> deviceHandler \<Rightarrow> omciCC \<Rightarrow> omciCC" where
  "getCC p dh cc = (case p of None \<Rightarrow> cc | Some i \<Rightarrow> h_ccs dh ! i)"

definition putCC :: "nat option \<Rightarrow> omciCC \<Rightarrow> deviceHandler \<Rightarrow> deviceHandler" where
  "putCC p cc dh = (case p of None \<Rightarrow> dh | Some i \<Rightarrow> dh\<lparr>h_ccs := (h_ccs dh)[i := cc]\<rparr>)"

definition loadUl :: "devEntry \<Rightarrow> deviceHandler \<Rightarrow> ulState \<times> mibSync" where
  "loadUl e dh =
     (case e_ul e of (st, w) \<Rightarrow> (st, w\<lparr>m_devState := e_devState e, m_cc := getCC (e_cc e) dh (m_cc w)\<rparr>))"

definition fireUl_dh :: "dhEnv \<Rightarrow> ulEvent \<Rightarrow> devEntry \<Rightarrow> deviceHandler \<Rightarrow> deviceHandler" where
  "fireUl_dh env n e dh =
     (case fireUl (de_lib env) (de_mib env) n (loadUl e dh) of (st, w) \<Rightarrow>
        putCC (e_cc e) (m_cc w)
          (dh\<lparr>h_entry := Some (e\<lparr>e_ul := (st, w), e_devState := m_devState w\<rparr>)\<rparr>))"

definition loadDl :: "devEntry \<Rightarrow> deviceHandler \<Rightarrow> dlState \<times> mibDownload" where
  "loadDl e dh =
     (case e_dl e of (st, w) \<Rightarrow> (st, w\<lparr>d_devState := e_devState e, d_cc := getCC (e_cc e) dh (d_cc w)\<rparr>))"

definition fireDl_dh :: "dhEnv \<Rightarrow> dlEvent \<Rightarrow> devEntry \<Rightarrow> deviceHandler \<Rightarrow> deviceHandler" where
  "fireDl_dh env n e dh =
     (case fireDl (de_lib env) n (loadDl e dh) of (st, w) \<Rightarrow>
        putCC (e_cc e) (d_cc w)
          (dh\<lparr>h_entry := Some (e\<lparr>e_dl := (st, w), e_devState := d_devState w\<rparr>)\<rparr>))"

text \<open>\<open>pLockStateFsm\<close> or \<open>pUnlockStateFsm\<close>.\<close>

definition lockFsm :: "bool \<Rightarrow> deviceHandler \<Rightarrow> (nat option \<times> uniState \<times> lockStateFsm) option" where
  "lockFsm locking dh = (if locking then h_lock dh else h_unlock dh)"

definition setLockFsm :: "bool \<Rightarrow> nat option \<times> uniState \<times> lockStateFsm \<Rightarrow> deviceHandler \<Rightarrow> deviceHandler" where
  "setLockFsm locking m dh = (if locking then dh\<lparr>h_lock := Some m\<rparr> else dh\<lparr>h_unlock := Some m\<rparr>)"

definition fireLock_dh :: "dhEnv \<Rightarrow> bool \<Rightarrow> uniEvent \<Rightarrow> deviceHandler \<Rightarrow> deviceHandler" where
  "fireLock_dh env locking n dh =
     (case lockFsm locking dh of
        None \<Rightarrow> dh
      | Some (p, s, w) \<Rightarrow>
          (case lockEvent (de_lib env) locking n (s, w\<lparr>l_cc := getCC p dh (l_cc w)\<rparr>) of (s', w') \<Rightarrow>
             putCC p (l_cc w') (setLockFsm locking (p, s', w') dh)))"

definition fireAni_dh :: "dhEnv \<Rightarrow> aniEvent \<Rightarrow> deviceHandler \<Rightarrow> deviceHandler" where
  "fireAni_dh env n dh =
     (case h_ani dh of
        None \<Rightarrow> dh
      | Some (p, s, w) \<Rightarrow>
          (case fireAni (de_lib env) n (s, w\<lparr>a_cc := getCC p dh (a_cc w)\<rparr>) of (s', w') \<Rightarrow>
             putCC p (a_cc w') (dh\<lparr>h_ani := Some (p, s', w')\<rparr>)))"

definition fireVlan_dh :: "dhEnv \<Rightarrow> vlanEvent \<Rightarrow> u8 \<Rightarrow> deviceHandler \<Rightarrow> deviceHandler" where
  "fireVlan_dh env n u dh =
     (case h_vlans dh u of
        None \<Rightarrow> dh
      | Some (p, s, w) \<Rightarrow>
          (case fireVlan (de_lib env) n (s, w\<lparr>v_cc := getCC p dh (v_cc w)\<rparr>) of (s', w') \<Rightarrow>
             putCC p (v_cc w') (dh\<lparr>h_vlans := (h_vlans dh)(u \<mapsto> (p, s', w'))\<rparr>)))"

section \<open>The device entry\<close>

text \<open>
  A new entry; the channels its machines are made with are never used, \<open>start\<close> provides one
  before they run.
\<close>

definition newEntry :: "dhEnv \<Rightarrow> deviceHandler \<Rightarrow> devEntry" where
  "newEntry env dh =
     (let e = newOnuDeviceEntry (hdDeviceID (h_ids dh)); cc = newOmciCC True (hdDeviceID (h_ids dh)) (h_ids dh) in
      \<lparr>e_started = oe_started e, e_cc = None, e_devState = oe_devState e,
       e_ul = newMibSync cc (de_templates env), e_dl = newMibDownload cc (oe_devState e)\<rparr>)"

definition setOnuDeviceEntry :: "devEntry \<Rightarrow> onuUniTechProf \<Rightarrow> deviceHandler \<Rightarrow> deviceHandler" where
  "setOnuDeviceEntry apDeviceEntry apOnuTp dh = dh\<lparr>h_entry := Some apDeviceEntry, h_tp := Some apOnuTp\<rparr>"

definition addOnuDeviceEntry :: "dhEnv \<Rightarrow> deviceHandler \<Rightarrow> deviceHandler" where
  "addOnuDeviceEntry env dh =
     (case h_entry dh of
        Some _ \<Rightarrow> dh
      | None \<Rightarrow>
          (setOnuDeviceEntry (newEntry env dh) (newOnuUniTechProf (de_tpStore env) (de_onuStore env)) dh)
            \<lparr>h_deviceEntrySet := True\<rparr>)"

text \<open>
  \<open>getOnuDeviceEntry\<close>; while it waits, another goroutine of the adapter may add the entry,
  which is signalled through the channel.
\<close>

definition getOnuDeviceEntry :: "dhEnv \<Rightarrow> bool \<Rightarrow> deviceHandler \<Rightarrow> devEntry option \<times> deviceHandler" where
  "getOnuDeviceEntry env aWait dh =
     (if aWait \<and> h_entry dh = None then
        (let dh' = (if de_entryInTime env then addOnuDeviceEntry env dh else dh) in
         if h_deviceEntrySet dh' then (h_entry dh', dh'\<lparr>h_deviceEntrySet := False\<rparr>) else (None, dh'))
      else (h_entry dh, dh))"

text \<open>\<open>start\<close> of the entry, with the channel it makes put into the store.\<close>

definition startEntry :: "devEntry \<Rightarrow> deviceHandler \<Rightarrow> devEntry \<times> deviceHandler" where
  "startEntry e dh =
     (let oo = start (h_ids dh) \<lparr>oe_deviceID = hdDeviceID (h_ids dh), oe_started = e_started e,
                 oe_omciCC = None, oe_devState = e_devState e\<rparr>;
          e' = e\<lparr>e_started := oe_started oo, e_cc := Some (length (h_ccs dh))\<rparr>
      in (e', dh\<lparr>h_ccs := h_ccs dh @ (case oe_omciCC oo of None \<Rightarrow> [] | Some cc \<Rightarrow> [cc]),
                h_entry := Some e'\<rparr>))"

section \<open>The device state machine\<close>

definition devEvents :: "(devEvent, devState) EventDesc list" where
  "devEvents =
     [ev devEvDeviceInit [devStNull, devStDown] devStInit,
      ev devEvGrpcConnected [devStInit] devStConnected,
      ev devEvGrpcDisconnected [devStConnected, devStDown] devStInit,
      ev devEvDeviceUpInd [devStConnected, devStDown] devStUp,
      ev devEvDeviceDownInd [devStUp] devStDown]"

definition notImplemented :: string where "notImplemented = ''device FSM: function not implemented yet''"

text \<open>The PON port announced to the core.\<close>

definition ponPort :: "u32 \<Rightarrow> u32" where
  "ponPort ponPortNumber = (if ponPortNumber \<noteq> 0 then ponPortNumber else 1)"

text \<open>\<open>doStateInit\<close>: a refused PON port ends the process.\<close>

definition doStateInit :: "dhEnv \<Rightarrow> deviceHandler \<Rightarrow> string callback_result \<times> deviceHandler" where
  "doStateInit env dh =
     (let d = (h_device dh)\<lparr>dev_Root := False, dev_Vendor := ''OpenONU'', dev_Model := ''go'',
                           dev_Reason := ''activating-onu''\<rparr>;
          dh1 = notifyCore env (DeviceUpdate d)
                  (dh\<lparr>h_device := d, h_deviceReason := ''activating-onu'',
                     h_logicalDeviceID := hdDeviceID (h_ids dh)\<rparr>);
          dh2 = dh1\<lparr>h_parentID := dev_ParentId d, h_ponPortNumber := dev_ParentPortNo d,
                   h_ids := (h_ids dh1)\<lparr>hdProxyAddressID := dev_ProxyDeviceId d,
                                       hdProxyAddressType := dev_ProxyDeviceType d\<rparr>\<rparr>
      in if h_reconciling dh2 then (CbOk, dh2)
         else
           (case core env (PonPortCreated (ponPort (h_ponPortNumber dh2)) (h_parentID dh2)) dh2 of
              (ok, dh3) \<Rightarrow> if ok then (CbOk, dh3) else (CbOk, dh3\<lparr>h_crash := Some LogFatal\<rparr>)))"

definition postInit :: "dhEnv \<Rightarrow> deviceHandler \<Rightarrow> string callback_result \<times> deviceHandler" where
  "postInit env dh =
     (let dh1 = addOnuDeviceEntry env dh in
      (CbOk, if h_reconciling dh1 then dh_go [GoReconcileOnuInd] dh1 else dh1))"

definition doStateConnected :: "deviceHandler \<Rightarrow> string callback_result \<times> deviceHandler" where
  "doStateConnected dh = (CbCancel (Some notImplemented), dh)"

definition doStateUp :: "deviceHandler \<Rightarrow> string callback_result \<times> deviceHandler" where
  "doStateUp dh = (CbCancel (Some notImplemented), dh)"

definition doStateDown :: "deviceHandler \<Rightarrow> string callback_result \<times> deviceHandler" where
  "doStateDown dh = (CbCancel (Some notImplemented), dh)"

fun dev_before :: "dhEnv \<Rightarrow> devEvent \<Rightarrow> deviceHandler \<Rightarrow> string callback_result \<times> deviceHandler" where
  "dev_before env devEvDeviceInit dh = doStateInit env dh"
| "dev_before env devEvGrpcConnected dh = doStateConnected dh"
| "dev_before env devEvGrpcDisconnected dh = doStateInit env dh"
| "dev_before env devEvDeviceUpInd dh = doStateUp dh"
| "dev_before env devEvDeviceDownInd dh = doStateDown dh"

text \<open>The process has ended before the \<open>after_\<close> callback if the first one was fatal.\<close>

fun dev_after :: "dhEnv \<Rightarrow> devEvent \<Rightarrow> deviceHandler \<Rightarrow> string callback_result \<times> deviceHandler" where
  "dev_after env devEvDeviceInit dh = (if h_crash dh = None then postInit env dh else (CbOk, dh))"
| "dev_after env devEvGrpcDisconnected dh = (if h_crash dh = None then postInit env dh else (CbOk, dh))"
| "dev_after env _ dh = (CbOk, dh)"

definition dev_callbacks :: "dhEnv \<Rightarrow> (devEvent, devState, deviceHandler, string) Callbacks" where
  "dev_callbacks env = \<lparr>before_cb = dev_before env, enter_cb = (\<lambda>_ dh. (CbOk, dh)), after_cb = dev_after env\<rparr>"

definition fireDev :: "dhEnv \<Rightarrow> devEvent \<Rightarrow> deviceHandler \<Rightarrow>
    (devEvent, devState, string) fsm_error option \<times> deviceHandler" where
  "fireDev env n dh =
     (case Event devEvents (dev_callbacks env) n (h_devState dh, dh) of
        (err, st, dh') \<Rightarrow> (err, dh'\<lparr>h_devState := st\<rparr>))"

definition adoptOrReconcileDevice :: "dhEnv \<Rightarrow> deviceHandler \<Rightarrow> deviceHandler" where
  "adoptOrReconcileDevice env dh =
     (if h_devState dh = devStNull then snd (fireDev env devEvDeviceInit dh) else dh)"

end
