(* ===== verification/Device_Ops.thy ===== *)
theory Device_Ops
  imports Device_Handler
begin

text \<open>
  The operations of the device handler (\<open>device_handler.go\<close>) on ONU indications, device events
  and requests of the core: starting and stopping the ONU, the UNI ports, the lock machines, the
  reconciliation and the VLAN machines of flows.
\<close>

datatype dh_error = NoValidOnuDevice | WrongStateOfMibSyncFsm | CantGoToStarting
  | CantGoToResettingMib | ReasonUpdateFailed | StateUpdateFailed | DeviceUnreachable
  | InvalidOperState | TechProfNotSetUp | Unimplemented | UnmarshalFailed | TpError tp_error

section \<open>UNI ports\<close>

text \<open>
  \<open>(1<<uniID) & mask == (1<<uniID)\<close> on 64-bit integers: only the bit of UNI 0 is set in the
  mask, but from UNI 64 on both sides are 0.
\<close>

definition activeUniPortStateUpdateMask :: u64 where "activeUniPortStateUpdateMask = 0x0001"

definition stateReported :: "onuUniPort \<Rightarrow> bool" where
  "stateReported uniPort \<longleftrightarrow>
     push_bit (unat (uniID uniPort)) (1 :: u64) AND activeUniPortStateUpdateMask
       = push_bit (unat (uniID uniPort)) 1"

text \<open>The loops over the port map, which do not depend on the order of their iterations.\<close>

definition enableUniPortStateUpdate :: "deviceHandler \<Rightarrow> deviceHandler" where
  "enableUniPortStateUpdate dh =
     dh_go (if h_reconciling dh then []
            else map (\<lambda>(k, p). GoPortStateUpdate (portNo p) Oper_ACTIVE)
                   (filter (stateReported \<circ> snd) (h_uniEntityMap dh)))
       (dh\<lparr>h_uniEntityMap :=
            map (\<lambda>(k, p). (k, if stateReported p then setOperState Oper_ACTIVE p else p)) (h_uniEntityMap dh)\<rparr>)"

definition disableUniPortStateUpdate :: "deviceHandler \<Rightarrow> deviceHandler" where
  "disableUniPortStateUpdate dh =
     dh_go (map (\<lambda>(k, p). GoPortStateUpdate (portNo p) Oper_UNKNOWN)
              (filter (stateReported \<circ> snd) (h_uniEntityMap dh)))
       (dh\<lparr>h_uniEntityMap :=
            map (\<lambda>(k, p). (k, if stateReported p then setOperState Oper_UNKNOWN p else p)) (h_uniEntityMap dh)\<rparr>)"

text \<open>\<open>pOnuIndication.GetIntfId()\<close> and \<open>GetOnuId()\<close> are 0 for a nil indication.\<close>

definition indicatedPort :: "deviceHandler \<Rightarrow> u8 \<Rightarrow> u32" where
  "indicatedPort dh aUniID =
     (case h_pOnuIndication dh of
        None \<Rightarrow> mkUniPortNum 0 0 (ucast aUniID)
      | Some ind \<Rightarrow> mkUniPortNum (IntfId ind) (OnuId ind) (ucast aUniID))"

definition announcePort :: "dhEnv \<Rightarrow> onuUniPort \<Rightarrow> deviceHandler \<Rightarrow> onuUniPort outcome" where
  "announcePort env pUniPort dh =
     createVolthaPort (dev_SerialNumber (h_device dh)) (h_ponPortNumber dh)
       (map_option (\<lambda>e. m_macAddress (snd (e_ul e))) (h_entry dh))
       (de_coreOk env \<circ> UniPortCreated) pUniPort"

definition addUniPort :: "dhEnv \<Rightarrow> u16 \<Rightarrow> u8 \<Rightarrow> uniPortType \<Rightarrow> deviceHandler \<Rightarrow> deviceHandler outcome" where
  "addUniPort env aUniInstNo aUniID aPortType dh =
     (let uniNo = indicatedPort dh aUniID in
      if uniNo \<in> fst ` set (h_uniEntityMap dh) then Done dh
      else
        (let pUniPort = newOnuUniPort aUniID uniNo aUniInstNo aPortType in
         if h_reconciling dh then Done (dh\<lparr>h_uniEntityMap := h_uniEntityMap dh @ [(uniNo, pUniPort)]\<rparr>)
         else
           bind_outcome (announcePort env pUniPort dh)
             (\<lambda>port. Done (dh\<lparr>h_uniEntityMap := h_uniEntityMap dh @ [(uniNo, port)],
                            h_calls := h_calls dh @ map UniPortCreated (case pPort port of None \<Rightarrow> [] | Some v \<Rightarrow> [v])\<rparr>))))"

text \<open>The loop over the instances of a class, with its counter of UNIs.\<close>

fun addUniPorts :: "dhEnv \<Rightarrow> uniPortType \<Rightarrow> u16 list \<Rightarrow> u8 \<times> deviceHandler \<Rightarrow> (u8 \<times> deviceHandler) outcome" where
  "addUniPorts env aPortType [] (i, dh) = Done (i, dh)"
| "addUniPorts env aPortType (mgmtEntityID # keys) (i, dh) =
     bind_outcome (addUniPort env mgmtEntityID i aPortType dh)
       (\<lambda>dh'. addUniPorts env aPortType keys (i + 1, dh'))"

section \<open>Lock machines\<close>

definition runUniLockFsm :: "dhEnv \<Rightarrow> bool \<Rightarrow> deviceHandler \<Rightarrow> deviceHandler" where
  "runUniLockFsm env aAdminState dh =
     (case lockFsm aAdminState dh of
        None \<Rightarrow> dh\<lparr>h_crash := Some NilDeref\<rparr>
      | Some (_, s, _) \<Rightarrow>
          (let dh1 = (case lockFsm (\<not> aAdminState) dh of
                        None \<Rightarrow> dh
                      | Some (_, s', _) \<Rightarrow>
                          if s' \<noteq> uniStDisabled then fireLock_dh env (\<not> aAdminState) uniEvReset dh else dh)
           in if s = uniStDisabled then fireLock_dh env aAdminState uniEvStart dh1 else dh1))"

definition createUniLockFsm :: "dhEnv \<Rightarrow> bool \<Rightarrow> OnuDeviceEvent \<Rightarrow> deviceHandler \<Rightarrow> deviceHandler" where
  "createUniLockFsm env aAdminState devEvent dh =
     (case getOnuDeviceEntry env True dh of
        (None, dh1) \<Rightarrow> dh1
      | (Some pDevEntry, dh1) \<Rightarrow>
          runUniLockFsm env aAdminState
            (setLockFsm aAdminState
               (e_cc pDevEntry,
                newLockStateFsm (getCC (e_cc pDevEntry) dh1 (d_cc (snd (e_dl pDevEntry)))) aAdminState devEvent)
               dh1))"

text \<open>Create the machine of this direction, or reuse it with another success event.\<close>

definition startUniLock :: "dhEnv \<Rightarrow> bool \<Rightarrow> OnuDeviceEvent \<Rightarrow> deviceHandler \<Rightarrow> deviceHandler" where
  "startUniLock env aAdminState devEvent dh =
     (case lockFsm aAdminState dh of
        None \<Rightarrow> createUniLockFsm env aAdminState devEvent dh
      | Some (p, s, w) \<Rightarrow>
          runUniLockFsm env aAdminState (setLockFsm aAdminState (p, s, setSuccessEvent devEvent w) dh))"

definition disableDevice :: "dhEnv \<Rightarrow> deviceHandler \<Rightarrow> deviceHandler" where
  "disableDevice env dh =
     (if h_deviceReason dh = ''omci-admin-lock'' then dh
      else
        (let dh1 = startUniLock env True UniAdminStateDone dh;
             dh2 = snd (core env (DeviceReasonUpdate ''omci-admin-lock'') dh1)
         in snd (core env (DeviceStateUpdate Conn_UNREACHABLE Oper_UNKNOWN)
                   (dh2\<lparr>h_deviceReason := ''omci-admin-lock''\<rparr>))))"

definition reEnableDevice :: "dhEnv \<Rightarrow> deviceHandler \<Rightarrow> deviceHandler" where
  "reEnableDevice env dh =
     (let dh1 = snd (core env (DeviceStateUpdate Conn_REACHABLE Oper_ACTIVE) dh);
          dh2 = snd (core env (DeviceReasonUpdate ''initial-mib-downloaded'') dh1)
      in startUniLock env False UniAdminStateDone (dh2\<lparr>h_deviceReason := ''initial-mib-downloaded''\<rparr>))"

section \<open>Starting and stopping the ONU\<close>

text \<open>
  The first half of \<open>createInterface\<close>, up to the wait for the result of the OMCI test; the
  result of the wait is only logged.
\<close>

definition createInterface_start :: "dhEnv \<Rightarrow> onuIndication \<Rightarrow> deviceHandler \<Rightarrow> bool \<times> deviceHandler" where
  "createInterface_start env onuind dh =
     (let dh1 = notifyCore env (DeviceStateUpdate Conn_REACHABLE Oper_ACTIVATING)
                  (dh\<lparr>h_pOnuIndication := Some onuind\<rparr>)
      in (case getOnuDeviceEntry env True dh1 of
            (None, dh2) \<Rightarrow> (False, dh2)
          | (Some e, dh2) \<Rightarrow>
              (case startEntry e dh2 of
                 (e', dh3) \<Rightarrow>
                   (let dh4 = (notifyCore env (DeviceReasonUpdate ''starting-openomci'') dh3)
                          \<lparr>h_deviceReason := ''starting-openomci''\<rparr>;
                        cc = snd (performOmciTest (de_lib env)
                               (newOmciTestRequest (hdDeviceID (h_ids dh4)) True True True) (getCC (e_cc e') dh4 (m_cc (snd (e_ul e')))))
                    in (True, putCC (e_cc e') cc dh4)))))"

text \<open>The second half: the start of the MIB synchronisation.\<close>

definition createInterface_sync :: "dhEnv \<Rightarrow> deviceHandler \<Rightarrow> (dh_error option \<times> deviceHandler) outcome" where
  "createInterface_sync env dh =
     bind_outcome (deref (h_entry dh)) (\<lambda>e.
       if fst (e_ul e) = ulStDisabled then
         (if \<not> canFire ulEvents ulEvStart (fst (e_ul e)) then Done (Some CantGoToStarting, dh)
          else
            (let dh1 = fireUl_dh env ulEvStart e dh in
             bind_outcome (deref (h_entry dh1)) (\<lambda>e1.
               if \<not> canFire ulEvents ulEvResetMib (fst (e_ul e1)) then Done (Some CantGoToResettingMib, dh1)
               else Done (None, fireUl_dh env ulEvResetMib e1 dh1))))
       else Done (Some WrongStateOfMibSyncFsm, dh))"

text \<open>\<open>meanwhile\<close>: what the other goroutines do to the handler during the wait.\<close>

definition createInterface :: "dhEnv \<Rightarrow> (deviceHandler \<Rightarrow> deviceHandler) \<Rightarrow> onuIndication \<Rightarrow> deviceHandler \<Rightarrow>
    (dh_error option \<times> deviceHandler) outcome" where
  "createInterface env meanwhile onuind dh =
     (case createInterface_start env onuind dh of
        (False, dh1) \<Rightarrow> Done (Some NoValidOnuDevice, dh1)
      | (True, dh1) \<Rightarrow> createInterface_sync env (meanwhile dh1))"

text \<open>The machines that may run after the MIB download: reset, the configured UNIs forgotten.\<close>

definition resetUni :: "dhEnv \<Rightarrow> onuUniPort \<Rightarrow> deviceHandler \<Rightarrow> deviceHandler" where
  "resetUni env uniPort dh =
     fireVlan_dh env vlanEvReset (uniID uniPort)
       (dh\<lparr>h_tp := map_option (setConfigDone (uniID uniPort) False) (h_tp dh)\<rparr>)"

definition resetMachines :: "dhEnv \<Rightarrow> deviceHandler \<Rightarrow> deviceHandler" where
  "resetMachines env dh =
     (let dh1 = fireLock_dh env True uniEvReset (fireLock_dh env False uniEvReset dh) in
      if h_tp dh1 = None then dh1\<lparr>h_crash := Some NilDeref\<rparr>
      else fold (resetUni env) (map snd (h_uniEntityMap dh1)) (fireAni_dh env aniEvReset dh1))"

definition stopMachines :: "dhEnv \<Rightarrow> devEntry \<Rightarrow> deviceHandler \<Rightarrow> deviceHandler" where
  "stopMachines env e dh =
     (if h_deviceReason dh = ''starting-openomci'' then fireUl_dh env ulEvStop e dh
      else if h_deviceReason dh = ''discovery-mibsync-complete'' then fireDl_dh env dlEvReset e dh
      else resetMachines env dh)"

definition stopEntry :: "deviceHandler \<Rightarrow> deviceHandler" where
  "stopEntry dh = dh\<lparr>h_entry := map_option (\<lambda>e. e\<lparr>e_started := False\<rparr>) (h_entry dh)\<rparr>"

definition updateInterface :: "dhEnv \<Rightarrow> deviceHandler \<Rightarrow> dh_error option \<times> deviceHandler" where
  "updateInterface env dh =
     (if h_deviceReason dh = ''stopping-openomci'' then (None, dh)
      else
        (case getOnuDeviceEntry env False dh of
           (None, dh1) \<Rightarrow> (Some NoValidOnuDevice, dh1)
         | (Some e, dh1) \<Rightarrow>
             (let dh2 = disableUniPortStateUpdate (stopEntry (stopMachines env e dh1)) in
              (case core env (DeviceReasonUpdate ''stopping-openomci'') dh2 of
                 (False, dh3) \<Rightarrow> (Some ReasonUpdateFailed, dh3)
               | (True, dh3) \<Rightarrow>
                   (case core env (DeviceStateUpdate Conn_UNREACHABLE Oper_DISCOVERED)
                          (dh3\<lparr>h_deviceReason := ''stopping-openomci''\<rparr>) of
                      (ok, dh4) \<Rightarrow> (if ok then None else Some StateUpdateFailed, dh4))))))"

end
