(* ===== verification/Device_Events.thy ===== *)
theory Device_Events
  imports Device_Ops
begin

text \<open>
  The device handler's reaction to events of the device entry, its requests to the tech profile
  handling, the reconciliation after a restart of the adapter, the flows, and the messages of
  the OLT adapter (\<open>device_handler.go\<close>).
\<close>

section \<open>Device events\<close>

text \<open>The end of the MIB synchronisation: a port for every instance, then the MIB download.\<close>

definition startMibDownload :: "dhEnv \<Rightarrow> deviceHandler \<Rightarrow> deviceHandler outcome" where
  "startMibDownload env dh =
     bind_outcome (deref (h_entry dh)) (\<lambda>e.
       if fst (e_dl e) = dlStDisabled \<and> canFire dlEvents dlEvStart (fst (e_dl e)) then
         (let dh1 = fireDl_dh env dlEvStart e dh in
          bind_outcome (deref (h_entry dh1)) (\<lambda>e1.
            if canFire dlEvents dlEvCreateGal (fst (e_dl e1)) then
              bind_outcome (deref (e_cc e1)) (\<lambda>_. Done (fireDl_dh env dlEvCreateGal e1 dh1))
            else Done dh1))
       else Done dh)"

definition addStoredPorts :: "dhEnv \<Rightarrow> deviceHandler \<Rightarrow> deviceHandler outcome" where
  "addStoredPorts env dh =
     bind_outcome (deref (h_entry dh)) (\<lambda>e.
     bind_outcome (deref (m_db (snd (e_ul e)))) (\<lambda>db.
     bind_outcome (addUniPorts env uniPPTP (getSortedInstKeys db UniGClassID) (0, dh)) (\<lambda>s.
     bind_outcome (addUniPorts env uniVEIP
       (getSortedInstKeys db VirtualEthernetInterfacePointClassID) s) (\<lambda>(i, dh'). Done dh'))))"

definition processMibDatabaseSyncEvent :: "dhEnv \<Rightarrow> deviceHandler \<Rightarrow> deviceHandler outcome" where
  "processMibDatabaseSyncEvent env dh =
     bind_outcome (addStoredPorts env
       ((notifyCore env (DeviceReasonUpdate ''discovery-mibsync-complete'') dh)
          \<lparr>h_deviceReason := ''discovery-mibsync-complete''\<rparr>))
       (startMibDownload env)"

definition processMibDownloadDoneEvent :: "dhEnv \<Rightarrow> deviceHandler \<Rightarrow> deviceHandler" where
  "processMibDownloadDoneEvent env dh =
     (let dh1 = notifyCore env (DeviceStateUpdate Conn_REACHABLE Oper_ACTIVE) dh;
          dh2 = notifyCore env (DeviceReasonUpdate ''initial-mib-downloaded'') dh1
      in startUniLock env False UniUnlockStateDone (dh2\<lparr>h_deviceReason := ''initial-mib-downloaded''\<rparr>))"

definition processUniUnlockStateDoneEvent :: "deviceHandler \<Rightarrow> deviceHandler" where
  "processUniUnlockStateDoneEvent dh =
     dh_go (if \<not> h_reconciling dh then [GoEnableUniPorts, GoOnuOperStateEvent Oper_ACTIVE]
            else [GoEnableUniPorts, GoReconcileTechProf]) dh"

definition processOmciAniConfigDoneEvent :: "dhEnv \<Rightarrow> deviceHandler \<Rightarrow> deviceHandler" where
  "processOmciAniConfigDoneEvent env dh =
     (if h_deviceReason dh = ''tech-profile-config-download-success'' then dh
      else (notifyCore env (DeviceReasonUpdate ''tech-profile-config-download-success'') dh)
             \<lparr>h_deviceReason := ''tech-profile-config-download-success''\<rparr>)"

definition processOmciVlanFilterDoneEvent :: "dhEnv \<Rightarrow> deviceHandler \<Rightarrow> deviceHandler" where
  "processOmciVlanFilterDoneEvent env dh =
     (if h_deviceReason dh = ''omci-flows-pushed'' then dh
      else (snd (core env (DeviceReasonUpdate ''omci-flows-pushed'') dh))
             \<lparr>h_deviceReason := ''omci-flows-pushed''\<rparr>)"

fun deviceProcStatusUpdate :: "dhEnv \<Rightarrow> OnuDeviceEvent \<Rightarrow> deviceHandler \<Rightarrow> deviceHandler outcome" where
  "deviceProcStatusUpdate env MibDatabaseSync dh = processMibDatabaseSyncEvent env dh"
| "deviceProcStatusUpdate env MibDownloadDone dh = Done (processMibDownloadDoneEvent env dh)"
| "deviceProcStatusUpdate env UniUnlockStateDone dh = Done (processUniUnlockStateDoneEvent dh)"
| "deviceProcStatusUpdate env OmciAniConfigDone dh = Done (processOmciAniConfigDoneEvent env dh)"
| "deviceProcStatusUpdate env OmciVlanFilterDone dh = Done (processOmciVlanFilterDoneEvent env dh)"
| "deviceProcStatusUpdate env _ dh = Done dh"

text \<open>
  The event raised on the Kafka bus. A parent device the core does not deliver is logged and
  then dereferenced; \<open>pOnuIndication\<close> is dereferenced without a getter.
\<close>

record deviceEvent =
  de_Context :: "(string \<times> string) list"
  de_ResourceId :: string
  de_DeviceEventName :: string
  de_Description :: string

definition sendOnuOperStateEvent :: "volthaDevice option \<Rightarrow> OperStatus \<Rightarrow> string \<Rightarrow> deviceHandler \<Rightarrow> deviceEvent outcome" where
  "sendOnuOperStateEvent parentDevice aOperState aDeviceID dh =
     bind_outcome (deref parentDevice) (\<lambda>parent.
     bind_outcome (deref (h_pOnuIndication dh)) (\<lambda>ind.
       Done \<lparr>de_Context =
               [(''pon-id'', format_nat (unat (IntfId ind))), (''onu-id'', format_nat (unat (OnuId ind))),
                (''serial-number'', dev_SerialNumber (h_device dh)),
                (''olt_serial_number'', dev_SerialNumber parent),
                (''device_id'', aDeviceID), (''registration_id'', aDeviceID)],
             de_ResourceId = aDeviceID,
             de_DeviceEventName =
               ''ONU_ACTIVATED'' @ (if aOperState = Oper_ACTIVE then ''_RAISE_EVENT'' else ''_CLEAR_EVENT''),
             de_Description =
               ''ONU Event - ONU_ACTIVATED - '' @ (if aOperState = Oper_ACTIVE then ''Raised'' else ''Cleared'')\<rparr>))"

section \<open>Tech profile requests\<close>

text \<open>
  The goroutines of a request run concurrently and share only the processing result, so that
  they are composed in either order. \<open>conf\<close> is the run of \<open>configureUniTp\<close> for a UNI and a
  path, \<open>kv\<close> that of \<open>updateOnuTpPathKvStore\<close>; \<open>waitForTpCompletion\<close> returns the result.
\<close>

record tpRuns =
  run_conf :: "u8 \<Rightarrow> string \<Rightarrow> onuUniTechProf \<Rightarrow> onuUniTechProf outcome"
  run_kv :: "onuUniTechProf \<Rightarrow> onuUniTechProf"
  run_kvFirst :: bool

definition waitForTpCompletion :: "onuUniTechProf \<Rightarrow> dh_error option" where
  "waitForTpCompletion tp = map_option TpError (procResult tp)"

definition configureAndStore :: "tpRuns \<Rightarrow> u8 \<Rightarrow> string \<Rightarrow> onuUniTechProf \<Rightarrow> onuUniTechProf outcome" where
  "configureAndStore runs u path tp =
     (if run_kvFirst runs then run_conf runs u path (run_kv runs tp)
      else bind_outcome (run_conf runs u path tp) (\<lambda>tp'. Done (run_kv runs tp')))"

text \<open>The messages, \<open>None\<close> when the body cannot be unmarshalled; UNI and path.\<close>

definition processInterAdapterTechProfileDownloadReqMessage ::
    "tpRuns \<Rightarrow> (u32 \<times> string) option \<Rightarrow> deviceHandler \<Rightarrow> (dh_error option \<times> deviceHandler) outcome" where
  "processInterAdapterTechProfileDownloadReqMessage runs body dh =
     (case h_tp dh of
        None \<Rightarrow> Done (Some TechProfNotSetUp, dh)
      | Some tp \<Rightarrow>
          if h_deviceReason dh = ''stopping-openomci'' \<or> h_deviceReason dh = ''omci-admin-lock'' then
            Done (Some DeviceUnreachable, dh)
          else
            (case body of
               None \<Rightarrow> Done (Some UnmarshalFailed, dh)
             | Some (uniId, path) \<Rightarrow>
                 (case updateOnuUniTpPath uniId path tp of
                    (False, tp1) \<Rightarrow> Done (None, dh\<lparr>h_tp := Some tp1\<rparr>)
                  | (True, tp1) \<Rightarrow>
                      bind_outcome (configureAndStore runs (ucast uniId) path (resetProcessingErrorIndication tp1))
                        (\<lambda>tp2. Done (waitForTpCompletion tp2, dh\<lparr>h_tp := Some tp2\<rparr>)))))"

text \<open>\<open>deleteTpResource\<close> only logs.\<close>

definition processInterAdapterDeleteGemPortReqMessage ::
    "(u32 \<times> string) option \<Rightarrow> deviceHandler \<Rightarrow> dh_error option \<times> deviceHandler" where
  "processInterAdapterDeleteGemPortReqMessage body dh =
     (case h_tp dh of
        None \<Rightarrow> (Some TechProfNotSetUp, dh)
      | Some tp \<Rightarrow>
          (case body of
             None \<Rightarrow> (Some UnmarshalFailed, dh)
           | Some _ \<Rightarrow>
               (let tp1 = resetProcessingErrorIndication tp in
                (waitForTpCompletion tp1, dh\<lparr>h_tp := Some tp1\<rparr>))))"

definition processInterAdapterDeleteTcontReqMessage ::
    "tpRuns \<Rightarrow> (u32 \<times> string) option \<Rightarrow> deviceHandler \<Rightarrow> dh_error option \<times> deviceHandler" where
  "processInterAdapterDeleteTcontReqMessage runs body dh =
     (case h_tp dh of
        None \<Rightarrow> (Some TechProfNotSetUp, dh)
      | Some tp \<Rightarrow>
          (case body of
             None \<Rightarrow> (Some UnmarshalFailed, dh)
           | Some (uniId, path) \<Rightarrow>
               (case updateOnuUniTpPath uniId [] tp of
                  (False, tp1) \<Rightarrow> (None, dh\<lparr>h_tp := Some tp1\<rparr>)
                | (True, tp1) \<Rightarrow>
                    (let tp2 = run_kv runs (resetProcessingErrorIndication tp1) in
                     (waitForTpCompletion tp2, dh\<lparr>h_tp := Some tp2\<rparr>)))))"

section \<open>Reconciliation, deletion and reboot\<close>

definition reconcileDeviceOnuInd ::
    "dhEnv \<Rightarrow> (deviceHandler \<Rightarrow> deviceHandler) \<Rightarrow> ('b \<Rightarrow> onuPersistentData option) \<Rightarrow> 'b kv_read \<Rightarrow>
     deviceHandler \<Rightarrow> deviceHandler outcome" where
  "reconcileDeviceOnuInd env meanwhile unmarshal kv dh =
     bind_outcome (deref (h_tp dh)) (\<lambda>tp.
       (case restoreFromOnuTpPathKvStore unmarshal kv tp of
          (Some err, tp1) \<Rightarrow> Done (dh\<lparr>h_tp := Some tp1, h_reconciling := False\<rparr>)
        | (None, tp1) \<Rightarrow>
            (let d = sOnuPersistentData tp1;
                 ind = \<lparr>IntfId = PersIntfID d, OnuId = PersOnuID d, OperState = PersOperState d,
                        AdminStateS = PersAdminState d\<rparr>
             in bind_outcome (createInterface env meanwhile ind (dh\<lparr>h_tp := Some tp1\<rparr>))
                  (\<lambda>(_, dh'). Done dh'))))"

text \<open>The loop returns at the end of its first iteration, so only the first path is configured.\<close>

definition reconcileDeviceTechProf :: "tpRuns \<Rightarrow> deviceHandler \<Rightarrow> deviceHandler outcome" where
  "reconcileDeviceTechProf runs dh =
     bind_outcome (deref (h_tp dh)) (\<lambda>tp.
       (case PersUniTpPath (sOnuPersistentData tp) of
          (uniId, path) # _ \<Rightarrow>
            bind_outcome (run_conf runs (ucast uniId) path (resetProcessingErrorIndication tp))
              (\<lambda>tp1. Done (dh\<lparr>h_tp := Some tp1\<rparr>))
        | [] \<Rightarrow> Done (dh\<lparr>h_reconciling := False\<rparr>)))"

definition deleteDevice :: "bool \<Rightarrow> 'b kv_read \<Rightarrow> deviceHandler \<Rightarrow> (tp_error option \<times> 'b kv_read) outcome" where
  "deleteDevice ok kv dh =
     bind_outcome (deref (h_tp dh)) (\<lambda>tp. Done (deleteOnuTpPathKvStore ok tp kv))"

definition rebootDevice :: "dhEnv \<Rightarrow> volthaDevice \<Rightarrow> deviceHandler \<Rightarrow> dh_error option \<times> deviceHandler" where
  "rebootDevice env device dh =
     (if dev_ConnectStatus device \<noteq> Conn_REACHABLE then (Some DeviceUnreachable, dh)
      else
        (case core env (DeviceStateUpdate Conn_UNREACHABLE Oper_DISCOVERED) dh of
           (False, dh1) \<Rightarrow> (Some StateUpdateFailed, dh1)
         | (True, dh1) \<Rightarrow>
             (case core env (DeviceReasonUpdate ''rebooting-onu'') dh1 of
                (False, dh2) \<Rightarrow> (Some ReasonUpdateFailed, dh2)
              | (True, dh2) \<Rightarrow>
                  (None, snd (sendMsgToOlt env ''reboot'' (dh2\<lparr>h_deviceReason := ''rebooting-onu''\<rparr>))))))"

section \<open>Flows\<close>

text \<open>
  The machine is stored before it is started. The request event of a flow is
  \<open>OmciVlanFilterDone\<close>.
\<close>

definition createVlanFilterFsm :: "dhEnv \<Rightarrow> onuUniPort \<Rightarrow> u16 \<Rightarrow> u16 \<Rightarrow> u16 \<Rightarrow> u8 \<Rightarrow> OnuDeviceEvent \<Rightarrow>
    deviceHandler \<Rightarrow> flow_error option \<times> deviceHandler" where
  "createVlanFilterFsm env apUniPort aTpID aMatchVlan aSetVlan aSetPcp aDevEvent dh =
     (case getOnuDeviceEntry env True dh of
        (None, dh1) \<Rightarrow> (Some FlowNoDevice, dh1)
      | (Some e, dh1) \<Rightarrow>
          (let (s, w) = NewUniVlanConfigFsm (getCC (e_cc e) dh1 (d_cc (snd (e_dl e)))) apUniPort aTpID aDevEvent
                 (de_acceptIncrementalEvto env) aMatchVlan aSetVlan aSetPcp;
               dh2 = dh1\<lparr>h_vlans := (h_vlans dh1)(uniID apUniPort \<mapsto> (e_cc e, s, w))\<rparr>
           in if s = vlanStDisabled then
                (if \<not> canFire vlanEvents vlanEvStart s then (Some FlowCannotStart, dh2)
                 else (None, fireVlan_dh env vlanEvStart (uniID apUniPort) dh2))
              else (Some FlowFsmNotDisabled, dh2)))"

definition addFlowItemToUniPort :: "dhEnv \<Rightarrow> ofpFlowStats \<Rightarrow> onuUniPort \<Rightarrow> deviceHandler \<Rightarrow>
    (flow_error option \<times> deviceHandler) outcome" where
  "addFlowItemToUniPort env apFlowItem apUniPort dh =
     bind_outcome (flowVlan apFlowItem) (\<lambda>r.
       (case r of
          FlowRejected err \<Rightarrow> Done (Some err, dh)
        | FlowIgnored \<Rightarrow> Done (None, dh)
        | FlowVlan loTpID loMatchVlan loSetVlan loSetPcp \<Rightarrow>
            if h_vlans dh (uniID apUniPort) \<noteq> None then Done (Some FlowFsmRunning, dh)
            else Done (createVlanFilterFsm env apUniPort loTpID loMatchVlan loSetVlan loSetPcp
                         OmciVlanFilterDone dh)))"

text \<open>One flow of \<open>ToAdd\<close>; removed flows are only logged.\<close>

definition addFlow :: "dhEnv \<Rightarrow> ofpFlowStats \<Rightarrow> deviceHandler \<Rightarrow> (flow_error option \<times> deviceHandler) outcome" where
  "addFlow env flowItem dh =
     (if Cookie flowItem = 0 then Done (None, dh)
      else
        bind_outcome (GetInPort flowItem) (\<lambda>flowInPort.
          if flowInPort = OFPP_INVALID then Done (Some FlowInPortInvalid, dh)
          else if flowInPort = h_ponPortNumber dh then Done (None, dh)
          else
            (case map_of (h_uniEntityMap dh) flowInPort of
               None \<Rightarrow> Done (Some (FlowInPortNotFound flowInPort), dh)
             | Some loUniPort \<Rightarrow> addFlowItemToUniPort env flowItem loUniPort dh)))"

fun FlowUpdateIncremental :: "dhEnv \<Rightarrow> ofpFlowStats list \<Rightarrow> deviceHandler \<Rightarrow>
    (flow_error option \<times> deviceHandler) outcome" where
  "FlowUpdateIncremental env [] dh = Done (None, dh)"
| "FlowUpdateIncremental env (flowItem # items) dh =
     bind_outcome (addFlow env flowItem dh) (\<lambda>(err, dh').
       (case err of Some _ \<Rightarrow> Done (err, dh') | None \<Rightarrow> FlowUpdateIncremental env items dh'))"

text \<open>
  \<open>verifyUniVlanConfigRequest\<close>, called once the tech profile of a UNI is configured; sending
  the first request of the continued machine dereferences its channel.
\<close>

definition verifyUniVlanConfigRequest :: "dhEnv \<Rightarrow> onuUniPort \<Rightarrow> deviceHandler \<Rightarrow> deviceHandler outcome" where
  "verifyUniVlanConfigRequest env apUniPort dh =
     (case h_vlans dh (uniID apUniPort) of
        None \<Rightarrow> Done dh
      | Some (p, s, w) \<Rightarrow>
          if s \<noteq> vlanStWaitingTechProf then Done dh
          else if v_setVid w \<noteq> OFPVID_PRESENT \<and> p = None then Panic NilDeref
          else Done (fireVlan_dh env vlanEvContinueConfig (uniID apUniPort) dh))"

definition RemoveVlanFilterFsm_dh :: "onuUniPort \<Rightarrow> deviceHandler \<Rightarrow> deviceHandler" where
  "RemoveVlanFilterFsm_dh apUniPort dh = dh\<lparr>h_vlans := (h_vlans dh)(uniID apUniPort := None)\<rparr>"

section \<open>Messages of the OLT adapter\<close>

text \<open>The bodies, \<open>None\<close> when they cannot be unmarshalled.\<close>

datatype interAdapterBody = OMCI_REQUEST "u8 list option" | ONU_IND_REQUEST "onuIndication option"
  | TECH_PROFILE_DOWNLOAD_REQUEST "(u32 \<times> string) option" | DELETE_GEM_PORT_REQUEST "(u32 \<times> string) option"
  | DELETE_TCONT_REQUEST "(u32 \<times> string) option" | OTHER_MESSAGE

datatype ia_error = HandlerError dh_error | ChannelError cc_error | NoOnuDevice

text \<open>
  Before the entry has been started its channel is a nil pointer: what \<open>receiveMessage\<close> rejects
  before it looks at its table is reported all the same, the rest panics.
\<close>

definition processInterAdapterOMCIReqMessage :: "dhEnv \<Rightarrow> u8 list option \<Rightarrow> deviceHandler \<Rightarrow>
    (ia_error option \<times> deviceHandler) outcome" where
  "processInterAdapterOMCIReqMessage env body dh =
     (case body of
        None \<Rightarrow> Done (Some (HandlerError UnmarshalFailed), dh)
      | Some omciMsg \<Rightarrow>
          (case getOnuDeviceEntry env True dh of
             (None, dh1) \<Rightarrow> Done (Some NoOnuDevice, dh1)
           | (Some e, dh1) \<Rightarrow>
               (case receiveMessage (de_lib env) omciMsg (getCC (e_cc e) dh1 (newOmciCC False [] (h_ids dh1))) of
                  (err, cc) \<Rightarrow>
                    if e_cc e = None \<and> err = Some NoRegisteredHandler then Panic NilDeref
                    else Done (map_option ChannelError err, putCC (e_cc e) cc dh1))))"

text \<open>The result of starting or stopping the ONU is not reported.\<close>

definition processInterAdapterONUIndReqMessage :: "dhEnv \<Rightarrow> (deviceHandler \<Rightarrow> deviceHandler) \<Rightarrow>
    onuIndication option \<Rightarrow> deviceHandler \<Rightarrow> (dh_error option \<times> deviceHandler) outcome" where
  "processInterAdapterONUIndReqMessage env meanwhile body dh =
     (case body of
        None \<Rightarrow> Done (Some UnmarshalFailed, dh)
      | Some onuIndication \<Rightarrow>
          if OperState onuIndication = ''up'' then
            bind_outcome (createInterface env meanwhile onuIndication dh) (\<lambda>(_, dh'). Done (None, dh'))
          else if OperState onuIndication = ''down'' \<or> OperState onuIndication = ''unreachable'' then
            Done (None, snd (updateInterface env dh))
          else Done (Some InvalidOperState, dh))"

fun processInterAdapterMessage :: "dhEnv \<Rightarrow> (deviceHandler \<Rightarrow> deviceHandler) \<Rightarrow> tpRuns \<Rightarrow> interAdapterBody \<Rightarrow>
    deviceHandler \<Rightarrow> (ia_error option \<times> deviceHandler) outcome" where
  "processInterAdapterMessage env meanwhile runs (OMCI_REQUEST body) dh =
     processInterAdapterOMCIReqMessage env body dh"
| "processInterAdapterMessage env meanwhile runs (ONU_IND_REQUEST body) dh =
     bind_outcome (processInterAdapterONUIndReqMessage env meanwhile body dh)
       (\<lambda>(e, dh'). Done (map_option HandlerError e, dh'))"
| "processInterAdapterMessage env meanwhile runs (TECH_PROFILE_DOWNLOAD_REQUEST body) dh =
     bind_outcome (processInterAdapterTechProfileDownloadReqMessage runs body dh)
       (\<lambda>(e, dh'). Done (map_option HandlerError e, dh'))"
| "processInterAdapterMessage env meanwhile runs (DELETE_GEM_PORT_REQUEST body) dh =
     Done (apfst (map_option HandlerError) (processInterAdapterDeleteGemPortReqMessage body dh))"
| "processInterAdapterMessage env meanwhile runs (DELETE_TCONT_REQUEST body) dh =
     Done (apfst (map_option HandlerError) (processInterAdapterDeleteTcontReqMessage runs body dh))"
| "processInterAdapterMessage env meanwhile runs OTHER_MESSAGE dh =
     Done (Some (HandlerError Unimplemented), dh)"

end
