(* ===== verification/Device_Reach.thy ===== *)
theory Device_Reach
  imports Device_Events
begin

text \<open>
  What the machines of the handler can change of it, the steps of the handler as a relation, and
  the invariant of the reachable states: the device machine, the ports and the channel pointers.
\<close>

section \<open>Machines work inside their frame\<close>

text \<open>What no machine of the handler changes, and where the pointers to channels are.\<close>

definition frame where
  "frame dh = ((h_ids dh, h_device dh, h_logicalDeviceID dh, h_parentID dh, h_ponPortNumber dh),
     (h_devState dh, h_deviceEntrySet dh, h_pOnuIndication dh, h_deviceReason dh, h_uniEntityMap dh),
     (h_reconciling dh, h_calls dh, h_oltMsgs dh, h_tasks dh))"

definition pointers where
  "pointers dh = (length (h_ccs dh), map_option e_cc (h_entry dh), map_option fst (h_ani dh),
     map_option fst (h_lock dh), map_option fst (h_unlock dh), (\<lambda>u. map_option fst (h_vlans dh u)),
     h_tp dh = None)"

definition machines_step :: "deviceHandler \<Rightarrow> deviceHandler \<Rightarrow> bool" where
  "machines_step dh dh' \<longleftrightarrow> frame dh' = frame dh \<and> pointers dh' = pointers dh"

lemma machines_step_refl [simp, intro]: "machines_step dh dh"
  by (simp add: machines_step_def)

lemma machines_step_trans [trans]:
  "machines_step a b \<Longrightarrow> machines_step b c \<Longrightarrow> machines_step a c"
  by (simp add: machines_step_def)

lemmas frame_simps = machines_step_def frame_def pointers_def

lemma frame_putCC [simp]: "frame (putCC p cc dh) = frame dh"
  by (cases p) (simp_all add: putCC_def frame_def)

lemma pointers_putCC [simp]: "pointers (putCC p cc dh) = pointers dh"
  by (cases p) (simp_all add: putCC_def pointers_def)

lemma machines_fireUl: "h_entry dh = Some e \<Longrightarrow> machines_step dh (fireUl_dh env n e dh)"
  by (auto simp: fireUl_dh_def machines_step_def split: prod.splits) (auto simp: frame_def pointers_def)

lemma machines_fireDl: "h_entry dh = Some e \<Longrightarrow> machines_step dh (fireDl_dh env n e dh)"
  by (auto simp: fireDl_dh_def machines_step_def split: prod.splits) (auto simp: frame_def pointers_def)

lemma machines_fireLock: "machines_step dh (fireLock_dh env b n dh)"
  by (auto simp: fireLock_dh_def machines_step_def split: prod.splits option.splits)
    (auto simp: frame_def pointers_def setLockFsm_def lockFsm_def split: if_splits)

lemma machines_fireAni: "machines_step dh (fireAni_dh env n dh)"
  by (auto simp: fireAni_dh_def machines_step_def split: prod.splits option.splits)
    (auto simp: frame_def pointers_def)

lemma machines_fireVlan: "machines_step dh (fireVlan_dh env n u dh)"
  by (auto simp: fireVlan_dh_def machines_step_def split: prod.splits option.splits)
    (auto simp: frame_def pointers_def fun_eq_iff)

lemma machines_tp: "h_tp dh \<noteq> None \<Longrightarrow> machines_step dh (dh\<lparr>h_tp := Some tp\<rparr>)"
  by (auto simp: frame_simps)

lemma machines_tp_map: "machines_step dh (dh\<lparr>h_tp := map_option f (h_tp dh)\<rparr>)"
  by (auto simp: frame_simps)

lemma machines_crash: "machines_step dh (dh\<lparr>h_crash := p\<rparr>)"
  by (auto simp: frame_simps)

lemma machines_setSuccess:
  "lockFsm b dh = Some (p, s, w) \<Longrightarrow> machines_step dh (setLockFsm b (p, s, w') dh)"
  by (auto simp: frame_simps setLockFsm_def lockFsm_def split: if_splits)

lemmas machines_intros = machines_fireUl machines_fireDl machines_fireLock machines_fireAni
  machines_fireVlan machines_tp machines_tp_map machines_crash machines_setSuccess

lemma machines_runUniLock: "machines_step dh (runUniLockFsm env b dh)"
  unfolding runUniLockFsm_def Let_def
  by (auto split: option.splits intro: machines_intros machines_step_trans [OF machines_fireLock machines_fireLock])

lemma machines_resetUni: "machines_step dh (resetUni env p dh)"
  unfolding resetUni_def by (rule machines_step_trans [OF machines_tp_map machines_fireVlan])

lemma machines_fold_resetUni: "machines_step dh (fold (resetUni env) ps dh)"
proof (induction ps arbitrary: dh)
  case (Cons p ps)
  show ?case
    using machines_step_trans [OF machines_resetUni [of dh env p] Cons.IH] by simp
qed simp

lemma machines_resetMachines: "machines_step dh (resetMachines env dh)"
proof -
  let ?dh1 = "fireLock_dh env True uniEvReset (fireLock_dh env False uniEvReset dh)"
  have 1: "machines_step dh ?dh1"
    by (rule machines_step_trans [OF machines_fireLock machines_fireLock])
  have 2: "machines_step ?dh1 (fold (resetUni env) ps (fireAni_dh env aniEvReset ?dh1))" for ps
    by (rule machines_step_trans [OF machines_fireAni machines_fold_resetUni])
  show ?thesis
    using machines_step_trans [OF 1 2] machines_step_trans [OF 1 machines_crash]
    by (simp add: resetMachines_def Let_def)
qed

lemma machines_stopMachines: "h_entry dh = Some e \<Longrightarrow> machines_step dh (stopMachines env e dh)"
  by (simp add: stopMachines_def machines_fireUl machines_fireDl machines_resetMachines)

text \<open>Equal frames and pointers mean equal fields.\<close>

lemma frameD:
  assumes "machines_step dh dh'"
  shows "h_ids dh' = h_ids dh" "h_device dh' = h_device dh" "h_devState dh' = h_devState dh"
    "h_deviceEntrySet dh' = h_deviceEntrySet dh" "h_pOnuIndication dh' = h_pOnuIndication dh"
    "h_deviceReason dh' = h_deviceReason dh" "h_uniEntityMap dh' = h_uniEntityMap dh"
    "h_reconciling dh' = h_reconciling dh" "h_calls dh' = h_calls dh" "h_oltMsgs dh' = h_oltMsgs dh"
    "h_tasks dh' = h_tasks dh" "h_ponPortNumber dh' = h_ponPortNumber dh" "h_parentID dh' = h_parentID dh"
    "length (h_ccs dh') = length (h_ccs dh)" "map_option e_cc (h_entry dh') = map_option e_cc (h_entry dh)"
    "h_tp dh' = None \<longleftrightarrow> h_tp dh = None"
  using assms by (simp_all add: frame_simps)

lemma machines_entry: "machines_step dh dh' \<Longrightarrow> h_entry dh = Some e \<Longrightarrow>
    \<exists>e'. h_entry dh' = Some e' \<and> e_cc e' = e_cc e"
  by (cases "h_entry dh'") (auto simp: frame_simps)


section \<open>The steps of the handler\<close>

inductive dh_step :: "deviceHandler \<Rightarrow> deviceHandler \<Rightarrow> bool" where
  fire_dev: "dh_step dh (snd (fireDev env n dh))"
| iface_start: "dh_step dh (snd (createInterface_start env ind dh))"
| iface_sync: "createInterface_sync env dh = Done (r, dh') \<Longrightarrow> dh_step dh dh'"
| iface_update: "dh_step dh (snd (updateInterface env dh))"
| dev_event: "deviceProcStatusUpdate env e dh = Done dh' \<Longrightarrow> dh_step dh dh'"
| disable: "dh_step dh (disableDevice env dh)"
| reenable: "dh_step dh (reEnableDevice env dh)"
| reboot: "dh_step dh (snd (rebootDevice env device dh))"
| flow: "addFlow env f dh = Done (r, dh') \<Longrightarrow> dh_step dh dh'"
| vlan_verify: "verifyUniVlanConfigRequest env port dh = Done dh' \<Longrightarrow> dh_step dh dh'"
| vlan_remove: "dh_step dh (RemoveVlanFilterFsm_dh port dh)"
| tp_download: "processInterAdapterTechProfileDownloadReqMessage runs body dh = Done (r', dh') \<Longrightarrow> dh_step dh dh'"
| tp_delete_gem: "dh_step dh (snd (processInterAdapterDeleteGemPortReqMessage body dh))"
| tp_delete_tcont: "dh_step dh (snd (processInterAdapterDeleteTcontReqMessage runs body dh))"
| reconcile_fails: "dh_step dh (dh\<lparr>h_reconciling := False\<rparr>)"
| reconcile_tp: "reconcileDeviceTechProf runs dh = Done dh' \<Longrightarrow> dh_step dh dh'"
| omci: "processInterAdapterOMCIReqMessage env omciBody dh = Done (r'', dh') \<Longrightarrow> dh_step dh dh'"
| ports_enable: "dh_step dh (enableUniPortStateUpdate dh)"
| ani_created: "h_entry dh = Some en \<Longrightarrow> dh_step dh (dh\<lparr>h_ani := Some (e_cc en, m)\<rparr>)"
| olt_message: "dh_step dh (snd (sendMsgToOlt env msg dh))"
| scheduling: "dh_step dh (dh\<lparr>h_tasks := ts\<rparr>)"
| machines: "machines_step dh dh' \<Longrightarrow> dh_step dh dh'"

text \<open>From a new handler, reconciling or not (\<open>Adopt_device\<close>, \<open>Reconcile_device\<close>).\<close>

inductive dh_reach :: "deviceHandler \<Rightarrow> bool" where
  reach_new: "dh_reach ((newDeviceHandler d)\<lparr>h_reconciling := b\<rparr>)"
| reach_dh_step: "dh_reach dh \<Longrightarrow> dh_step dh dh' \<Longrightarrow> dh_reach dh'"

section \<open>The invariant\<close>

definition announcedPort :: "coreCall \<Rightarrow> u32 list" where
  "announcedPort c = (case c of UniPortCreated v \<Rightarrow> [PortNo v] | _ \<Rightarrow> [])"

definition announced :: "deviceHandler \<Rightarrow> u32 list" where
  "announced dh = concat (map announcedPort (h_calls dh))"

definition ports_ok :: "deviceHandler \<Rightarrow> bool" where
  "ports_ok dh \<longleftrightarrow> distinct (map fst (h_uniEntityMap dh)) \<and>
     (\<forall>(k, p) \<in> set (h_uniEntityMap dh). portNo p = k) \<and>
     distinct (announced dh) \<and> set (announced dh) \<subseteq> fst ` set (h_uniEntityMap dh)"

text \<open>The current channel is the last one of the store; the machines hold some of the store.\<close>

definition current :: "deviceHandler \<Rightarrow> nat option" where
  "current dh = Option.bind (h_entry dh) e_cc"

definition held :: "deviceHandler \<Rightarrow> nat set" where
  "held dh = {i. Some (Some i) \<in> {map_option fst (h_ani dh), map_option fst (h_lock dh),
     map_option fst (h_unlock dh)} \<union> range (\<lambda>u. map_option fst (h_vlans dh u))}"

definition ccs_ok :: "deviceHandler \<Rightarrow> bool" where
  "ccs_ok dh \<longleftrightarrow> (current dh = None \<longrightarrow> h_ccs dh = []) \<and>
     (\<forall>i. current dh = Some i \<longrightarrow> Suc i = length (h_ccs dh)) \<and> held dh \<subseteq> {..< length (h_ccs dh)}"

definition dh_inv :: "deviceHandler \<Rightarrow> bool" where
  "dh_inv dh \<longleftrightarrow> h_devState dh \<in> {devStNull, devStInit} \<and> ports_ok dh \<and> ccs_ok dh"

lemmas dh_inv_defs = dh_inv_def ports_ok_def announced_def ccs_ok_def current_def held_def

lemma current_pointers: "current dh = Option.bind (map_option e_cc (h_entry dh)) id"
  by (simp add: current_def split: bind_splits)

lemma current_machines: "machines_step dh dh' \<Longrightarrow> current dh' = current dh"
  by (simp add: current_pointers frame_simps)

lemma held_machines:
  assumes "machines_step dh dh'"
  shows "held dh' = held dh"
proof -
  have "map_option fst (h_vlans dh' u) = map_option fst (h_vlans dh u)" for u
    using assms by (simp add: frame_simps fun_eq_iff)
  then show ?thesis
    using assms by (simp add: frame_simps held_def)
qed

lemma dh_inv_machines:
  assumes "machines_step dh dh'" and "dh_inv dh"
  shows "dh_inv dh'"
proof -
  have "h_ccs dh' = [] \<longleftrightarrow> h_ccs dh = []"
    using frameD(14) [OF assms(1)] by (metis length_0_conv)
  then show ?thesis
    using assms(2) by (simp add: dh_inv_def ports_ok_def announced_def ccs_ok_def frameD [OF assms(1)]
      current_machines [OF assms(1)] held_machines [OF assms(1)])
qed

lemma dh_inv_updates [simp]:
  "dh_inv (dh\<lparr>h_deviceReason := r\<rparr>) = dh_inv dh" "dh_inv (dh\<lparr>h_reconciling := b\<rparr>) = dh_inv dh"
  "dh_inv (dh\<lparr>h_tasks := ts\<rparr>) = dh_inv dh" "dh_inv (dh\<lparr>h_pOnuIndication := ind\<rparr>) = dh_inv dh"
  "dh_inv (dh\<lparr>h_oltMsgs := ms\<rparr>) = dh_inv dh" "dh_inv (dh\<lparr>h_deviceEntrySet := b\<rparr>) = dh_inv dh"
  "dh_inv (dh\<lparr>h_crash := c\<rparr>) = dh_inv dh" "dh_inv (dh\<lparr>h_tp := tp\<rparr>) = dh_inv dh"
  "dh_inv (dh\<lparr>h_ids := ids\<rparr>) = dh_inv dh" "dh_inv (dh\<lparr>h_device := dv\<rparr>) = dh_inv dh"
  "dh_inv (dh\<lparr>h_parentID := s\<rparr>) = dh_inv dh" "dh_inv (dh\<lparr>h_ponPortNumber := n\<rparr>) = dh_inv dh"
  "dh_inv (dh\<lparr>h_logicalDeviceID := s\<rparr>) = dh_inv dh"
  by (simp_all add: dh_inv_defs)

lemma dh_inv_call [simp]:
  "announcedPort c = [] \<Longrightarrow> h_calls dh = cs \<Longrightarrow> dh_inv (dh\<lparr>h_calls := cs @ [c]\<rparr>) = dh_inv dh"
  by (simp add: dh_inv_defs)

lemma dh_inv_call2 [simp]:
  "announcedPort c = [] \<Longrightarrow> announcedPort c' = [] \<Longrightarrow> h_calls dh = cs \<Longrightarrow>
   dh_inv (dh\<lparr>h_calls := cs @ [c, c']\<rparr>) = dh_inv dh"
  by (simp add: dh_inv_defs)

lemma announcedPort_simps [simp]:
  "announcedPort (DeviceUpdate d) = []" "announcedPort (PonPortCreated n s) = []"
  "announcedPort (UniPortCreated v) = [PortNo v]" "announcedPort (DeviceStateUpdate c o') = []"
  "announcedPort (DeviceReasonUpdate r) = []"
  by (simp_all add: announcedPort_def)

lemma dh_inv_core [simp]: "announcedPort c = [] \<Longrightarrow> dh_inv (snd (core env c dh)) = dh_inv dh"
  by (simp add: core_def)

lemma dh_inv_notifyCore [simp]: "announcedPort c = [] \<Longrightarrow> dh_inv (notifyCore env c dh) = dh_inv dh"
  by (simp add: notifyCore_def)

lemma dh_inv_go [simp]: "dh_inv (dh_go ts dh) = dh_inv dh"
  by (simp add: dh_go_def)

section \<open>Every step keeps the invariant\<close>

lemma dh_inv_addEntry [simp]: "dh_inv dh \<Longrightarrow> dh_inv (addOnuDeviceEntry env dh)"
  by (auto simp: addOnuDeviceEntry_def setOnuDeviceEntry_def dh_inv_defs newEntry_def Let_def split: option.splits)

lemma dh_inv_getEntry: "dh_inv dh \<Longrightarrow> getOnuDeviceEntry env w dh = (e, dh') \<Longrightarrow> dh_inv dh'"
  by (auto simp: getOnuDeviceEntry_def Let_def split: if_splits)

lemma getEntry_entry: "getOnuDeviceEntry env w dh = (Some e, dh') \<Longrightarrow> h_entry dh' = Some e"
  by (auto simp: getOnuDeviceEntry_def Let_def split: if_splits)

lemma dh_inv_doStateInit: "dh_inv dh \<Longrightarrow> dh_inv (snd (doStateInit env dh))"
  by (auto simp: doStateInit_def Let_def split: prod.splits) (simp_all add: core_def)

lemma doStateInit_ok: "fst (doStateInit env dh) = CbOk"
  by (simp add: doStateInit_def Let_def split: prod.splits)

lemma dh_inv_devState: "dh_inv dh \<Longrightarrow> st \<in> {devStNull, devStInit} \<Longrightarrow> dh_inv (dh\<lparr>h_devState := st\<rparr>)"
  by (simp add: dh_inv_defs)

lemma dh_inv_dev_after: "dh_inv dh \<Longrightarrow> dh_inv (snd (dev_after env n dh))"
  by (cases n) (simp_all add: postInit_def Let_def)

lemmas dev_table = devEvents_def NewFSM_def add_desc_def

text \<open>The only event with an effect initialises the machine.\<close>

lemma fireDev_init:
  assumes "h_devState dh = devStNull"
  shows "fireDev env devEvDeviceInit dh =
    (None, (snd (dev_after env devEvDeviceInit (snd (doStateInit env dh))))\<lparr>h_devState := devStInit\<rparr>)"
proof -
  obtain dh1 where 1: "doStateInit env dh = (CbOk, dh1)"
    using doStateInit_ok [of env dh] by (cases "doStateInit env dh") simp
  moreover obtain r dh2 where 2: "dev_after env devEvDeviceInit dh1 = (r, dh2)"
    by fastforce
  moreover have "r = CbOk"
    using 2 by (auto simp: postInit_def Let_def split: if_splits)
  moreover have "NewFSM devEvents (devEvDeviceInit, devStNull) = Some devStInit"
    by (simp add: dev_table)
  ultimately show ?thesis
    using assms by (simp add: fireDev_def Event_def dev_callbacks_def Let_def del: dev_after.simps)
qed

lemma fireDev_other:
  assumes "h_devState dh \<in> {devStNull, devStInit}" and "n \<noteq> devEvDeviceInit \<or> h_devState dh = devStInit"
  shows "\<exists>err. fireDev env n dh = (Some err, dh)"
proof -
  have upd: "dh\<lparr>h_devState := h_devState dh\<rparr> = dh" by simp
  have t: "NewFSM devEvents (n, h_devState dh) =
      (if n = devEvGrpcConnected \<and> h_devState dh = devStInit then Some devStConnected else None)"
    using assms by (cases n) (auto simp: dev_table)
  show ?thesis
    using upd assms(1)
    by (auto simp: fireDev_def Event_def t dev_callbacks_def doStateConnected_def)
qed

lemma dh_inv_fireDev:
  assumes "dh_inv dh"
  shows "dh_inv (snd (fireDev env n dh))"
proof (cases "h_devState dh = devStNull \<and> n = devEvDeviceInit")
  case True
  have "dh_inv (snd (dev_after env devEvDeviceInit (snd (doStateInit env dh))))"
    by (intro dh_inv_dev_after dh_inv_doStateInit assms)
  then show ?thesis
    using True by (simp add: fireDev_init dh_inv_devState)
next
  case False
  have "h_devState dh \<in> {devStNull, devStInit}"
    using assms by (simp add: dh_inv_def)
  with False fireDev_other [of dh n env] assms show ?thesis by auto
qed

section \<open>The other operations\<close>

lemma current_simps [simp]:
  "current (dh\<lparr>h_entry := e\<rparr>) = Option.bind e e_cc"
  by (simp add: current_def)

lemma dh_inv_startEntry:
  assumes "dh_inv dh" and "startEntry e dh = (e', dh')"
  shows "dh_inv dh' \<and> h_entry dh' = Some e'"
proof -
  have "h_ccs dh' = h_ccs dh @ [newOmciCC True (hdDeviceID (h_ids dh)) (h_ids dh)]"
    and "e_cc e' = Some (length (h_ccs dh))" and en: "h_entry dh' = Some e'"
    and "held dh' = held dh" "h_uniEntityMap dh' = h_uniEntityMap dh" "h_calls dh' = h_calls dh"
    and "h_devState dh' = h_devState dh"
    using assms(2) by (auto simp: startEntry_def start_def Let_def held_def)
  with assms(1) show ?thesis
    by (auto simp: dh_inv_def ports_ok_def announced_def ccs_ok_def current_def)
qed

lemma dh_inv_putCC [simp]: "dh_inv dh \<Longrightarrow> dh_inv (putCC p cc dh)"
  using dh_inv_machines [of dh "putCC p cc dh"] by (simp add: machines_step_def)

lemma dh_inv_createInterface_start:
  assumes "dh_inv dh"
  shows "dh_inv (snd (createInterface_start env ind dh))"
proof -
  let ?dh1 = "notifyCore env (DeviceStateUpdate Conn_REACHABLE Oper_ACTIVATING) (dh\<lparr>h_pOnuIndication := Some ind\<rparr>)"
  have 1: "dh_inv ?dh1"
    using assms by simp
  obtain en dh2 where g: "getOnuDeviceEntry env True ?dh1 = (en, dh2)" by fastforce
  have 2: "dh_inv dh2" by (rule dh_inv_getEntry [OF 1 g])
  show ?thesis
  proof (cases en)
    case None
    then show ?thesis using g 2 by (simp add: createInterface_start_def)
  next
    case (Some e)
    obtain e' dh3 where s: "startEntry e dh2 = (e', dh3)" by fastforce
    have "dh_inv dh3"
      using dh_inv_startEntry [OF 2 s] by simp
    then show ?thesis
      using g s Some by (simp add: createInterface_start_def Let_def)
  qed
qed

lemma machines_createInterface_sync:
  assumes "createInterface_sync env dh = Done (r, dh')"
  shows "machines_step dh dh'"
proof (cases "h_entry dh")
  case None
  then show ?thesis using assms by (simp add: createInterface_sync_def)
next
  case (Some e)
  note m = machines_fireUl [OF Some]
  obtain e1 where e1: "h_entry (fireUl_dh env ulEvStart e dh) = Some e1"
    using machines_entry [OF m [of env ulEvStart] Some] by blast
  show ?thesis
    using assms m machines_step_trans [OF m machines_fireUl [OF e1, of env ulEvResetMib]]
    by (auto simp: createInterface_sync_def Some e1 Let_def split: if_splits)
qed

lemma dh_inv_ports:
  assumes "dh_inv dh" and "map fst m = map fst (h_uniEntityMap dh)" and "\<forall>(k, p) \<in> set m. portNo p = k"
  shows "dh_inv (dh\<lparr>h_uniEntityMap := m\<rparr>)"
proof -
  have "fst ` set m = fst ` set (h_uniEntityMap dh)"
    using assms(2) by (metis list.set_map)
  then show ?thesis using assms by (simp add: dh_inv_defs)
qed

lemma dh_inv_setStates:
  assumes "dh_inv dh"
  shows "dh_inv (dh\<lparr>h_uniEntityMap := map (\<lambda>(k, p). (k, if P p then setOperState st p else p)) (h_uniEntityMap dh)\<rparr>)"
  by (rule dh_inv_ports [OF assms])
    (use assms in \<open>auto simp: dh_inv_def ports_ok_def setOperState_def case_prod_beta\<close>)

lemma dh_inv_updateInterface:
  assumes "dh_inv dh"
  shows "dh_inv (snd (updateInterface env dh))"
proof (cases "h_entry dh")
  case None
  then show ?thesis using assms by (simp add: updateInterface_def getOnuDeviceEntry_def)
next
  case (Some e)
  have "dh_inv (stopMachines env e dh)"
    by (rule dh_inv_machines [OF machines_stopMachines [OF Some] assms])
  then have "dh_inv (stopEntry (stopMachines env e dh))"
    by (auto simp: stopEntry_def dh_inv_defs split: option.splits bind_splits)
  then have "dh_inv (disableUniPortStateUpdate (stopEntry (stopMachines env e dh)))"
    by (simp add: disableUniPortStateUpdate_def dh_inv_setStates)
  then show ?thesis
    using assms Some by (auto simp: updateInterface_def getOnuDeviceEntry_def core_def Let_def split: bool.splits)
qed


lemma announcePort_outcome:
  assumes "announcePort env port dh = Done port'"
  shows "portNo port' = portNo port \<and> (\<exists>v. pPort port' = Some v \<and> PortNo v = portNo port) \<and>
    operState port' = Oper_DISCOVERED \<and> uniID port' = uniID port \<and> entityID port' = entityID port \<and>
    portType port' = portType port"
  using assms by (auto simp: announcePort_def createVolthaPort_def Let_def volthaPortOf_def split: if_splits)

lemma dh_inv_addPort:
  assumes "dh_inv dh" and "k \<notin> fst ` set (h_uniEntityMap dh)" and "portNo p = k"
    and "concat (map announcedPort cs) \<in> {[], [k]}"
  shows "dh_inv (dh\<lparr>h_uniEntityMap := h_uniEntityMap dh @ [(k, p)], h_calls := h_calls dh @ cs\<rparr>)"
proof -
  let ?dh' = "dh\<lparr>h_uniEntityMap := h_uniEntityMap dh @ [(k, p)], h_calls := h_calls dh @ cs\<rparr>"
  obtain xs where xs: "concat (map announcedPort cs) = xs" "xs \<in> {[], [k]}"
    using assms(4) by blast
  have ok: "ports_ok dh" and ann: "k \<notin> set (announced dh)"
    using assms(1,2) unfolding dh_inv_def ports_ok_def by blast+
  have "announced ?dh' = announced dh @ xs"
    by (simp add: announced_def xs(1))
  moreover have "distinct (announced dh @ xs)"
    and "set (announced dh @ xs) \<subseteq> insert k (fst ` set (h_uniEntityMap dh))"
    using ok ann xs(2) by (auto simp: ports_ok_def)
  moreover have "distinct (map fst (h_uniEntityMap dh @ [(k, p)]))"
    using ok assms(2) by (simp add: ports_ok_def)
  ultimately have "ports_ok ?dh'"
    using ok assms(3) by (simp add: ports_ok_def)
  moreover have "ccs_ok ?dh' = ccs_ok dh"
    by (simp add: ccs_ok_def current_def held_def)
  ultimately show ?thesis
    using assms(1) by (simp add: dh_inv_def)
qed

lemma dh_inv_addUniPort:
  assumes "dh_inv dh" and "addUniPort env inst u ty dh = Done dh'"
  shows "dh_inv dh'"
proof -
  let ?k = "indicatedPort dh u" and ?p = "newOnuUniPort u (indicatedPort dh u) inst ty"
  have p: "portNo ?p = ?k"
    by (simp add: newOnuUniPort_def Let_def)
  show ?thesis
  proof (cases "?k \<in> fst ` set (h_uniEntityMap dh)")
    case True
    then show ?thesis using assms by (simp add: addUniPort_def Let_def)
  next
    case k: False
    show ?thesis
    proof (cases "h_reconciling dh")
      case True
      with k assms(2) have "dh' = dh\<lparr>h_uniEntityMap := h_uniEntityMap dh @ [(?k, ?p)]\<rparr>"
        by (simp add: addUniPort_def Let_def)
      then show ?thesis using dh_inv_addPort [OF assms(1) k p, of "[]"] by simp
    next
      case False
      with k assms(2) obtain port where a: "announcePort env ?p dh = Done port"
        and d: "dh' = dh\<lparr>h_uniEntityMap := h_uniEntityMap dh @ [(?k, port)],
          h_calls := h_calls dh @ map UniPortCreated (case pPort port of None \<Rightarrow> [] | Some v \<Rightarrow> [v])\<rparr>"
        by (cases "announcePort env ?p dh") (simp_all add: addUniPort_def Let_def)
      obtain v where v: "pPort port = Some v" "PortNo v = ?k" "portNo port = ?k"
        using announcePort_outcome [OF a] p by auto
      show ?thesis
        using dh_inv_addPort [OF assms(1) k v(3), of "[UniPortCreated v]"] v d by simp
    qed
  qed
qed

lemma dh_inv_addUniPorts:
  "dh_inv dh \<Longrightarrow> addUniPorts env ty keys (i, dh) = Done (j, dh') \<Longrightarrow> dh_inv dh'"
proof (induction env ty keys "(i, dh)" arbitrary: i dh rule: addUniPorts.induct)
  case (2 env ty key keys i dh)
  then obtain dh1 where a: "addUniPort env key i ty dh = Done dh1"
    and r: "addUniPorts env ty keys (i + 1, dh1) = Done (j, dh')"
    by (auto simp: panic_simps)
  show ?case
    by (rule 2(1) [OF dh_inv_addUniPort [OF 2(2) a] r])
qed simp

lemma dh_inv_addStoredPorts:
  assumes "dh_inv dh" and "addStoredPorts env dh = Done dh'"
  shows "dh_inv dh'"
proof -
  from assms(2) obtain db i dh1 j where
    "addUniPorts env uniPPTP (getSortedInstKeys db UniGClassID) (0, dh) = Done (i, dh1)"
    "addUniPorts env uniVEIP (getSortedInstKeys db VirtualEthernetInterfacePointClassID) (i, dh1) = Done (j, dh')"
    by (auto simp: addStoredPorts_def panic_simps)
  then show ?thesis
    using dh_inv_addUniPorts assms(1) by blast
qed

lemma machines_startMibDownload:
  assumes "startMibDownload env dh = Done dh'"
  shows "machines_step dh dh'"
proof (cases "h_entry dh")
  case None
  then show ?thesis using assms by (simp add: startMibDownload_def)
next
  case (Some e)
  note m = machines_fireDl [OF Some]
  obtain e1 where e1: "h_entry (fireDl_dh env dlEvStart e dh) = Some e1"
    using machines_entry [OF m [of env dlEvStart] Some] by blast
  show ?thesis
    using assms m machines_step_trans [OF m machines_fireDl [OF e1, of env dlEvCreateGal]]
    by (auto simp: startMibDownload_def Some e1 Let_def panic_simps split: if_splits)
qed

lemma held_setLock: "held (setLockFsm b (p, m) dh) \<subseteq> held dh \<union> set_option p"
  by (cases b; cases p) (auto simp: held_def setLockFsm_def)

lemma current_less: "dh_inv dh \<Longrightarrow> h_entry dh = Some e \<Longrightarrow> set_option (e_cc e) \<subseteq> {..< length (h_ccs dh)}"
  by (cases "e_cc e") (auto simp: dh_inv_def ccs_ok_def current_def)

lemma dh_inv_setLock:
  assumes "dh_inv dh" and "h_entry dh = Some e"
  shows "dh_inv (setLockFsm b (e_cc e, m) dh)"
proof -
  have "held (setLockFsm b (e_cc e, m) dh) \<subseteq> {..< length (h_ccs dh)}"
    using held_setLock [of b "e_cc e" m dh] current_less [OF assms] assms(1)
    by (auto simp: dh_inv_def ccs_ok_def)
  then show ?thesis
    using assms(1) by (cases b) (auto simp: dh_inv_def ports_ok_def announced_def ccs_ok_def current_def setLockFsm_def)
qed

lemma dh_inv_startUniLock:
  assumes "dh_inv dh"
  shows "dh_inv (startUniLock env b ev' dh)"
proof (cases "lockFsm b dh")
  case None
  obtain en dh1 where g: "getOnuDeviceEntry env True dh = (en, dh1)" by fastforce
  have 1: "dh_inv dh1" by (rule dh_inv_getEntry [OF assms g])
  have "dh_inv (createUniLockFsm env b ev' dh)"
  proof (cases en)
    case None
    with g 1 show ?thesis by (simp add: createUniLockFsm_def)
  next
    case (Some e)
    with g have "h_entry dh1 = Some e" using getEntry_entry by simp
    from dh_inv_setLock [OF 1 this] show ?thesis
      using g Some by (simp add: createUniLockFsm_def dh_inv_machines [OF machines_runUniLock])
  qed
  with None show ?thesis by (simp add: startUniLock_def)
next
  case (Some m)
  obtain p s w where m: "m = (p, s, w)" by (cases m)
  show ?thesis
    using dh_inv_machines [OF machines_step_trans [OF machines_setSuccess machines_runUniLock] assms] Some
    by (simp add: startUniLock_def m)
qed

lemma dh_inv_deviceProcStatusUpdate:
  assumes "dh_inv dh" and "deviceProcStatusUpdate env n dh = Done dh'"
  shows "dh_inv dh'"
proof (cases n)
  case MibDatabaseSync
  let ?dh1 = "(notifyCore env (DeviceReasonUpdate ''discovery-mibsync-complete'') dh)
      \<lparr>h_deviceReason := ''discovery-mibsync-complete''\<rparr>"
  obtain dh2 where 2: "addStoredPorts env ?dh1 = Done dh2" "startMibDownload env dh2 = Done dh'"
    using assms(2) MibDatabaseSync by (auto simp: processMibDatabaseSyncEvent_def panic_simps)
  have "dh_inv ?dh1"
    using assms(1) by simp
  then have "dh_inv dh2"
    by (rule dh_inv_addStoredPorts [OF _ 2(1)])
  then show ?thesis
    by (rule dh_inv_machines [OF machines_startMibDownload [OF 2(2)]])
qed (use assms in \<open>auto simp: processMibDownloadDoneEvent_def processUniUnlockStateDoneEvent_def
      processOmciAniConfigDoneEvent_def processOmciVlanFilterDoneEvent_def Let_def dh_inv_startUniLock\<close>)

lemma dh_inv_setVlan:
  assumes "dh_inv dh" and "h_entry dh = Some e"
  shows "dh_inv (dh\<lparr>h_vlans := (h_vlans dh)(u \<mapsto> (e_cc e, m))\<rparr>)"
proof -
  have "held (dh\<lparr>h_vlans := (h_vlans dh)(u \<mapsto> (e_cc e, m))\<rparr>) \<subseteq> held dh \<union> set_option (e_cc e)"
    by (auto simp: held_def split: if_splits)
  then show ?thesis
    using current_less [OF assms] assms(1) by (auto simp: dh_inv_def ports_ok_def announced_def ccs_ok_def current_def)
qed

lemma dh_inv_createVlanFilterFsm:
  assumes "dh_inv dh"
  shows "dh_inv (snd (createVlanFilterFsm env port tp m s p ev' dh))"
proof -
  obtain en dh1 where g: "getOnuDeviceEntry env True dh = (en, dh1)" by fastforce
  have 1: "dh_inv dh1" by (rule dh_inv_getEntry [OF assms g])
  show ?thesis
  proof (cases en)
    case None
    with g 1 show ?thesis by (simp add: createVlanFilterFsm_def)
  next
    case (Some e)
    with g have "h_entry dh1 = Some e" using getEntry_entry by simp
    from dh_inv_setVlan [OF 1 this] show ?thesis
      using g Some by (auto simp: createVlanFilterFsm_def dh_inv_machines [OF machines_fireVlan] Let_def
        split: prod.splits if_splits)
  qed
qed

lemma dh_inv_addFlowItem:
  assumes "dh_inv dh" and "addFlowItemToUniPort env f port dh = Done (r, dh')"
  shows "dh_inv dh'"
proof -
  obtain q where q: "flowVlan f = Done q"
    using assms(2) by (auto simp: addFlowItemToUniPort_def panic_simps)
  show ?thesis
  proof (cases q)
    case (FlowVlan tp m st p)
    have "dh' = dh \<or> dh' = snd (createVlanFilterFsm env port tp m st p OmciVlanFilterDone dh)"
      using assms(2) q FlowVlan by (auto simp: addFlowItemToUniPort_def split: if_splits)
    then show ?thesis
      using assms(1) dh_inv_createVlanFilterFsm [OF assms(1)] by fastforce
  qed (use assms q in \<open>simp_all add: addFlowItemToUniPort_def\<close>)
qed

lemma dh_inv_addFlow:
  assumes "dh_inv dh" and "addFlow env f dh = Done (r, dh')"
  shows "dh_inv dh'"
proof -
  have "dh' = dh \<or> (\<exists>port. addFlowItemToUniPort env f port dh = Done (r, dh'))"
    using assms(2) by (auto simp: addFlow_def panic_simps split: if_splits option.splits)
  then show ?thesis
    using assms(1) dh_inv_addFlowItem [OF assms(1)] by blast
qed


lemma dh_inv_held:
  assumes "dh_inv dh" and "held dh' \<subseteq> {..< length (h_ccs dh)}"
    and "h_devState dh' = h_devState dh" "h_uniEntityMap dh' = h_uniEntityMap dh" "h_calls dh' = h_calls dh"
      "h_ccs dh' = h_ccs dh" "current dh' = current dh"
  shows "dh_inv dh'"
  using assms(1,2) by (simp add: dh_inv_def ports_ok_def announced_def ccs_ok_def assms(3-))

lemma dh_inv_tpDownload:
  "processInterAdapterTechProfileDownloadReqMessage runs body dh = Done (r, dh') \<Longrightarrow> dh_inv dh \<Longrightarrow> dh_inv dh'"
  by (auto simp: processInterAdapterTechProfileDownloadReqMessage_def panic_simps
      split: option.splits if_splits prod.splits bool.splits)

lemma dh_inv_tpDelete:
  "dh_inv dh \<Longrightarrow> dh_inv (snd (processInterAdapterDeleteGemPortReqMessage body dh))"
  "dh_inv dh \<Longrightarrow> dh_inv (snd (processInterAdapterDeleteTcontReqMessage runs body dh))"
  by (auto simp: processInterAdapterDeleteGemPortReqMessage_def processInterAdapterDeleteTcontReqMessage_def
      Let_def split: option.splits prod.splits bool.splits)

lemma dh_inv_reconcileTp:
  assumes "reconcileDeviceTechProf runs dh = Done dh'" and "dh_inv dh"
  shows "dh_inv dh'"
proof -
  obtain tp where tp: "h_tp dh = Some tp"
    using assms(1) by (cases "h_tp dh") (simp_all add: reconcileDeviceTechProf_def)
  show ?thesis
    using assms tp by (cases "PersUniTpPath (sOnuPersistentData tp)")
      (auto simp: reconcileDeviceTechProf_def panic_simps)
qed

lemma dh_inv_omci:
  assumes "processInterAdapterOMCIReqMessage env body dh = Done (r, dh')" and "dh_inv dh"
  shows "dh_inv dh'"
proof (cases body)
  case None
  then show ?thesis using assms by (simp add: processInterAdapterOMCIReqMessage_def)
next
  case (Some msg)
  obtain en dh1 where g: "getOnuDeviceEntry env True dh = (en, dh1)" by fastforce
  have 1: "dh_inv dh1" by (rule dh_inv_getEntry [OF assms(2) g])
  have "dh' = dh1 \<or> (\<exists>p cc. dh' = putCC p cc dh1)"
    using assms(1) g by (cases en) (auto simp: processInterAdapterOMCIReqMessage_def Some panic_simps
      case_prod_beta split: if_splits)
  then show ?thesis using 1 by auto
qed

lemma dh_inv_reboot: "dh_inv dh \<Longrightarrow> dh_inv (snd (rebootDevice env d dh))"
  by (auto simp: rebootDevice_def core_def sendMsgToOlt_def Let_def split: bool.splits)

lemma dh_inv_message: "dh_inv dh \<Longrightarrow> dh_inv (snd (sendMsgToOlt env msg dh))"
  by (simp add: sendMsgToOlt_def Let_def)

lemma dh_inv_verify:
  "verifyUniVlanConfigRequest env port dh = Done dh' \<Longrightarrow> dh_inv dh \<Longrightarrow> dh_inv dh'"
  using dh_inv_machines [OF machines_fireVlan]
  by (auto simp: verifyUniVlanConfigRequest_def split: option.splits if_splits)

lemma dh_inv_remove:
  assumes "dh_inv dh"
  shows "dh_inv (RemoveVlanFilterFsm_dh port dh)"
proof (rule dh_inv_held [OF assms])
  have "held (RemoveVlanFilterFsm_dh port dh) \<subseteq> held dh"
    by (auto simp: RemoveVlanFilterFsm_dh_def held_def split: if_splits)
  then show "held (RemoveVlanFilterFsm_dh port dh) \<subseteq> {..< length (h_ccs dh)}"
    using assms by (auto simp: dh_inv_def ccs_ok_def)
qed (simp_all add: RemoveVlanFilterFsm_dh_def current_def)

lemma dh_inv_ani:
  assumes "dh_inv dh" and "h_entry dh = Some e"
  shows "dh_inv (dh\<lparr>h_ani := Some (e_cc e, m)\<rparr>)"
proof (rule dh_inv_held [OF assms(1)])
  have "held (dh\<lparr>h_ani := Some (e_cc e, m)\<rparr>) \<subseteq> held dh \<union> set_option (e_cc e)"
    by (cases "e_cc e") (auto simp: held_def)
  then show "held (dh\<lparr>h_ani := Some (e_cc e, m)\<rparr>) \<subseteq> {..< length (h_ccs dh)}"
    using assms(1) current_less [OF assms] by (auto simp: dh_inv_def ccs_ok_def)
qed (simp_all add: current_def)

lemma dh_inv_disable: "dh_inv dh \<Longrightarrow> dh_inv (disableDevice env dh)"
  using dh_inv_startUniLock [of dh env True UniAdminStateDone]
  by (simp add: disableDevice_def Let_def)

lemma dh_inv_reEnable: "dh_inv dh \<Longrightarrow> dh_inv (reEnableDevice env dh)"
  by (simp add: reEnableDevice_def Let_def dh_inv_startUniLock)

lemma dh_inv_enable: "dh_inv dh \<Longrightarrow> dh_inv (enableUniPortStateUpdate dh)"
  by (simp add: enableUniPortStateUpdate_def dh_inv_setStates)

lemmas dh_inv_steps = dh_inv_fireDev dh_inv_createInterface_start dh_inv_updateInterface
  dh_inv_deviceProcStatusUpdate dh_inv_disable dh_inv_reEnable dh_inv_reboot dh_inv_verify dh_inv_remove
  dh_inv_tpDownload dh_inv_tpDelete dh_inv_reconcileTp dh_inv_omci dh_inv_enable dh_inv_machines
  dh_inv_addFlow dh_inv_ani dh_inv_message

lemma dh_inv_step: "dh_step dh dh' \<Longrightarrow> dh_inv dh \<Longrightarrow> dh_inv dh'"
proof (induction rule: dh_step.induct)
  case (iface_sync env dh r dh')
  then show ?case by (metis dh_inv_machines machines_createInterface_sync)
next
  case (reconcile_fails dh)
  then show ?case by simp
next
  case (scheduling dh ts)
  then show ?case by simp
qed (blast intro: dh_inv_steps)+

lemma dh_inv_reach: "dh_reach dh \<Longrightarrow> dh_inv dh"
proof (induction rule: dh_reach.induct)
  case (reach_new d b)
  show ?case by (simp add: newDeviceHandler_def dh_inv_defs)
next
  case (reach_dh_step dh dh')
  then show ?case by (blast intro: dh_inv_step)
qed

section \<open>Properties\<close>

definition example_device :: volthaDevice where
  "example_device = \<lparr>dev_Id = ''onu-1'', dev_Type = ''epononu'', dev_ParentId = ''olt-1'',
     dev_ParentPortNo = 5, dev_SerialNumber = ''EPON0001'', dev_ProxyDeviceId = ''olt-1'',
     dev_ProxyDeviceType = ''openolt'', dev_Root = True, dev_Vendor = [], dev_Model = [],
     dev_Reason = [], dev_ConnectStatus = Conn_REACHABLE\<rparr>"

lemma example_reach: "dh_reach (newDeviceHandler example_device)"
  using reach_new [where d = example_device and b = False] by (simp add: newDeviceHandler_def)

text \<open>C27: the state machine of the device never gets past its initialisation: in every reachable
  state it is new or initialised, and every event but the initialisation is refused and leaves
  the handler as it is, because the callbacks of the connected, up and down events cancel them.\<close>

theorem device_machine_only_initialises:
  assumes "dh_reach dh"
  shows "h_devState dh \<in> {devStNull, devStInit} \<and>
    (n = devEvDeviceInit \<or> (\<exists>err. fireDev env n dh = (Some err, dh)))"
proof -
  have "h_devState dh \<in> {devStNull, devStInit}"
    using dh_inv_reach [OF assms] by (simp add: dh_inv_def)
  then show ?thesis
    using fireDev_other [of dh n env] by blast
qed

theorem device_machine_only_initialises_witness:
  "\<forall>env. \<exists>err. fireDev env devEvGrpcConnected (newDeviceHandler example_device) =
     (Some err, newDeviceHandler example_device)"
  using device_machine_only_initialises [OF example_reach, of devEvGrpcConnected] by simp

text \<open>C13: whatever indications, device events, flows and requests arrive in whatever order, the UNI
  ports of a device are kept under their own port numbers and no port number is announced to the
  core twice.\<close>

theorem ports_announced_once:
  assumes "dh_reach dh"
  shows "distinct (map fst (h_uniEntityMap dh)) \<and>
    list_all (\<lambda>(k, p). portNo p = k) (h_uniEntityMap dh) \<and>
    distinct (announced dh) \<and> set (announced dh) \<subseteq> fst ` set (h_uniEntityMap dh)"
  using dh_inv_reach [OF assms] by (auto simp: dh_inv_def ports_ok_def list_all_iff)

theorem ports_announced_once_witness:
  "\<forall>env. distinct (announced (snd (fireDev env devEvDeviceInit (newDeviceHandler example_device))))"
  using ports_announced_once [OF reach_dh_step [OF example_reach fire_dev]] by blast

end
