(* ===== verification/Device_Props.thy ===== *)
theory Device_Props
  imports Device_Reach
begin

text \<open>
  Properties of the device handler's operations: what an ONU that comes up again does to the
  machines that exist, what an ONU that goes down leaves behind, and how the UNI ports are
  numbered.
\<close>

section \<open>Starting again\<close>

lemma nth_update_ne: "(xs[i := x]) ! j \<noteq> xs ! j \<Longrightarrow> j = i"
  by (metis nth_list_update_neq)

lemma ccs_putCC: "h_ccs (putCC p cc dh) ! j \<noteq> h_ccs dh ! j \<Longrightarrow> p = Some j"
  by (cases p) (auto simp: putCC_def dest: nth_update_ne)

lemma ccs_fireLock:
  assumes "lockFsm b dh = Some (p, m)" and "h_ccs (fireLock_dh env b n dh) ! j \<noteq> h_ccs dh ! j"
  shows "p = Some j"
proof -
  obtain s w where m: "m = (s, w)" by (cases m)
  obtain s' w' where l: "lockEvent (de_lib env) b n (s, w\<lparr>l_cc := getCC p dh (l_cc w)\<rparr>) = (s', w')"
    by fastforce
  have "h_ccs (setLockFsm b (p, s', w') dh) = h_ccs dh"
    by (simp add: setLockFsm_def)
  then show ?thesis
    using assms l ccs_putCC [of p "l_cc w'" "setLockFsm b (p, s', w') dh" j] by (simp add: fireLock_dh_def m)
qed

text \<open>What the first half of a start leaves behind.\<close>

lemma createInterface_start_outcome:
  assumes "createInterface_start env ind dh = (True, dh')" and "dh_inv dh"
  shows "current dh' = Some (length (h_ccs dh)) \<and> length (h_ccs dh') = Suc (length (h_ccs dh)) \<and>
    rxSchedulerMap (h_ccs dh' ! length (h_ccs dh)) = Map.empty \<and>
    lockFsm b dh' = lockFsm b dh \<and> h_deviceReason dh' = ''starting-openomci''"
proof -
  let ?dh1 = "notifyCore env (DeviceStateUpdate Conn_REACHABLE Oper_ACTIVATING) (dh\<lparr>h_pOnuIndication := Some ind\<rparr>)"
  have 1: "h_ccs ?dh1 = h_ccs dh" "lockFsm b ?dh1 = lockFsm b dh"
    by (simp_all add: notifyCore_def core_def lockFsm_def)
  obtain en dh2 where g: "getOnuDeviceEntry env True ?dh1 = (en, dh2)" by fastforce
  then obtain e where e: "en = Some e"
    using assms(1) by (cases en) (auto simp: createInterface_start_def Let_def)
  have 2: "h_ccs dh2 = h_ccs dh" "lockFsm b dh2 = lockFsm b dh"
    using g 1 by (auto simp: getOnuDeviceEntry_def Let_def lockFsm_def addOnuDeviceEntry_def
      setOnuDeviceEntry_def split: if_splits option.splits)
  obtain e' dh3 where s: "startEntry e dh2 = (e', dh3)" by fastforce
  have 3: "h_ccs dh3 = h_ccs dh @ [newOmciCC True (hdDeviceID (h_ids dh2)) (h_ids dh2)]"
    "e_cc e' = Some (length (h_ccs dh))" "lockFsm b dh3 = lockFsm b dh" "h_entry dh3 = Some e'"
    using s 2 by (auto simp: startEntry_def start_def Let_def lockFsm_def)
  let ?dh4 = "(notifyCore env (DeviceReasonUpdate ''starting-openomci'') dh3)\<lparr>h_deviceReason := ''starting-openomci''\<rparr>"
  let ?cc = "snd (performOmciTest (de_lib env) (newOmciTestRequest (hdDeviceID (h_ids ?dh4)) True True True) (getCC (e_cc e') ?dh4 (m_cc (snd (e_ul e')))))"
  have d: "dh' = putCC (e_cc e') ?cc ?dh4"
    using assms(1) g e s by (simp add: createInterface_start_def Let_def)
  have c: "rxSchedulerMap (snd (performOmciTest lib req cc)) = rxSchedulerMap cc" for lib req cc
    by (simp add: performOmciTest_channel)
  show ?thesis
    using 3 unfolding d by (cases b) (simp_all add: putCC_def notifyCore_def core_def current_def lockFsm_def getCC_def c newOmciCC_def)
qed

lemma getEntry_exists: "h_entry dh = Some e \<Longrightarrow> getOnuDeviceEntry env w dh = (Some e, dh)"
  by (simp add: getOnuDeviceEntry_def)

lemma createInterface_start_entry:
  assumes "h_entry dh = Some e"
  obtains dh' e' where "createInterface_start env ind dh = (True, dh')" "h_entry dh' = Some e'"
    "e_ul e' = e_ul e" "e_dl e' = e_dl e"
proof -
  let ?dh1 = "notifyCore env (DeviceStateUpdate Conn_REACHABLE Oper_ACTIVATING) (dh\<lparr>h_pOnuIndication := Some ind\<rparr>)"
  have g: "getOnuDeviceEntry env True ?dh1 = (Some e, ?dh1)"
    using assms by (simp add: getOnuDeviceEntry_def notifyCore_def core_def)
  obtain e' dh3 where s: "startEntry e ?dh1 = (e', dh3)" by fastforce
  let ?dh4 = "(notifyCore env (DeviceReasonUpdate ''starting-openomci'') dh3)\<lparr>h_deviceReason := ''starting-openomci''\<rparr>"
  let ?cc = "snd (performOmciTest (de_lib env) (newOmciTestRequest (hdDeviceID (h_ids ?dh4)) True True True) (getCC (e_cc e') ?dh4 (m_cc (snd (e_ul e')))))"
  have "e_ul e' = e_ul e" "e_dl e' = e_dl e" "h_entry dh3 = Some e'"
    using s by (auto simp: startEntry_def Let_def)
  moreover have "createInterface_start env ind dh = (True, putCC (e_cc e') ?cc ?dh4)"
    using g s by (simp add: createInterface_start_def Let_def)
  ultimately show ?thesis
    using that [of "putCC (e_cc e') ?cc ?dh4" e']
    by (cases "e_cc e'") (simp_all add: putCC_def notifyCore_def core_def)
qed

lemma createInterface_start_tp:
  "h_entry dh = Some e \<Longrightarrow> h_tp (snd (createInterface_start env ind dh)) = h_tp dh"
  by (auto simp: createInterface_start_def Let_def getOnuDeviceEntry_def notifyCore_def core_def startEntry_def
      putCC_def split: option.splits)

definition example_env :: dhEnv where
  "example_env = \<lparr>de_lib = permissive_lib, de_mib = Mib_Upload.example_env, de_coreOk = (\<lambda>_. True),
     de_oltOk = (\<lambda>_. True), de_entryInTime = False, de_templates = Map.empty, de_tpStore = True,
     de_onuStore = True, de_acceptIncrementalEvto = True\<rparr>"

definition example_ind :: onuIndication where
  "example_ind = \<lparr>IntfId = 1, OnuId = 3, OperState = ''up'', AdminStateS = ''up''\<rparr>"

text \<open>A device that was adopted, came up, and got its unlock machine.\<close>

definition example_adopted :: deviceHandler where
  "example_adopted = adoptOrReconcileDevice example_env (newDeviceHandler example_device)"

definition example_up :: deviceHandler where
  "example_up = snd (createInterface_start example_env example_ind example_adopted)"

definition example_unlocked :: deviceHandler where
  "example_unlocked = reEnableDevice example_env example_up"

lemma example_adopted_reach: "dh_reach example_adopted"
  using reach_dh_step [OF example_reach fire_dev] example_reach
  by (simp add: example_adopted_def adoptOrReconcileDevice_def)

lemma example_up_reach: "dh_reach example_up"
  unfolding example_up_def by (rule reach_dh_step [OF example_adopted_reach iface_start])

lemma example_unlocked_reach: "dh_reach example_unlocked"
  unfolding example_unlocked_def by (rule reach_dh_step [OF example_up_reach reenable])

lemmas example_defs = example_env_def example_device_def example_ind_def newDeviceHandler_def
  adoptOrReconcileDevice_def doStateInit_def postInit_def notifyCore_def core_def addOnuDeviceEntry_def
  setOnuDeviceEntry_def dh_go_def

lemma example_adopted_parts:
  "h_entry example_adopted \<noteq> None \<and> h_lock example_adopted = None \<and> h_unlock example_adopted = None \<and>
   h_crash example_adopted = None \<and> h_tp example_adopted = Some (newOnuUniTechProf True True) \<and>
   \<not> h_reconciling example_adopted \<and> h_uniEntityMap example_adopted = []"
  unfolding example_adopted_def adoptOrReconcileDevice_def
  by (simp add: fireDev_init example_defs Let_def)

lemma runUniLock_kept:
  assumes "lockFsm c dh = Some m" and "h_entry dh = Some e"
  shows "lockFsm c (runUniLockFsm env b dh) \<noteq> None \<and> h_entry (runUniLockFsm env b dh) \<noteq> None"
  using machines_runUniLock [of dh env b] assms by (cases c) (auto simp: frame_simps lockFsm_def)

lemma startUniLock_exists:
  assumes "h_entry dh = Some e"
  shows "lockFsm b (startUniLock env b ev' dh) \<noteq> None \<and> h_entry (startUniLock env b ev' dh) \<noteq> None"
proof -
  have s: "lockFsm b (setLockFsm b x d) = Some x" "h_entry (setLockFsm b x d) = h_entry d" for x d
    by (simp_all add: lockFsm_def setLockFsm_def)
  show ?thesis
  proof (cases "lockFsm b dh")
    case None
    then show ?thesis
      using runUniLock_kept [OF s(1), unfolded s(2), OF assms]
      by (simp add: startUniLock_def createUniLockFsm_def getEntry_exists [OF assms])
  next
    case (Some m)
    obtain p st w where "m = (p, st, w)" by (cases m)
    then show ?thesis
      using Some runUniLock_kept [OF s(1), unfolded s(2), OF assms]
      by (simp add: startUniLock_def)
  qed
qed

lemma example_up_entry: "h_entry example_up \<noteq> None"
proof -
  obtain e where "h_entry example_adopted = Some e" using example_adopted_parts by blast
  from createInterface_start_entry [OF this, of example_env example_ind] show ?thesis
    by (metis example_up_def option.distinct(1) snd_conv)
qed

lemma example_unlocked_parts: "lockFsm False example_unlocked \<noteq> None \<and> h_entry example_unlocked \<noteq> None"
proof -
  let ?dh = "(snd (core example_env (DeviceReasonUpdate ''initial-mib-downloaded'')
      (snd (core example_env (DeviceStateUpdate Conn_REACHABLE Oper_ACTIVE) example_up))))
      \<lparr>h_deviceReason := ''initial-mib-downloaded''\<rparr>"
  obtain e where "h_entry ?dh = Some e" using example_up_entry by (auto simp: core_def)
  from startUniLock_exists [OF this, of False example_env UniAdminStateDone] show ?thesis
    by (simp add: example_unlocked_def reEnableDevice_def Let_def)
qed

text \<open>C19: when an ONU comes up again, the device entry gets a new channel, on which nothing is
  registered, while an existing lock or unlock machine keeps the channel it was made with: all it
  ever does changes its own channel only, and every message of the ONU is delivered to the new
  channel only. What the machine asks for can no longer be answered.\<close>

theorem restart_strands_machines:
  assumes "dh_reach dh" and "lockFsm b dh = Some (p, m)"
    and "createInterface_start env ind dh = (True, dh')"
  shows "current dh' = Some (length (h_ccs dh)) \<and> p \<noteq> current dh' \<and> lockFsm b dh' = Some (p, m) \<and>
    rxSchedulerMap (h_ccs dh' ! length (h_ccs dh)) = Map.empty \<and>
    (\<forall>env n i. h_ccs (fireLock_dh env b n dh') ! i \<noteq> h_ccs dh' ! i \<longrightarrow> p = Some i) \<and>
    (\<forall>env body r dh2 i. processInterAdapterOMCIReqMessage env body dh' = Done (r, dh2) \<longrightarrow>
       h_ccs dh2 ! i \<noteq> h_ccs dh' ! i \<longrightarrow> current dh' = Some i)"
proof -
  have inv: "dh_inv dh" by (rule dh_inv_reach [OF assms(1)])
  note out = createInterface_start_outcome [OF assms(3) inv, of b]
  then have l: "lockFsm b dh' = Some (p, m)" using assms(2) by simp
  have "p \<noteq> Some (length (h_ccs dh))"
  proof
    assume "p = Some (length (h_ccs dh))"
    then have "length (h_ccs dh) \<in> held dh"
      using assms(2) by (cases b) (simp_all add: held_def lockFsm_def)
    then show False using inv by (auto simp: dh_inv_def ccs_ok_def)
  qed
  moreover have "current dh' = Some i"
    if "processInterAdapterOMCIReqMessage env body dh' = Done (r, dh2)" "h_ccs dh2 ! i \<noteq> h_ccs dh' ! i"
    for env body r dh2 i
  proof -
    obtain e where e: "h_entry dh' = Some e" "e_cc e = current dh'"
      using out by (cases "h_entry dh'") (auto simp: current_def)
    show ?thesis
      using that out ccs_putCC [of "current dh'" _ dh' i] e
      by (cases body) (auto simp: processInterAdapterOMCIReqMessage_def getEntry_exists case_prod_beta split: if_splits)
  qed
  ultimately show ?thesis
    using out l ccs_fireLock [OF l] by auto
qed

theorem restart_strands_machines_witness:
  "\<exists>p m dh'. lockFsm False example_unlocked = Some (p, m) \<and>
     createInterface_start example_env example_ind example_unlocked = (True, dh') \<and>
     p \<noteq> current dh' \<and> lockFsm False dh' = Some (p, m)"
proof -
  obtain p m e where 1: "lockFsm False example_unlocked = Some (p, m)" "h_entry example_unlocked = Some e"
    using example_unlocked_parts by auto
  obtain dh' where 2: "createInterface_start example_env example_ind example_unlocked = (True, dh')"
    by (rule createInterface_start_entry [OF 1(2)])
  show ?thesis
    using restart_strands_machines [OF example_unlocked_reach 1(1) 2] 1 2 by blast
qed

text \<open>C20: an up indication that arrives while the MIB synchronisation of the device is not
  disabled, say a repeated one, fails, but not without effect: the device gets a new channel that
  knows none of the outstanding requests and the reason \<open>starting-openomci\<close>, while the
  synchronisation stays in its state. The OLT adapter is told that the indication succeeded.\<close>

theorem repeated_up_indication:
  assumes "dh_reach dh" and "h_entry dh = Some e" and "fst (e_ul e) \<noteq> ulStDisabled"
    and "OperState ind = ''up''"
  shows "\<exists>dh' e'. createInterface env id ind dh = Done (Some WrongStateOfMibSyncFsm, dh') \<and>
    processInterAdapterONUIndReqMessage env id (Some ind) dh = Done (None, dh') \<and>
    h_entry dh' = Some e' \<and> e_ul e' = e_ul e \<and> e_dl e' = e_dl e \<and>
    current dh' = Some (length (h_ccs dh)) \<and> current dh' \<noteq> e_cc e \<and>
    rxSchedulerMap (h_ccs dh' ! length (h_ccs dh)) = Map.empty \<and>
    h_deviceReason dh' = ''starting-openomci''"
proof -
  have inv: "dh_inv dh" by (rule dh_inv_reach [OF assms(1)])
  obtain dh' e' where s: "createInterface_start env ind dh = (True, dh')" "h_entry dh' = Some e'"
      "e_ul e' = e_ul e" "e_dl e' = e_dl e"
    by (rule createInterface_start_entry [OF assms(2)])
  then have c: "createInterface env id ind dh = Done (Some WrongStateOfMibSyncFsm, dh')"
    using assms(3) by (simp add: createInterface_def createInterface_sync_def)
  have "e_cc e \<noteq> Some (length (h_ccs dh))"
    using current_less [OF inv assms(2)] by auto
  with c s(2-4) createInterface_start_outcome [OF s(1) inv] show ?thesis
    by (auto simp: processInterAdapterONUIndReqMessage_def assms(4))
qed

text \<open>A device whose synchronisation has been started.\<close>

definition example_syncing :: deviceHandler where
  "example_syncing = (case createInterface_sync example_env example_up of Done (_, dh) \<Rightarrow> dh | Panic _ \<Rightarrow> example_up)"

lemma fireUl_state: "fst (fireUl lib env n s) = next_state ulEvents n (fst s)"
  by (cases s) (simp add: fireUl_def runEvent_def Event_enter_only_state)

lemma fireUl_dh_entry:
  "\<exists>e'. h_entry (fireUl_dh env n e dh) = Some e' \<and> fst (e_ul e') = next_state ulEvents n (fst (e_ul e)) \<and>
     e_cc e' = e_cc e"
proof -
  obtain st w where f: "fireUl (de_lib env) (de_mib env) n (loadUl e dh) = (st, w)" by fastforce
  then have "st = next_state ulEvents n (fst (e_ul e))"
    using fireUl_state [of "de_lib env" "de_mib env" n "loadUl e dh"] by (simp add: loadUl_def case_prod_beta)
  with f show ?thesis
    by (cases "e_cc e") (simp_all add: fireUl_dh_def putCC_def)
qed

text \<open>What a start of the synchronisation does.\<close>

lemma createInterface_sync_starts:
  assumes "h_entry dh = Some e" and "fst (e_ul e) = ulStDisabled"
  shows "\<exists>dh' e'. createInterface_sync env dh = Done (None, dh') \<and> h_entry dh' = Some e' \<and>
    fst (e_ul e') = ulStResettingMib \<and> machines_step dh dh'"
proof -
  have t: "canFire ulEvents ulEvStart ulStDisabled" "canFire ulEvents ulEvResetMib ulStStarting"
    "next_state ulEvents ulEvStart ulStDisabled = ulStStarting"
    "next_state ulEvents ulEvResetMib ulStStarting = ulStResettingMib"
    by (simp_all add: canFire_def next_state_def ulEvents_def NewFSM_def add_desc_def)
  obtain e1 where 1: "h_entry (fireUl_dh env ulEvStart e dh) = Some e1" "fst (e_ul e1) = ulStStarting"
    using fireUl_dh_entry [of env ulEvStart e dh] assms(2) t by auto
  obtain e2 where 2: "h_entry (fireUl_dh env ulEvResetMib e1 (fireUl_dh env ulEvStart e dh)) = Some e2"
      "fst (e_ul e2) = ulStResettingMib"
    using fireUl_dh_entry [of env ulEvResetMib e1] 1 t by auto
  have c: "createInterface_sync env dh = Done (None, fireUl_dh env ulEvResetMib e1 (fireUl_dh env ulEvStart e dh))"
    using assms 1 t by (simp add: createInterface_sync_def Let_def)
  show ?thesis
    using c 2 machines_createInterface_sync [OF c] by blast
qed

lemma example_up_disabled: "\<exists>e. h_entry example_up = Some e \<and> fst (e_ul e) = ulStDisabled"
proof -
  obtain e where e: "h_entry example_adopted = Some e" using example_adopted_parts by blast
  have "fst (e_ul e) = ulStDisabled"
    using e unfolding example_adopted_def adoptOrReconcileDevice_def
    by (auto simp: fireDev_init example_defs Let_def newEntry_def newMibSync_def)
  with createInterface_start_entry [OF e, of example_env example_ind] show ?thesis
    by (metis example_up_def snd_conv)
qed

lemma example_syncing_parts:
  "dh_reach example_syncing \<and> (\<exists>e. h_entry example_syncing = Some e \<and> fst (e_ul e) = ulStResettingMib)"
proof -
  obtain dh' e' where d: "createInterface_sync example_env example_up = Done (None, dh')"
      "h_entry dh' = Some e'" "fst (e_ul e') = ulStResettingMib"
    using example_up_disabled createInterface_sync_starts [of example_up _ example_env] by blast
  then show ?thesis
    using reach_dh_step [OF example_up_reach iface_sync [OF d(1)]] by (simp add: example_syncing_def)
qed

theorem repeated_up_indication_witness:
  "\<exists>dh'. createInterface example_env id example_ind example_syncing = Done (Some WrongStateOfMibSyncFsm, dh') \<and>
     processInterAdapterONUIndReqMessage example_env id (Some example_ind) example_syncing = Done (None, dh')"
proof -
  obtain e where e: "h_entry example_syncing = Some e" "fst (e_ul e) = ulStResettingMib"
    using example_syncing_parts by blast
  have "OperState example_ind = ''up''" by (simp add: example_ind_def)
  with repeated_up_indication [of example_syncing e example_ind example_env] e example_syncing_parts
  show ?thesis by (metis ulState.distinct)
qed

section \<open>Going down\<close>

lemma putCC_simps [simp]:
  "h_lock (putCC p cc dh) = h_lock dh" "h_unlock (putCC p cc dh) = h_unlock dh"
  "h_ani (putCC p cc dh) = h_ani dh" "h_vlans (putCC p cc dh) = h_vlans dh" "h_tp (putCC p cc dh) = h_tp dh"
  "h_entry (putCC p cc dh) = h_entry dh"
  by (cases p; simp add: putCC_def)+

definition lockStopped :: "bool \<Rightarrow> deviceHandler \<Rightarrow> bool" where
  "lockStopped b dh \<longleftrightarrow>
     (case lockFsm b dh of None \<Rightarrow> True | Some (p, s, w) \<Rightarrow> s \<in> {uniStDisabled, uniStResetting})"

definition aniStopped :: "deviceHandler \<Rightarrow> bool" where
  "aniStopped dh \<longleftrightarrow>
     (case h_ani dh of None \<Rightarrow> True | Some (p, s, w) \<Rightarrow> s \<in> {aniStDisabled, aniStResetting})"

definition uniStopped :: "u8 \<Rightarrow> deviceHandler \<Rightarrow> bool" where
  "uniStopped u dh \<longleftrightarrow>
     (case h_vlans dh u of None \<Rightarrow> True | Some (p, s, w) \<Rightarrow> s \<in> {vlanStDisabled, vlanStResetting}) \<and>
     (case h_tp dh of None \<Rightarrow> True | Some tp \<Rightarrow> \<forall>i. \<not> getTechProfileDone u i tp)"

lemma runEvent_state: "fst (runEvent events en n s) = next_state events n (fst s)"
  by (cases s) (simp add: runEvent_def Event_enter_only_state)

lemma fireLock_stops: "lockStopped b (fireLock_dh env b uniEvReset dh)"
proof (cases "lockFsm b dh")
  case (Some m)
  obtain p s w where m: "m = (p, s, w)" by (cases m)
  obtain s' w' where l: "lockEvent (de_lib env) b uniEvReset (s, w\<lparr>l_cc := getCC p dh (l_cc w)\<rparr>) = (s', w')"
    by fastforce
  then have "s' = next_state (lockEvents b) uniEvReset s"
    using runEvent_state [of "lockEvents b" "lock_enter (de_lib env)" uniEvReset "(s, w\<lparr>l_cc := getCC p dh (l_cc w)\<rparr>)"]
    by (simp add: lockEvent_def)
  then have "s' \<in> {uniStDisabled, uniStResetting}"
    using lock.reset_only_enters_resetting [of s] unlock.reset_only_enters_resetting [of s] by (cases b) auto
  then show ?thesis
    using l by (simp add: lockStopped_def fireLock_dh_def Some m) (simp add: lockFsm_def setLockFsm_def)
qed (simp add: lockStopped_def fireLock_dh_def)

lemma fireLock_other: "lockFsm (\<not> b) (fireLock_dh env b n dh) = lockFsm (\<not> b) dh"
  by (auto simp: fireLock_dh_def split: option.splits prod.splits) (auto simp: lockFsm_def setLockFsm_def)

lemma fireLock_keeps [simp]:
  "h_ani (fireLock_dh env b n dh) = h_ani dh" "h_vlans (fireLock_dh env b n dh) = h_vlans dh"
  "h_tp (fireLock_dh env b n dh) = h_tp dh" "h_entry (fireLock_dh env b n dh) = h_entry dh"
  by (auto simp: fireLock_dh_def setLockFsm_def split: option.splits prod.splits)

lemma fireAni_stops: "aniStopped (fireAni_dh env aniEvReset dh)"
proof (cases "h_ani dh")
  case (Some m)
  obtain p s w where m: "m = (p, s, w)" by (cases m)
  obtain s' w' where l: "fireAni (de_lib env) aniEvReset (s, w\<lparr>a_cc := getCC p dh (a_cc w)\<rparr>) = (s', w')"
    by fastforce
  then have "s' = next_state aniEvents aniEvReset s"
    using runEvent_state [of aniEvents "ani_enter (de_lib env)" aniEvReset "(s, w\<lparr>a_cc := getCC p dh (a_cc w)\<rparr>)"]
    by (simp add: fireAni_def)
  then have "s' \<in> {aniStDisabled, aniStResetting}"
    using ani.reset_only_enters_resetting [of s] by auto
  then show ?thesis
    using l by (simp add: aniStopped_def fireAni_dh_def Some m)
qed (simp add: aniStopped_def fireAni_dh_def)

lemma fireAni_keeps [simp]:
  "h_lock (fireAni_dh env n dh) = h_lock dh" "h_unlock (fireAni_dh env n dh) = h_unlock dh"
  "h_vlans (fireAni_dh env n dh) = h_vlans dh" "h_tp (fireAni_dh env n dh) = h_tp dh"
  "h_entry (fireAni_dh env n dh) = h_entry dh"
  by (auto simp: fireAni_dh_def split: option.splits prod.splits)

lemma fireVlan_keeps [simp]:
  "h_lock (fireVlan_dh env n u dh) = h_lock dh" "h_unlock (fireVlan_dh env n u dh) = h_unlock dh"
  "h_ani (fireVlan_dh env n u dh) = h_ani dh" "h_tp (fireVlan_dh env n u dh) = h_tp dh"
  "h_entry (fireVlan_dh env n u dh) = h_entry dh"
  by (auto simp: fireVlan_dh_def split: option.splits prod.splits)

lemma fireVlan_vlans:
  "\<exists>w'. h_vlans (fireVlan_dh env n u dh) = (case h_vlans dh u of None \<Rightarrow> h_vlans dh
     | Some (p, s, w) \<Rightarrow> (h_vlans dh)(u \<mapsto> (p, next_state vlanEvents n s, w')))"
proof (cases "h_vlans dh u")
  case (Some m)
  obtain p s w where m: "m = (p, s, w)" by (cases m)
  obtain s' w' where l: "fireVlan (de_lib env) n (s, w\<lparr>v_cc := getCC p dh (v_cc w)\<rparr>) = (s', w')" by fastforce
  then have "s' = next_state vlanEvents n s"
    using runEvent_state [of vlanEvents "vlan_enter (de_lib env)" n "(s, w\<lparr>v_cc := getCC p dh (v_cc w)\<rparr>)"]
    by (simp add: fireVlan_def)
  with l Some show ?thesis by (auto simp: fireVlan_dh_def m)
qed (simp add: fireVlan_dh_def)

lemma setConfigDone_idle:
  "\<not> getTechProfileDone u i (setConfigDone u False tp)"
  "\<not> getTechProfileDone v i tp \<Longrightarrow> \<not> getTechProfileDone v i (setConfigDone u False tp)"
  by (auto simp: getTechProfileDone_def setConfigDone_def setIndication_def split: option.splits if_splits)

lemma resetUni_stops:
  "uniStopped (uniID p) (resetUni env p dh)"
  "uniStopped v dh \<Longrightarrow> uniStopped v (resetUni env p dh)"
proof -
  let ?dh1 = "dh\<lparr>h_tp := map_option (setConfigDone (uniID p) False) (h_tp dh)\<rparr>"
  have vd: "h_vlans ?dh1 = h_vlans dh" by simp
  obtain w' where v: "h_vlans (fireVlan_dh env vlanEvReset (uniID p) ?dh1) = (case h_vlans dh (uniID p) of
      None \<Rightarrow> h_vlans dh
    | Some (q, s, w) \<Rightarrow> (h_vlans dh)(uniID p \<mapsto> (q, next_state vlanEvents vlanEvReset s, w')))"
    using fireVlan_vlans [of env vlanEvReset "uniID p" ?dh1] unfolding vd by blast
  have r: "next_state vlanEvents vlanEvReset s \<in> {vlanStDisabled, vlanStResetting}" for s
    using vlan.reset_only_enters_resetting [of s] by auto
  show "uniStopped (uniID p) (resetUni env p dh)"
    using v r by (auto simp: uniStopped_def resetUni_def setConfigDone_idle split: option.splits prod.splits)
  show "uniStopped v (resetUni env p dh)" if "uniStopped v dh"
    using that v r by (auto simp: uniStopped_def resetUni_def setConfigDone_idle split: option.splits prod.splits if_splits)
qed

lemma fold_resetUni_stops:
  "(\<forall>p \<in> set ps. uniStopped (uniID p) (fold (resetUni env) ps dh)) \<and>
   (\<forall>v. uniStopped v dh \<longrightarrow> uniStopped v (fold (resetUni env) ps dh))"
proof (induction ps arbitrary: dh)
  case (Cons p ps)
  show ?case
    using Cons.IH [of "resetUni env p dh"] resetUni_stops by simp
qed simp

lemma fold_resetUni_keeps [simp]:
  "h_lock (fold (resetUni env) ps dh) = h_lock dh" "h_unlock (fold (resetUni env) ps dh) = h_unlock dh"
  "h_ani (fold (resetUni env) ps dh) = h_ani dh" "h_entry (fold (resetUni env) ps dh) = h_entry dh"
  by (induction ps arbitrary: dh) (simp_all add: resetUni_def)

lemma resetMachines_stops:
  assumes "h_tp dh \<noteq> None"
  shows "lockStopped b (resetMachines env dh) \<and> aniStopped (resetMachines env dh) \<and>
    (\<forall>(k, p) \<in> set (h_uniEntityMap dh). uniStopped (uniID p) (resetMachines env dh)) \<and>
    h_entry (resetMachines env dh) = h_entry dh"
proof -
  let ?dh1 = "fireLock_dh env True uniEvReset (fireLock_dh env False uniEvReset dh)"
  have 1: "lockStopped True ?dh1" by (rule fireLock_stops)
  have 2: "lockStopped False ?dh1"
    using fireLock_stops [of False env dh] fireLock_other [of True env uniEvReset "fireLock_dh env False uniEvReset dh"]
    by (simp add: lockStopped_def)
  have 3: "h_uniEntityMap ?dh1 = h_uniEntityMap dh"
    using frameD(7) [OF machines_step_trans [OF machines_fireLock machines_fireLock]] by blast
  have 4: "resetMachines env dh = fold (resetUni env) (map snd (h_uniEntityMap dh)) (fireAni_dh env aniEvReset ?dh1)"
    using assms 3 by (auto simp: resetMachines_def Let_def)
  have "lockStopped b (resetMachines env dh)"
    using 1 2 unfolding 4 by (cases b) (simp_all add: lockStopped_def lockFsm_def)
  moreover have "aniStopped (resetMachines env dh)"
    using fireAni_stops [of env ?dh1] unfolding 4 by (simp add: aniStopped_def)
  moreover have "\<forall>(k, p) \<in> set (h_uniEntityMap dh). uniStopped (uniID p) (resetMachines env dh)"
    using fold_resetUni_stops [of "map snd (h_uniEntityMap dh)" env "fireAni_dh env aniEvReset ?dh1"]
    unfolding 4 by force
  moreover have "h_entry (resetMachines env dh) = h_entry dh"
    unfolding 4 by simp
  ultimately show ?thesis by blast
qed

text \<open>C18: a down indication for a device that is past its MIB download, if the core takes the
  news, leaves every lock, unlock and ANI machine and the VLAN machine of every UNI port disabled
  or on its way there, no UNI port with a completed technology profile, and the device entry
  stopped, reports exactly the reason and then the state, and is without effect when repeated.\<close>

theorem down_indication_stops:
  assumes "h_entry dh = Some e" and "h_tp dh \<noteq> None"
    and "h_deviceReason dh \<notin> {''stopping-openomci'', ''starting-openomci'', ''discovery-mibsync-complete''}"
    and "updateInterface env dh = (None, dh')"
  shows "lockStopped True dh' \<and> lockStopped False dh' \<and> aniStopped dh' \<and>
    list_all (\<lambda>(k, p). uniStopped (uniID p) dh') (h_uniEntityMap dh) \<and>
    h_entry dh' = Some (e\<lparr>e_started := False\<rparr>) \<and> h_deviceReason dh' = ''stopping-openomci'' \<and>
    h_calls dh' = h_calls dh @ [DeviceReasonUpdate ''stopping-openomci'',
      DeviceStateUpdate Conn_UNREACHABLE Oper_DISCOVERED] \<and>
    updateInterface env' dh' = (None, dh')"
proof -
  let ?dh1 = "resetMachines env dh"
  let ?dh2 = "disableUniPortStateUpdate (stopEntry ?dh1)"
  have sm: "stopMachines env e dh = ?dh1"
    using assms(3) by (simp add: stopMachines_def)
  have d: "dh' = ?dh2\<lparr>h_deviceReason := ''stopping-openomci'', h_calls := h_calls ?dh2 @
      [DeviceReasonUpdate ''stopping-openomci'', DeviceStateUpdate Conn_UNREACHABLE Oper_DISCOVERED]\<rparr>"
    using assms(3,4) by (auto simp: updateInterface_def getEntry_exists [OF assms(1)] sm core_def Let_def
      split: bool.splits if_splits)
  note r = resetMachines_stops [OF assms(2), of _ env]
  have k: "h_lock ?dh2 = h_lock ?dh1" "h_unlock ?dh2 = h_unlock ?dh1" "h_ani ?dh2 = h_ani ?dh1"
    "h_vlans ?dh2 = h_vlans ?dh1" "h_tp ?dh2 = h_tp ?dh1" "h_calls ?dh2 = h_calls dh"
    "h_entry ?dh2 = Some (e\<lparr>e_started := False\<rparr>)"
    using frameD(9) [OF machines_resetMachines [of dh env]] r assms(1)
    by (simp_all add: disableUniPortStateUpdate_def stopEntry_def dh_go_def)
  have stopped: "lockStopped b dh' = lockStopped b ?dh1" "aniStopped dh' = aniStopped ?dh1"
    "uniStopped u dh' = uniStopped u ?dh1" for b u
    unfolding d by (simp_all add: lockStopped_def lockFsm_def aniStopped_def uniStopped_def k)
  show ?thesis
    using r k unfolding stopped by (auto simp: d list_all_iff updateInterface_def)
qed

lemma startUniLock_frame:
  assumes "h_entry dh = Some e"
  shows "frame (startUniLock env b ev' dh) = frame dh \<and> (h_tp (startUniLock env b ev' dh) = None \<longleftrightarrow> h_tp dh = None)"
proof -
  have s: "frame (setLockFsm b x dh) = frame dh" "h_tp (setLockFsm b x dh) = h_tp dh" for x
    by (simp_all add: setLockFsm_def frame_def)
  have r: "frame (runUniLockFsm env b d) = frame d" "h_tp (runUniLockFsm env b d) = None \<longleftrightarrow> h_tp d = None" for d
    using machines_runUniLock [of d env b] by (simp_all add: machines_step_def pointers_def)
  show ?thesis
    by (cases "lockFsm b dh")
      (auto simp: startUniLock_def createUniLockFsm_def getEntry_exists [OF assms] r s simp del: not_None_eq)
qed

lemma example_unlocked_state:
  "h_tp example_unlocked \<noteq> None \<and> h_deviceReason example_unlocked = ''initial-mib-downloaded''"
proof -
  obtain e where "h_entry example_adopted = Some e" using example_adopted_parts by blast
  from createInterface_start_tp [OF this] have t: "h_tp example_up = h_tp example_adopted"
    by (simp add: example_up_def)
  let ?dh = "(snd (core example_env (DeviceReasonUpdate ''initial-mib-downloaded'')
      (snd (core example_env (DeviceStateUpdate Conn_REACHABLE Oper_ACTIVE) example_up))))
      \<lparr>h_deviceReason := ''initial-mib-downloaded''\<rparr>"
  obtain e' where "h_entry ?dh = Some e'" using example_up_entry by (auto simp: core_def)
  from startUniLock_frame [OF this, of example_env False UniAdminStateDone] t show ?thesis
    using example_adopted_parts
    by (simp add: example_unlocked_def reEnableDevice_def Let_def frame_def core_def)
qed

theorem down_indication_stops_witness:
  "\<exists>dh'. updateInterface example_env example_unlocked = (None, dh') \<and> lockStopped False dh' \<and>
     h_deviceReason dh' = ''stopping-openomci''"
proof -
  obtain e where e: "h_entry example_unlocked = Some e" using example_unlocked_parts by blast
  have "fst (updateInterface example_env example_unlocked) = None"
    by (simp add: updateInterface_def getEntry_exists [OF e] core_def Let_def example_env_def)
  then obtain dh' where u: "updateInterface example_env example_unlocked = (None, dh')"
    by (metis prod.collapse)
  show ?thesis
    using down_indication_stops [OF e _ _ u] example_unlocked_state u by simp
qed

end
