(* ===== verification/Uni_Numbering.thy ===== *)
theory Uni_Numbering
  imports Device_Props
begin

text \<open>
  The UNI ports the device handler creates from the MIB of the ONU: their numbers and order
  (\<open>processMibDatabaseSyncEvent\<close>, \<open>addUniPort\<close> in \<open>device_handler.go\<close>), and what the
  handler reports to the core while an ONU starts.
\<close>

section \<open>Numbers\<close>

lemma port_uni_mkUniPortNum:
  assumes "unat uni < 2 ^ 4"
  shows "port_uni (mkUniPortNum intf onu uni) = uni"
  by (rule bit_word_eqI)
    (auto simp only: port_uni_def mkUniPortNum_def platform_consts bit_iffs bit_mask_iff,
     use unat_less_bits_clear [OF assms] in \<open>auto intro: not_less [THEN iffD1] ccontr\<close>)

lemma port_uni_indicated: "n < 16 \<Longrightarrow> port_uni (indicatedPort dh (of_nat n)) = of_nat n"
proof -
  assume n: "n < 16"
  then have u: "ucast (of_nat n :: u8) = (of_nat n :: u32)"
    by (intro word_eq_iff_unsigned [THEN iffD2]) (simp add: unsigned_ucast_eq unsigned_of_nat take_bit_nat_eq_self)
  moreover have "unat (of_nat n :: u32) < 2 ^ 4"
    using n by (simp add: unsigned_of_nat take_bit_nat_eq_self)
  ultimately show ?thesis
    by (simp add: indicatedPort_def port_uni_mkUniPortNum split: option.splits)
qed

lemma indicatedPort_inj:
  assumes "indicatedPort dh (of_nat m) = indicatedPort dh (of_nat n)" and "m < 16" and "n < 16"
  shows "m = n"
proof -
  have "(of_nat m :: u32) = of_nat n"
    using arg_cong [OF assms(1), of port_uni] assms(2,3) by (simp add: port_uni_indicated)
  then have "unat (of_nat m :: u32) = unat (of_nat n :: u32)" by simp
  then show ?thesis
    using assms(2,3) by (simp add: unsigned_of_nat take_bit_nat_eq_self)
qed

text \<open>A port by its number, its UNI, its managed entity and its type.\<close>

definition portRow :: "u32 \<times> onuUniPort \<Rightarrow> u32 \<times> u8 \<times> u16 \<times> uniPortType" where
  "portRow kp = (fst kp, uniID (snd kp), entityID (snd kp), portType (snd kp))"

definition portRows :: "deviceHandler \<Rightarrow> uniPortType \<Rightarrow> nat \<Rightarrow> u16 list \<Rightarrow> (u32 \<times> u8 \<times> u16 \<times> uniPortType) list" where
  "portRows dh ty i keys =
     map (\<lambda>j. (indicatedPort dh (of_nat (i + j)), of_nat (i + j), keys ! j, ty)) [0..<length keys]"

lemma portRows_Cons:
  "portRows dh ty i (k # keys) = (indicatedPort dh (of_nat i), of_nat i, k, ty) # portRows dh ty (Suc i) keys"
proof -
  have "[0..<length (k # keys)] = 0 # map Suc [0..<length keys]"
    by (simp add: map_Suc_upt upt_conv_Cons del: upt_Suc)
  then show ?thesis by (simp add: portRows_def algebra_simps)
qed

text \<open>Only the first \<open>i\<close> UNIs have ports.\<close>

definition ports_below :: "nat \<Rightarrow> deviceHandler \<Rightarrow> bool" where
  "ports_below i dh \<longleftrightarrow> fst ` set (h_uniEntityMap dh) \<subseteq> (\<lambda>j. indicatedPort dh (of_nat j)) ` {..< i}"

lemma ports_below_free:
  assumes "ports_below i dh" and "i < 16"
  shows "indicatedPort dh (of_nat i) \<notin> fst ` set (h_uniEntityMap dh)"
proof
  assume "indicatedPort dh (of_nat i) \<in> fst ` set (h_uniEntityMap dh)"
  then obtain j where "j < i" "indicatedPort dh (of_nat i) = indicatedPort dh (of_nat j)"
    using assms(1) by (auto simp: ports_below_def)
  then show False
    using indicatedPort_inj [of dh i j] assms(2) by simp
qed

text \<open>What is fixed while ports are added.\<close>

definition same_ports_env :: "deviceHandler \<Rightarrow> deviceHandler \<Rightarrow> bool" where
  "same_ports_env dh dh' \<longleftrightarrow> h_pOnuIndication dh' = h_pOnuIndication dh \<and> h_reconciling dh' = h_reconciling dh \<and>
     h_entry dh' = h_entry dh \<and> h_deviceReason dh' = h_deviceReason dh"

lemma same_ports_envD:
  "same_ports_env dh dh' \<Longrightarrow> indicatedPort dh' u = indicatedPort dh u"
  "same_ports_env dh dh' \<Longrightarrow> portRows dh' ty i keys = portRows dh ty i keys"
  by (auto simp: same_ports_env_def indicatedPort_def portRows_def split: option.splits)

lemma addUniPort_new:
  assumes "ports_below i dh" and "i < 16" and "\<not> h_reconciling dh" and "\<And>c. de_coreOk env c"
  shows "\<exists>dh'. addUniPort env k (of_nat i) ty dh = Done dh' \<and> same_ports_env dh dh' \<and>
    map portRow (h_uniEntityMap dh') =
      map portRow (h_uniEntityMap dh) @ [(indicatedPort dh (of_nat i), of_nat i, k, ty)] \<and>
    announced dh' = announced dh @ [indicatedPort dh (of_nat i)] \<and> ports_below (Suc i) dh'"
proof -
  let ?n = "indicatedPort dh (of_nat i)"
  let ?p = "newOnuUniPort (of_nat i) ?n k ty"
  have p: "portNo ?p = ?n" "uniID ?p = of_nat i" "entityID ?p = k" "portType ?p = ty"
    by (simp_all add: newOnuUniPort_def Let_def)
  obtain port where a: "announcePort env ?p dh = Done port"
    using assms(4) by (simp add: announcePort_def createVolthaPort_def Let_def)
  then obtain v where v: "pPort port = Some v" "PortNo v = ?n" "uniID port = of_nat i" "entityID port = k"
      "portType port = ty"
    using announcePort_outcome [OF a] p by auto
  let ?dh' = "dh\<lparr>h_uniEntityMap := h_uniEntityMap dh @ [(?n, port)], h_calls := h_calls dh @ [UniPortCreated v]\<rparr>"
  have "addUniPort env k (of_nat i) ty dh = Done ?dh'"
    using ports_below_free [OF assms(1,2)] assms(3) a v by (simp add: addUniPort_def Let_def)
  moreover have s: "same_ports_env dh ?dh'"
    by (simp add: same_ports_env_def)
  moreover have "ports_below (Suc i) ?dh'"
    using assms(1) by (auto simp: ports_below_def same_ports_envD [OF s] lessThan_Suc)
  ultimately show ?thesis
    using v by (auto simp: portRow_def announced_def)
qed

lemma addUniPorts_new:
  assumes "ports_below i dh" and "i + length keys \<le> 16" and "\<not> h_reconciling dh" and "\<And>c. de_coreOk env c"
  shows "\<exists>dh'. addUniPorts env ty keys (of_nat i, dh) = Done (of_nat (i + length keys), dh') \<and>
    same_ports_env dh dh' \<and>
    map portRow (h_uniEntityMap dh') = map portRow (h_uniEntityMap dh) @ portRows dh ty i keys \<and>
    announced dh' = announced dh @ map fst (portRows dh ty i keys) \<and> ports_below (i + length keys) dh'"
  using assms(1-3)
proof (induction keys arbitrary: i dh)
  case Nil
  then show ?case by (simp add: same_ports_env_def portRows_def)
next
  case (Cons k keys)
  obtain dh1 where 1: "addUniPort env k (of_nat i) ty dh = Done dh1" "same_ports_env dh dh1"
      "map portRow (h_uniEntityMap dh1) =
        map portRow (h_uniEntityMap dh) @ [(indicatedPort dh (of_nat i), of_nat i, k, ty)]"
      "announced dh1 = announced dh @ [indicatedPort dh (of_nat i)]" "ports_below (Suc i) dh1"
    using addUniPort_new [OF Cons.prems(1) _ Cons.prems(3) assms(4), of k ty] Cons.prems(2) by auto
  have "\<not> h_reconciling dh1" using 1(2) Cons.prems(3) by (simp add: same_ports_env_def)
  then obtain dh2 where 2: "addUniPorts env ty keys (of_nat (Suc i), dh1) = Done (of_nat (Suc i + length keys), dh2)"
      "same_ports_env dh1 dh2"
      "map portRow (h_uniEntityMap dh2) = map portRow (h_uniEntityMap dh1) @ portRows dh1 ty (Suc i) keys"
      "announced dh2 = announced dh1 @ map fst (portRows dh1 ty (Suc i) keys)"
      "ports_below (Suc i + length keys) dh2"
    using Cons.IH [OF 1(5)] Cons.prems(2) by auto
  have "addUniPorts env ty (k # keys) (of_nat i, dh) = Done (of_nat (i + length (k # keys)), dh2)"
    using 1(1) 2(1) by (simp add: add.commute)
  moreover have "same_ports_env dh dh2"
    using 1(2) 2(2) by (simp add: same_ports_env_def)
  ultimately show ?case
    using 1 2 by (simp add: portRows_Cons same_ports_envD [OF 1(2)])
qed

text \<open>C14: once the MIB is synchronised, and if the core takes the ports, an ONU with at most 16
  UNIs gets one port for every UniG instance and then one for every virtual Ethernet interface
  point, each class in ascending order of its instances, numbered from 0 and kept under the port
  number made of the PON, the ONU and that number; every port is announced, in this order.\<close>

theorem uni_ports_numbered:
  assumes "h_entry dh = Some e" and "m_db (snd (e_ul e)) = Some db" and "h_uniEntityMap dh = []"
    and "\<not> h_reconciling dh" and "\<And>c. de_coreOk env c"
    and "unigs = getSortedInstKeys db UniGClassID"
    and "veips = getSortedInstKeys db VirtualEthernetInterfacePointClassID"
    and "length unigs + length veips \<le> 16"
  shows "\<exists>dh'. addStoredPorts env dh = Done dh' \<and>
    map portRow (h_uniEntityMap dh') =
      portRows dh uniPPTP 0 unigs @ portRows dh uniVEIP (length unigs) veips \<and>
    announced dh' = announced dh @ map fst (h_uniEntityMap dh') \<and> distinct (map fst (h_uniEntityMap dh'))"
proof -
  have b: "ports_below 0 dh" by (simp add: ports_below_def assms(3))
  obtain dh1 where 1: "addUniPorts env uniPPTP unigs (0, dh) = Done (of_nat (length unigs), dh1)"
      "same_ports_env dh dh1" "map portRow (h_uniEntityMap dh1) = portRows dh uniPPTP 0 unigs"
      "announced dh1 = announced dh @ map fst (portRows dh uniPPTP 0 unigs)" "ports_below (length unigs) dh1"
    using addUniPorts_new [OF b _ assms(4,5), of unigs uniPPTP] assms(3,8) by auto
  have "\<not> h_reconciling dh1" using 1(2) assms(4) by (simp add: same_ports_env_def)
  then obtain dh2 where 2: "addUniPorts env uniVEIP veips (of_nat (length unigs), dh1) =
        Done (of_nat (length unigs + length veips), dh2)"
      "map portRow (h_uniEntityMap dh2) = map portRow (h_uniEntityMap dh1) @ portRows dh1 uniVEIP (length unigs) veips"
      "announced dh2 = announced dh1 @ map fst (portRows dh1 uniVEIP (length unigs) veips)"
    using addUniPorts_new [OF 1(5) assms(8) _ assms(5), of uniVEIP] by blast
  have rows: "map portRow (h_uniEntityMap dh2) = portRows dh uniPPTP 0 unigs @ portRows dh uniVEIP (length unigs) veips"
    using 1 2 by (simp add: same_ports_envD [OF 1(2)])
  have keys: "map fst (h_uniEntityMap dh2) = map fst (map portRow (h_uniEntityMap dh2))"
    by (simp add: portRow_def comp_def)
  have seq: "map fst (portRows dh ty i ks) = map (\<lambda>j. indicatedPort dh (of_nat j)) [i..<i + length ks]" for ty i ks
    by (rule nth_equalityI) (simp_all add: portRows_def)
  have all: "map fst (h_uniEntityMap dh2) = map (\<lambda>j. indicatedPort dh (of_nat j)) [0..<length unigs + length veips]"
    unfolding keys rows by (simp add: seq upt_add_eq_append [of 0])
  have "inj_on (\<lambda>j. indicatedPort dh (of_nat j)) {0..<length unigs + length veips}"
    using assms(8) by (intro inj_onI) (auto intro: indicatedPort_inj)
  then have "distinct (map fst (h_uniEntityMap dh2))"
    unfolding all by (simp add: distinct_map)
  moreover have "addStoredPorts env dh = Done dh2"
    using 1(1) 2(1) by (simp add: addStoredPorts_def assms(1,2) assms(6,7) [symmetric])
  moreover have "announced dh2 = announced dh @ map fst (h_uniEntityMap dh2)"
    using 1(4) 2(3) by (simp add: same_ports_envD [OF 1(2)] keys rows)
  ultimately show ?thesis
    using rows by blast
qed

definition example_synced :: deviceHandler where
  "example_synced = (newDeviceHandler example_device)
     \<lparr>h_entry := Some ((newEntry example_env (newDeviceHandler example_device))
        \<lparr>e_ul := (ulStInSync, (snd (newMibSync example_cc Map.empty))
           \<lparr>m_db := Some \<lparr>meDb = [(264, [(258, []), (257, [])]), (329, [(1025, [])])]\<rparr>\<rparr>)\<rparr>),
      h_pOnuIndication := Some example_ind\<rparr>"

theorem uni_ports_numbered_witness:
  "\<exists>dh'. addStoredPorts example_env example_synced = Done dh' \<and>
     map portRow (h_uniEntityMap dh') =
       [(4144, 0, 257, uniPPTP), (4145, 1, 258, uniPPTP), (4146, 2, 1025, uniVEIP)]"
proof -
  let ?db = "\<lparr>meDb = [(264, [(258, []), (257, [])]), (329, [(1025, [])])]\<rparr> :: onuDeviceDB"
  have k: "[257, 258] = getSortedInstKeys ?db UniGClassID"
    "[1025] = getSortedInstKeys ?db VirtualEthernetInterfacePointClassID"
    by (simp_all add: getSortedInstKeys_def instances_def UniGClassID_def VirtualEthernetInterfacePointClassID_def)
  have r: "portRows example_synced uniPPTP 0 [257, 258] @ portRows example_synced uniVEIP (length [257, 258 :: u16]) [1025] =
      [(4144, 0, 257, uniPPTP), (4145, 1, 258, uniPPTP), (4146, 2, 1025, uniVEIP)]"
    by (simp add: portRows_def indicatedPort_def example_synced_def example_ind_def mkUniPortNum_def platform_consts
        upt_rec)
  obtain e where e: "h_entry example_synced = Some e" "m_db (snd (e_ul e)) = Some ?db"
    by (simp add: example_synced_def)
  have f: "h_uniEntityMap example_synced = []" "\<not> h_reconciling example_synced"
    by (simp_all add: example_synced_def newDeviceHandler_def)
  have c: "de_coreOk example_env c" for c by (simp add: example_env_def)
  have l: "length [257, 258 :: u16] + length [1025 :: u16] \<le> 16" by simp
  note u = uni_ports_numbered [OF e f c k l]
  obtain dh' where a: "addStoredPorts example_env example_synced = Done dh'"
    and b: "map portRow (h_uniEntityMap dh') = portRows example_synced uniPPTP 0 [257, 258] @
      portRows example_synced uniVEIP (length [257, 258 :: u16]) [1025]"
    using u by (elim exE conjE) (rule that)
  show ?thesis
    by (intro exI conjI) (rule a, simp only: b r)
qed

section \<open>Reports\<close>

definition reported :: "deviceHandler \<Rightarrow> coreCall list \<Rightarrow> coreCall list" where
  "reported dh cs = (if h_reconciling dh then [] else cs)"

lemma reported_frame: "machines_step dh dh' \<Longrightarrow> reported dh' cs = reported dh cs"
  by (simp add: reported_def frameD)

lemma calls_notifyCore [simp]: "h_calls (notifyCore env c dh) = h_calls dh @ reported dh [c]"
  by (simp add: notifyCore_def core_def reported_def)

lemma notifyCore_keeps [simp]:
  "h_reconciling (notifyCore env c dh) = h_reconciling dh" "h_entry (notifyCore env c dh) = h_entry dh"
  "h_uniEntityMap (notifyCore env c dh) = h_uniEntityMap dh"
  "h_deviceReason (notifyCore env c dh) = h_deviceReason dh"
  by (simp_all add: notifyCore_def core_def)

text \<open>What adding ports reports: exactly the ports that are new, unless reconciling.\<close>

definition ports_added :: "deviceHandler \<Rightarrow> deviceHandler \<Rightarrow> bool" where
  "ports_added dh dh' \<longleftrightarrow> same_ports_env dh dh' \<and> (\<exists>new vs.
     h_uniEntityMap dh' = h_uniEntityMap dh @ new \<and> h_calls dh' = h_calls dh @ reported dh (map UniPortCreated vs) \<and>
     (h_reconciling dh \<or> map PortNo vs = map fst new))"

lemma ports_added_refl: "ports_added dh dh"
  by (auto simp: ports_added_def same_ports_env_def reported_def)

lemma ports_added_trans:
  assumes "ports_added a b" and "ports_added b c"
  shows "ports_added a c"
proof -
  obtain new vs where 1: "h_uniEntityMap b = h_uniEntityMap a @ new"
      "h_calls b = h_calls a @ reported a (map UniPortCreated vs)" "h_reconciling a \<or> map PortNo vs = map fst new" "same_ports_env a b"
    using assms(1) by (auto simp: ports_added_def)
  obtain new' vs' where 2: "h_uniEntityMap c = h_uniEntityMap b @ new'"
      "h_calls c = h_calls b @ reported b (map UniPortCreated vs')" "h_reconciling b \<or> map PortNo vs' = map fst new'" "same_ports_env b c"
    using assms(2) by (auto simp: ports_added_def)
  have "h_calls c = h_calls a @ reported a (map UniPortCreated (vs @ vs'))"
    using 1 2 by (simp add: reported_def same_ports_env_def)
  moreover have "h_uniEntityMap c = h_uniEntityMap a @ (new @ new')" "h_reconciling a \<or> map PortNo (vs @ vs') = map fst (new @ new')"
    "same_ports_env a c"
    using 1 2 by (auto simp: same_ports_env_def)
  ultimately show ?thesis unfolding ports_added_def by blast
qed

lemma ports_added_one:
  assumes "addUniPort env k u ty dh = Done dh'"
  shows "ports_added dh dh'"
proof (cases "indicatedPort dh u \<in> fst ` set (h_uniEntityMap dh)")
  case True
  then show ?thesis using assms ports_added_refl by (simp add: addUniPort_def Let_def)
next
  case k: False
  let ?n = "indicatedPort dh u" and ?p = "newOnuUniPort u (indicatedPort dh u) k ty"
  obtain p vs where "h_uniEntityMap dh' = h_uniEntityMap dh @ [(?n, p)]" "same_ports_env dh dh'"
    "h_calls dh' = h_calls dh @ reported dh (map UniPortCreated vs)" "h_reconciling dh \<or> map PortNo vs = [?n]"
  proof (cases "h_reconciling dh")
    case True
    then show ?thesis
      using that [of ?p "[]"] k assms
      by (auto simp: addUniPort_def Let_def same_ports_env_def reported_def)
  next
    case False
    with k assms obtain port where a: "announcePort env ?p dh = Done port"
      and d: "dh' = dh\<lparr>h_uniEntityMap := h_uniEntityMap dh @ [(?n, port)],
        h_calls := h_calls dh @ map UniPortCreated (case pPort port of None \<Rightarrow> [] | Some v \<Rightarrow> [v])\<rparr>"
      by (cases "announcePort env ?p dh") (simp_all add: addUniPort_def Let_def)
    have "portNo ?p = ?n" by (simp add: newOnuUniPort_def Let_def)
    then obtain v where "pPort port = Some v" "PortNo v = ?n"
      using announcePort_outcome [OF a] by auto
    then show ?thesis
      using that [of port "[v]"] d False by (simp add: same_ports_env_def reported_def)
  qed
  then show ?thesis by (auto simp: ports_added_def)
qed

lemma ports_added_list:
  "addUniPorts env ty keys (i, dh) = Done (j, dh') \<Longrightarrow> ports_added dh dh'"
proof (induction env ty keys "(i, dh)" arbitrary: i dh rule: addUniPorts.induct)
  case (1 env ty i dh)
  then show ?case by (simp add: ports_added_refl)
next
  case (2 env ty key keys i dh)
  then obtain dh1 where a: "addUniPort env key i ty dh = Done dh1"
    and r: "addUniPorts env ty keys (i + 1, dh1) = Done (j, dh')"
    by (auto simp: panic_simps)
  show ?case
    by (rule ports_added_trans [OF ports_added_one [OF a] 2(1) [OF r]])
qed

lemma ports_added_stored:
  assumes "addStoredPorts env dh = Done dh'"
  shows "ports_added dh dh'"
proof -
  from assms obtain db i dh1 j where
    "addUniPorts env uniPPTP (getSortedInstKeys db UniGClassID) (0, dh) = Done (i, dh1)"
    "addUniPorts env uniVEIP (getSortedInstKeys db VirtualEthernetInterfacePointClassID) (i, dh1) = Done (j, dh')"
    by (auto simp: addStoredPorts_def panic_simps)
  then show ?thesis
    using ports_added_list ports_added_trans by blast
qed


lemma machines_has_entry: "machines_step dh dh' \<Longrightarrow> h_entry dh \<noteq> None \<Longrightarrow> h_entry dh' \<noteq> None"
  using machines_entry by blast

lemma startUniLock_calls:
  assumes "h_entry dh \<noteq> None"
  shows "h_calls (startUniLock env b n dh) = h_calls dh \<and> h_reconciling (startUniLock env b n dh) = h_reconciling dh \<and>
    h_deviceReason (startUniLock env b n dh) = h_deviceReason dh \<and> h_uniEntityMap (startUniLock env b n dh) = h_uniEntityMap dh"
proof -
  from assms obtain e where "h_entry dh = Some e" by blast
  from startUniLock_frame [OF this, of env b n] show ?thesis by (simp add: frame_def)
qed

lemma putCC_reports [simp]:
  "h_calls (putCC p cc dh) = h_calls dh" "h_reconciling (putCC p cc dh) = h_reconciling dh"
  "h_uniEntityMap (putCC p cc dh) = h_uniEntityMap dh"
  by (cases p; simp add: putCC_def)+

lemma createInterface_start_calls:
  assumes "createInterface_start env ind dh = (True, dh')"
  shows "h_calls dh' = h_calls dh @ reported dh [DeviceStateUpdate Conn_REACHABLE Oper_ACTIVATING,
      DeviceReasonUpdate ''starting-openomci''] \<and> h_reconciling dh' = h_reconciling dh \<and>
    h_uniEntityMap dh' = h_uniEntityMap dh \<and> h_entry dh' \<noteq> None"
proof -
  let ?dh1 = "notifyCore env (DeviceStateUpdate Conn_REACHABLE Oper_ACTIVATING) (dh\<lparr>h_pOnuIndication := Some ind\<rparr>)"
  obtain en dh2 where g: "getOnuDeviceEntry env True ?dh1 = (en, dh2)" by fastforce
  then obtain e where e: "en = Some e"
    using assms by (cases en) (auto simp: createInterface_start_def Let_def)
  have 2: "h_calls dh2 = h_calls ?dh1" "h_reconciling dh2 = h_reconciling dh" "h_uniEntityMap dh2 = h_uniEntityMap dh"
    using g by (auto simp: getOnuDeviceEntry_def Let_def addOnuDeviceEntry_def setOnuDeviceEntry_def
      split: if_splits option.splits)
  obtain e' dh3 where s: "startEntry e dh2 = (e', dh3)" by fastforce
  have 3: "h_calls dh3 = h_calls dh2" "h_reconciling dh3 = h_reconciling dh2"
      "h_uniEntityMap dh3 = h_uniEntityMap dh2" "h_entry dh3 = Some e'"
    using s by (auto simp: startEntry_def Let_def)
  let ?dh4 = "(notifyCore env (DeviceReasonUpdate ''starting-openomci'') dh3)\<lparr>h_deviceReason := ''starting-openomci''\<rparr>"
  let ?cc = "snd (performOmciTest (de_lib env) (newOmciTestRequest (hdDeviceID (h_ids ?dh4)) True True True) (getCC (e_cc e') ?dh4 (m_cc (snd (e_ul e')))))"
  have d: "dh' = putCC (e_cc e') ?cc ?dh4"
    using assms g e s by (simp add: createInterface_start_def Let_def)
  show ?thesis
    using 2 3 by (simp add: d reported_def)
qed

lemma mibSync_calls:
  assumes "processMibDatabaseSyncEvent env dh = Done dh'"
  shows "\<exists>new vs. h_uniEntityMap dh' = h_uniEntityMap dh @ new \<and>
    h_calls dh' = h_calls dh @ reported dh (DeviceReasonUpdate ''discovery-mibsync-complete'' # map UniPortCreated vs) \<and>
    (h_reconciling dh \<or> map PortNo vs = map fst new) \<and> h_reconciling dh' = h_reconciling dh \<and>
    h_deviceReason dh' = ''discovery-mibsync-complete'' \<and> h_entry dh' \<noteq> None"
proof -
  let ?dh1 = "(notifyCore env (DeviceReasonUpdate ''discovery-mibsync-complete'') dh)
      \<lparr>h_deviceReason := ''discovery-mibsync-complete''\<rparr>"
  obtain dh2 where 2: "addStoredPorts env ?dh1 = Done dh2" "startMibDownload env dh2 = Done dh'"
    using assms by (auto simp: processMibDatabaseSyncEvent_def panic_simps)
  note a = ports_added_stored [OF 2(1)]
  note m = machines_startMibDownload [OF 2(2)]
  have "h_entry dh2 \<noteq> None"
    using 2(2) by (cases "h_entry dh2") (simp_all add: startMibDownload_def)
  then have "h_entry dh' \<noteq> None"
    by (rule machines_has_entry [OF m])
  then show ?thesis
    using a by (auto simp: ports_added_def same_ports_env_def frameD [OF m] reported_def)
qed

text \<open>C15: whatever the machines do in between, an ONU that starts up normally is reported to the
  core by exactly these calls in this order: activating, the three reasons up to the synchronised
  MIB, every new UNI port once, active, and the reasons for the downloaded MIB, the technology
  profile and the flows. A handler that reconciles makes none of these calls but the last.\<close>

theorem startup_reports:
  assumes "createInterface_start env ind dh = (True, dh1)" and "machines_step dh1 dh2"
    and "deviceProcStatusUpdate env MibDatabaseSync dh2 = Done dh3" and "machines_step dh3 dh4"
    and "deviceProcStatusUpdate env MibDownloadDone dh4 = Done dh5" and "machines_step dh5 dh6"
    and "deviceProcStatusUpdate env OmciAniConfigDone dh6 = Done dh7" and "machines_step dh7 dh8"
    and "deviceProcStatusUpdate env OmciVlanFilterDone dh8 = Done dh9"
  shows "\<exists>new vs. h_uniEntityMap dh9 = h_uniEntityMap dh @ new \<and>
    (h_reconciling dh \<or> map PortNo vs = map fst new) \<and> h_deviceReason dh9 = ''omci-flows-pushed'' \<and>
    h_calls dh9 = h_calls dh @
      reported dh ([DeviceStateUpdate Conn_REACHABLE Oper_ACTIVATING, DeviceReasonUpdate ''starting-openomci'',
          DeviceReasonUpdate ''discovery-mibsync-complete''] @ map UniPortCreated vs @
        [DeviceStateUpdate Conn_REACHABLE Oper_ACTIVE, DeviceReasonUpdate ''initial-mib-downloaded'',
          DeviceReasonUpdate ''tech-profile-config-download-success'']) @
      [DeviceReasonUpdate ''omci-flows-pushed'']"
proof -
  note s1 = createInterface_start_calls [OF assms(1)] and s2 = frameD [OF assms(2)]
  obtain new vs where s3: "h_uniEntityMap dh3 = h_uniEntityMap dh2 @ new"
      "h_calls dh3 = h_calls dh2 @ reported dh2 (DeviceReasonUpdate ''discovery-mibsync-complete'' # map UniPortCreated vs)"
      "h_reconciling dh2 \<or> map PortNo vs = map fst new" "h_reconciling dh3 = h_reconciling dh2" "h_entry dh3 \<noteq> None"
    using mibSync_calls [of env dh2 dh3] assms(3) by auto
  note s4 = frameD [OF assms(4)]
  let ?x = "(notifyCore env (DeviceReasonUpdate ''initial-mib-downloaded'')
      (notifyCore env (DeviceStateUpdate Conn_REACHABLE Oper_ACTIVE) dh4))\<lparr>h_deviceReason := ''initial-mib-downloaded''\<rparr>"
  have "h_entry ?x \<noteq> None"
    using machines_has_entry [OF assms(4) s3(5)] by simp
  note l = startUniLock_calls [OF this, of env False UniUnlockStateDone]
  have s5: "h_calls dh5 = h_calls dh4 @ reported dh4 [DeviceStateUpdate Conn_REACHABLE Oper_ACTIVE,
        DeviceReasonUpdate ''initial-mib-downloaded'']"
      "h_reconciling dh5 = h_reconciling dh4" "h_uniEntityMap dh5 = h_uniEntityMap dh4"
      "h_deviceReason dh5 = ''initial-mib-downloaded''"
    using assms(5) l by (auto simp: processMibDownloadDoneEvent_def Let_def reported_def)
  note s6 = frameD [OF assms(6)]
  have s7: "h_calls dh7 = h_calls dh6 @ reported dh6 [DeviceReasonUpdate ''tech-profile-config-download-success'']"
      "h_reconciling dh7 = h_reconciling dh6" "h_uniEntityMap dh7 = h_uniEntityMap dh6"
      "h_deviceReason dh7 = ''tech-profile-config-download-success''"
    using assms(7) s5(4) s6(6) by (auto simp: processOmciAniConfigDoneEvent_def)
  note s8 = frameD [OF assms(8)]
  have s9: "h_calls dh9 = h_calls dh8 @ [DeviceReasonUpdate ''omci-flows-pushed'']"
      "h_uniEntityMap dh9 = h_uniEntityMap dh8" "h_deviceReason dh9 = ''omci-flows-pushed''"
    using assms(9) s7(4) s8(6) by (auto simp: processOmciVlanFilterDoneEvent_def core_def)
  have "h_uniEntityMap dh9 = h_uniEntityMap dh @ new"
    using s1 s2(7) s3(1) s4(7) s5(3) s6(7) s7(3) s8(7) s9(2) by simp
  moreover have "h_reconciling dh \<or> map PortNo vs = map fst new"
    using s1 s2(8) s3(3) by simp
  ultimately show ?thesis
    using s9(3) s1 s2(8,9) s3(2,4) s4(8,9) s5(1,2) s6(8,9) s7(1,2) s8(8,9) s9(1)
    by (intro exI [of _ new] exI [of _ vs]) (simp add: reported_def)
qed

lemma startMibDownload_ok:
  assumes "h_entry dh = Some e" and "e_cc e = Some i"
  shows "\<exists>dh'. startMibDownload env dh = Done dh'"
proof -
  obtain e1 where "h_entry (fireDl_dh env dlEvStart e dh) = Some e1" "e_cc e1 = Some i"
    using machines_entry [OF machines_fireDl [OF assms(1)] assms(1), of env dlEvStart] assms(2) by auto
  then show ?thesis
    using assms by (simp add: startMibDownload_def Let_def)
qed

lemma mibSync_ok:
  assumes "h_entry dh = Some e" and "e_cc e = Some i" and "m_db (snd (e_ul e)) = Some newOnuDeviceDB"
  shows "\<exists>dh'. deviceProcStatusUpdate env MibDatabaseSync dh = Done dh'"
proof -
  let ?dh1 = "(notifyCore env (DeviceReasonUpdate ''discovery-mibsync-complete'') dh)
      \<lparr>h_deviceReason := ''discovery-mibsync-complete''\<rparr>"
  have e: "h_entry ?dh1 = Some e" using assms(1) by simp
  have k: "getSortedInstKeys newOnuDeviceDB c = []" for c
    by (simp add: getSortedInstKeys_def instances_def newOnuDeviceDB_def)
  have "addStoredPorts env ?dh1 = Done ?dh1"
    unfolding addStoredPorts_def e by (simp add: assms(3) k)
  moreover obtain dh' where "startMibDownload env ?dh1 = Done dh'"
    using startMibDownload_ok [OF e assms(2), of env] by blast
  ultimately show ?thesis
    by (simp add: processMibDatabaseSyncEvent_def)
qed

theorem startup_reports_witness:
  "\<exists>dh1 new vs (dh9 :: deviceHandler). createInterface_start example_env example_ind example_adopted = (True, dh1) \<and>
     h_uniEntityMap dh9 = h_uniEntityMap example_adopted @ new \<and> map PortNo vs = map fst new \<and>
     h_deviceReason dh9 = ''omci-flows-pushed'' \<and>
     h_calls dh9 = h_calls example_adopted @ [DeviceStateUpdate Conn_REACHABLE Oper_ACTIVATING,
       DeviceReasonUpdate ''starting-openomci'', DeviceReasonUpdate ''discovery-mibsync-complete''] @
       map UniPortCreated vs @ [DeviceStateUpdate Conn_REACHABLE Oper_ACTIVE,
       DeviceReasonUpdate ''initial-mib-downloaded'', DeviceReasonUpdate ''tech-profile-config-download-success'',
       DeviceReasonUpdate ''omci-flows-pushed'']"
proof -
  obtain e where e: "h_entry example_adopted = Some e" using example_adopted_parts by blast
  have nr: "\<not> h_reconciling example_adopted" using example_adopted_parts by blast
  obtain dh1 e1 where 1: "createInterface_start example_env example_ind example_adopted = (True, dh1)"
      "h_entry dh1 = Some e1"
    by (rule createInterface_start_entry [OF e])
  obtain i where i: "e_cc e1 = Some i"
    using createInterface_start_outcome [OF 1(1) dh_inv_reach [OF example_adopted_reach]] 1(2)
    by (auto simp: current_def)
  let ?e2 = "e1\<lparr>e_ul := (ulStInSync, (snd (e_ul e1))\<lparr>m_db := Some newOnuDeviceDB\<rparr>)\<rparr>"
  let ?dh2 = "dh1\<lparr>h_entry := Some ?e2\<rparr>"
  have m: "machines_step dh1 ?dh2" using 1(2) by (simp add: frame_simps)
  obtain dh3 where 3: "deviceProcStatusUpdate example_env MibDatabaseSync ?dh2 = Done dh3"
    using mibSync_ok [of ?dh2 ?e2 i example_env] i by auto
  obtain dh5 where 5: "deviceProcStatusUpdate example_env MibDownloadDone dh3 = Done dh5" by simp
  obtain dh7 where 7: "deviceProcStatusUpdate example_env OmciAniConfigDone dh5 = Done dh7" by simp
  obtain dh9 where 9: "deviceProcStatusUpdate example_env OmciVlanFilterDone dh7 = Done dh9" by simp
  note r = startup_reports [OF 1(1) m 3 machines_step_refl 5 machines_step_refl 7 machines_step_refl 9]
  then obtain new vs where f: "h_uniEntityMap dh9 = h_uniEntityMap example_adopted @ new"
      "h_reconciling example_adopted \<or> map PortNo vs = map fst new" "h_deviceReason dh9 = ''omci-flows-pushed''"
      "h_calls dh9 = h_calls example_adopted @
        reported example_adopted ([DeviceStateUpdate Conn_REACHABLE Oper_ACTIVATING, DeviceReasonUpdate ''starting-openomci'',
            DeviceReasonUpdate ''discovery-mibsync-complete''] @ map UniPortCreated vs @
          [DeviceStateUpdate Conn_REACHABLE Oper_ACTIVE, DeviceReasonUpdate ''initial-mib-downloaded'',
            DeviceReasonUpdate ''tech-profile-config-download-success'']) @ [DeviceReasonUpdate ''omci-flows-pushed'']"
    by (elim exE conjE) (rule that)
  show ?thesis
    by (rule exI [of _ dh1], rule exI [of _ new], rule exI [of _ vs], rule exI [of _ dh9])
      (use 1(1) f nr in \<open>simp add: reported_def\<close>)
qed

end
