(* ===== verification/Flow_Update.thy ===== *)
theory Flow_Update
  imports Device_Props
begin

text \<open>
  Flows, from the OpenFlow item to the VLAN machine of a UNI port and the tagging rule it sets
  (\<open>FlowUpdateIncremental\<close>, \<open>addFlowItemToUniPort\<close>, \<open>createVlanFilterFsm\<close> in
  \<open>device_handler.go\<close>, with the rules of \<open>omci_vlan_config.go\<close>).
\<close>

section \<open>From a flow to a rule\<close>

lemma fireVlan_start: "fireVlan lib vlanEvStart (vlanStDisabled, w) = (vlanStStarting, enterConfigStarting w)"
proof -
  have "NewFSM vlanEvents (vlanEvStart, vlanStDisabled) = Some vlanStStarting"
    by (simp add: vlanEvents_def NewFSM_def add_desc_def)
  then show ?thesis
    by (simp add: fireVlan_def runEvent_def Event_enter_only)
qed

text \<open>A machine for a flow: a new one for its UNI port, started, on the current channel.\<close>

lemma createVlanFilterFsm_outcome:
  assumes "h_entry dh = Some e"
  shows "\<exists>w cc dh'. createVlanFilterFsm env port tp m s p ev' dh = (None, dh') \<and>
    w = snd (NewUniVlanConfigFsm cc port tp ev' (de_acceptIncrementalEvto env) m s p) \<and>
    h_vlans dh' = (h_vlans dh)(uniID port \<mapsto>
      (e_cc e, vlanStStarting, enterConfigStarting (w\<lparr>v_cc := getCC (e_cc e) dh cc\<rparr>))) \<and>
    h_entry dh' = h_entry dh \<and> frame dh' = frame dh"
proof -
  let ?cc = "getCC (e_cc e) dh (d_cc (snd (e_dl e)))"
  obtain s' w where n: "NewUniVlanConfigFsm ?cc port tp ev' (de_acceptIncrementalEvto env) m s p = (s', w)"
    by fastforce
  then have s': "s' = vlanStDisabled" by (auto simp: NewUniVlanConfigFsm_def Let_def)
  have vc: "v_cc w = ?cc" using n by (auto simp: NewUniVlanConfigFsm_def Let_def)
  let ?dh1 = "dh\<lparr>h_vlans := (h_vlans dh)(uniID port \<mapsto> (e_cc e, vlanStDisabled, w))\<rparr>"
  let ?dh' = "fireVlan_dh env vlanEvStart (uniID port) ?dh1"
  have g: "getCC (e_cc e) ?dh1 c = getCC (e_cc e) dh c" for c
    by (simp add: getCC_def split: option.splits)
  have "createVlanFilterFsm env port tp m s p ev' dh = (None, ?dh')"
    using n by (simp add: createVlanFilterFsm_def getEntry_exists [OF assms] s' canFire_def vlanEvents_def
      NewFSM_def add_desc_def)
  moreover have "h_vlans ?dh' = (h_vlans dh)(uniID port \<mapsto>
      (e_cc e, vlanStStarting, enterConfigStarting (w\<lparr>v_cc := getCC (e_cc e) dh ?cc\<rparr>)))"
    by (simp add: fireVlan_dh_def fireVlan_start g vc)
  moreover have "frame ?dh' = frame dh"
    using machines_fireVlan [of ?dh1 env vlanEvStart "uniID port"] by (simp add: machines_step_def frame_def)
  ultimately show ?thesis
    using n by (intro exI [of _ w] exI [of _ ?cc] exI [of _ ?dh']) simp
qed

lemma translationRule_cong:
  assumes "v_matchPcp w' = v_matchPcp w" "v_matchVid w' = v_matchVid w" "v_tagsToRemove w' = v_tagsToRemove w"
    "v_setPcp w' = v_setPcp w" "v_setVid w' = v_setVid w"
  shows "translationRule w' = translationRule w"
  by (simp add: translationRule_def assms)

text \<open>C16: a flow that is accepted for a UNI port starts a VLAN machine for that UNI, which had none,
  with the technology profile of the flow's metadata; the VIDs are in the range of the rule fields,
  so the translation rule the machine sets matches the VID of the flow and sets the requested VID
  and priority, if the flow asks for a priority below 16. No other UNI's machine changes.\<close>

theorem accepted_flow_rule:
  assumes "h_entry dh = Some e" and "flowVlan f = Done (FlowVlan tp m s p)" and "unat p < 16"
    and "addFlowItemToUniPort env f port dh = Done (None, dh')"
  shows "h_vlans dh (uniID port) = None \<and> unat m \<le> 4096 \<and> unat s \<le> 4096 \<and>
    (\<exists>w. h_vlans dh' = (h_vlans dh)(uniID port \<mapsto> (e_cc e, vlanStStarting, w)) \<and> v_techProfileID w = tp \<and>
       v_uni w = port \<and>
       rule_filter 4 (translationRule w) = (if unat m = 4096 then 15 else 8, unat m, 0) \<and>
       rule_treat 8 (translationRule w) = (if unat m = 4096 then 0 else 1, 15, 0, 0) \<and>
       rule_treat 12 (translationRule w) =
         (0, if unat m = 4096 \<and> unat p = 8 then 0 else unat p, unat s, 4))"
proof -
  have r: "unat m \<le> 4096 \<and> unat s \<le> 4096" by (rule flowVlan_range [OF assms(2)])
  have n: "h_vlans dh (uniID port) = None"
    using assms(2,4) by (cases "h_vlans dh (uniID port)") (simp_all add: addFlowItemToUniPort_def)
  obtain w0 cc dh2 where c: "createVlanFilterFsm env port tp m s p OmciVlanFilterDone dh = (None, dh2)"
      "w0 = snd (NewUniVlanConfigFsm cc port tp OmciVlanFilterDone (de_acceptIncrementalEvto env) m s p)"
      "h_vlans dh2 = (h_vlans dh)(uniID port \<mapsto>
        (e_cc e, vlanStStarting, enterConfigStarting (w0\<lparr>v_cc := getCC (e_cc e) dh cc\<rparr>)))"
    using createVlanFilterFsm_outcome [OF assms(1)] by blast
  let ?w = "enterConfigStarting (w0\<lparr>v_cc := getCC (e_cc e) dh cc\<rparr>)"
  have "dh' = dh2"
    using assms(2,4) n c(1) by (simp add: addFlowItemToUniPort_def)
  moreover have "v_techProfileID ?w = tp" "v_uni ?w = port"
    by (simp_all add: c(2) enterConfigStarting_def go_def NewUniVlanConfigFsm_def Let_def)
  moreover have "translationRule ?w = translationRule w0"
    by (rule translationRule_cong) (simp_all add: enterConfigStarting_def go_def)
  ultimately show ?thesis
    using translationRule_bits [OF _ _ assms(3) c(2)] r n c(3) by auto
qed

definition example_flow :: "u32 \<Rightarrow> ofpFlowStats" where
  "example_flow inPort =
     (let noOfb = \<lparr>ofbType = OFB_OTHER, GetPort = 0, GetVlanVid = 0, GetVlanVidMask = 0, GetVlanPcp = 0, GetIpProto = 0\<rparr>
      in \<lparr>Cookie = 7, matchOxm = True,
          OxmFields =
            [\<lparr>oxmBasic = True, GetOfbField = Some (noOfb\<lparr>ofbType := OFB_IN_PORT, GetPort := inPort\<rparr>)\<rparr>,
             \<lparr>oxmBasic = True, GetOfbField =
                Some (noOfb\<lparr>ofbType := OFB_VLAN_VID, GetVlanVid := 4096, GetVlanVidMask := 4096\<rparr>)\<rparr>],
          Instructions =
            [OFPIT_APPLY_ACTIONS (Some
              [OFPAT_SET_FIELD (Some (Some \<lparr>oxmBasic = True,
                 GetOfbField = Some (noOfb\<lparr>ofbType := OFB_VLAN_VID, GetVlanVid := 4096 + 200\<rparr>)\<rparr>)),
               OFPAT_SET_FIELD (Some (Some \<lparr>oxmBasic = True,
                 GetOfbField = Some (noOfb\<lparr>ofbType := OFB_VLAN_PCP, GetVlanPcp := 3\<rparr>)\<rparr>)),
               OFPAT_OUTPUT (Some 1)]),
             OFPIT_WRITE_METADATA (Some 0x4000000000)]\<rparr>)"

lemma example_flow_request: "flowVlan (example_flow inPort) = Done (FlowVlan 64 4096 200 3)"
  by (simp add: flowVlan_def example_flow_def Let_def GetMetadataFromWriteMetadataAction_def GetOfbFields_def
      GetActions_def getFlowActions_def flowVids_def OFPVID_NONE_def GetTechProfileIDFromWriteMetaData_def)

theorem accepted_flow_rule_witness:
  "\<exists>dh' p w. addFlowItemToUniPort example_env (example_flow 4144) example_uni example_adopted = Done (None, dh') \<and>
     h_vlans dh' 0 = Some (p, vlanStStarting, w) \<and> rule_treat 12 (translationRule w) = (0, 3, 200, 4)"
proof -
  obtain e where e: "h_entry example_adopted = Some e" using example_adopted_parts by blast
  have u: "uniID example_uni = 0" by (simp add: example_uni_def newOnuUniPort_def Let_def)
  have v: "h_vlans example_adopted u = None" for u
    unfolding example_adopted_def adoptOrReconcileDevice_def by (simp add: fireDev_init example_defs Let_def)
  obtain dh' where "createVlanFilterFsm example_env example_uni 64 4096 200 3 OmciVlanFilterDone example_adopted = (None, dh')"
    using createVlanFilterFsm_outcome [OF e] by blast
  then have a: "addFlowItemToUniPort example_env (example_flow 4144) example_uni example_adopted = Done (None, dh')"
    by (simp add: addFlowItemToUniPort_def example_flow_request v)
  obtain w where w: "h_vlans dh' = (h_vlans example_adopted)(uniID example_uni \<mapsto> (e_cc e, vlanStStarting, w))"
      "rule_treat 12 (translationRule w) = (0, 3, 200, 4)"
    using accepted_flow_rule [OF e example_flow_request _ a] by auto
  show ?thesis
    by (intro exI conjI) (rule a, simp add: w(1) u, rule w(2))
qed

section \<open>Updates\<close>

text \<open>The UNI whose machine a flow asks for, if it asks for one.\<close>

definition flowTarget :: "deviceHandler \<Rightarrow> ofpFlowStats \<Rightarrow> u8 option" where
  "flowTarget dh f =
     (if Cookie f = 0 then None
      else
        (case GetInPort f of
           Panic _ \<Rightarrow> None
         | Done inPort \<Rightarrow>
             if inPort = OFPP_INVALID \<or> inPort = h_ponPortNumber dh then None
             else
               (case map_of (h_uniEntityMap dh) inPort of
                  None \<Rightarrow> None
                | Some port \<Rightarrow>
                    (case flowVlan f of Done (FlowVlan tp m s p) \<Rightarrow> Some (uniID port) | _ \<Rightarrow> None))))"

definition flowTargets :: "deviceHandler \<Rightarrow> ofpFlowStats list \<Rightarrow> u8 list" where
  "flowTargets dh items = List.map_filter (flowTarget dh) items"

lemma flowTarget_frame:
  assumes "frame dh' = frame dh"
  shows "flowTarget dh' = flowTarget dh"
proof -
  have "h_ponPortNumber dh' = h_ponPortNumber dh" "h_uniEntityMap dh' = h_uniEntityMap dh"
    using assms by (simp_all add: frame_def)
  note f = this
  show ?thesis
    by (rule ext) (unfold flowTarget_def f, rule refl)
qed

lemma addFlow_accepted:
  assumes "h_entry dh = Some e" and "addFlow env f dh = Done (None, dh')"
  shows "(flowTarget dh f = None \<and> dh' = dh) \<or>
    (\<exists>u w. flowTarget dh f = Some u \<and> h_vlans dh u = None \<and> h_entry dh' = Some e \<and> frame dh' = frame dh \<and>
       h_vlans dh' = (h_vlans dh)(u \<mapsto> (e_cc e, vlanStStarting, w)))"
proof (cases "Cookie f = 0")
  case True
  then show ?thesis using assms(2) by (simp add: addFlow_def flowTarget_def)
next
  case c: False
  then obtain inPort where i: "GetInPort f = Done inPort" "inPort \<noteq> OFPP_INVALID"
    using assms(2) by (cases "GetInPort f") (auto simp: addFlow_def split: if_splits)
  show ?thesis
  proof (cases "inPort = h_ponPortNumber dh")
    case True
    then show ?thesis using assms(2) c i by (simp add: addFlow_def flowTarget_def)
  next
    case n: False
    then obtain port where p: "map_of (h_uniEntityMap dh) inPort = Some port"
      and a: "addFlowItemToUniPort env f port dh = Done (None, dh')"
      using assms(2) c i by (cases "map_of (h_uniEntityMap dh) inPort") (simp_all add: addFlow_def)
    obtain q where q: "flowVlan f = Done q"
      using a by (cases "flowVlan f") (simp_all add: addFlowItemToUniPort_def)
    show ?thesis
    proof (cases q)
      case (FlowVlan tp m s pcp)
      have v: "h_vlans dh (uniID port) = None"
        using a q FlowVlan by (cases "h_vlans dh (uniID port)") (simp_all add: addFlowItemToUniPort_def)
      with a q FlowVlan have "createVlanFilterFsm env port tp m s pcp OmciVlanFilterDone dh = (None, dh')"
        by (simp add: addFlowItemToUniPort_def)
      then obtain w where "h_vlans dh' = (h_vlans dh)(uniID port \<mapsto> (e_cc e, vlanStStarting, w))"
          "h_entry dh' = Some e" "frame dh' = frame dh"
        using createVlanFilterFsm_outcome [OF assms(1), of env port tp m s pcp OmciVlanFilterDone] assms(1) by auto
      moreover have "flowTarget dh f = Some (uniID port)"
        using c i n p q FlowVlan by (simp add: flowTarget_def)
      ultimately show ?thesis using v by blast
    qed (use a c i n p q in \<open>simp_all add: addFlowItemToUniPort_def flowTarget_def\<close>)
  qed
qed

text \<open>C17: a flow update that succeeds has started exactly one VLAN machine for every UNI port that
  one of its flows asks for; each of these UNIs had no machine before and is asked for by one flow
  only, and the machines of the other UNIs are left as they are. An update with two flows for one
  UNI port therefore fails, and so does one for a port whose machine is still there.\<close>

theorem one_vlan_machine_per_uni:
  assumes "h_entry dh = Some e" and "FlowUpdateIncremental env items dh = Done (None, dh')"
  shows "distinct (flowTargets dh items) \<and>
    list_all (\<lambda>u. h_vlans dh u = None \<and> (\<exists>w. h_vlans dh' u = Some (e_cc e, vlanStStarting, w)))
      (flowTargets dh items) \<and>
    (\<forall>u. u \<in> set (flowTargets dh items) \<or> h_vlans dh' u = h_vlans dh u) \<and> frame dh' = frame dh"
  using assms
proof (induction items arbitrary: dh)
  case Nil
  then show ?case by (simp add: flowTargets_def List.map_filter_simps)
next
  case (Cons f items)
  then obtain dh1 where a: "addFlow env f dh = Done (None, dh1)"
    and r: "FlowUpdateIncremental env items dh1 = Done (None, dh')"
    by (cases "addFlow env f dh") (auto split: option.splits)
  from addFlow_accepted [OF Cons.prems(1) a] show ?case
  proof (elim disjE exE conjE)
    assume "flowTarget dh f = None" "dh1 = dh"
    then show ?thesis
      using Cons.IH [OF Cons.prems(1)] r by (simp add: flowTargets_def List.map_filter_simps)
  next
    fix u w
    assume t: "flowTarget dh f = Some u" and v: "h_vlans dh u = None" and e: "h_entry dh1 = Some e"
      and fr: "frame dh1 = frame dh" and v1: "h_vlans dh1 = (h_vlans dh)(u \<mapsto> (e_cc e, vlanStStarting, w))"
    have ts: "flowTargets dh1 items = flowTargets dh items"
      by (simp add: flowTargets_def flowTarget_frame [OF fr])
    have tc: "flowTargets dh (f # items) = u # flowTargets dh items"
      by (simp add: flowTargets_def List.map_filter_simps t)
    note ih = Cons.IH [OF e r, unfolded ts]
    have u: "u \<notin> set (flowTargets dh items)"
      using ih v1 by (auto simp: list_all_iff)
    then have "h_vlans dh' u = Some (e_cc e, vlanStStarting, w)"
      using ih v1 by auto
    moreover have o: "h_vlans dh x = h_vlans dh1 x" if "x \<noteq> u" for x
      using that v1 by simp
    moreover have "h_vlans dh x = None" if "x \<in> set (flowTargets dh items)" for x
      using that u ih o [of x] by (auto simp: list_all_iff)
    ultimately show ?thesis
      using ih u v fr unfolding tc by (auto simp: list_all_iff)
  qed
qed

text \<open>Two flows for different UNI ports of one device.\<close>

definition example_ports :: deviceHandler where
  "example_ports = example_adopted\<lparr>h_uniEntityMap := [(4144, newOnuUniPort 0 4144 257 uniPPTP),
     (4145, newOnuUniPort 1 4145 258 uniPPTP)]\<rparr>"

lemma example_ports_parts:
  "h_entry example_ports \<noteq> None \<and> h_vlans example_ports u = None \<and> h_ponPortNumber example_ports = 5"
  using example_adopted_parts
  unfolding example_ports_def example_adopted_def adoptOrReconcileDevice_def
  by (simp add: fireDev_init example_defs Let_def)

lemma example_flow_inPort: "GetInPort (example_flow inPort) = Done inPort \<and> Cookie (example_flow inPort) \<noteq> 0"
  by (simp add: GetInPort_def GetOfbFields_def example_flow_def Let_def)

lemma addFlow_example:
  assumes "h_entry dh = Some e" and "h_ponPortNumber dh = 5" and "map_of (h_uniEntityMap dh) inPort = Some port"
    and "h_vlans dh (uniID port) = None" and "inPort \<notin> {0, 5}"
  shows "\<exists>dh' m. addFlow env (example_flow inPort) dh = Done (None, dh') \<and> h_entry dh' = Some e \<and>
    frame dh' = frame dh \<and> h_vlans dh' = (h_vlans dh)(uniID port \<mapsto> m)"
proof -
  obtain dh' m where "createVlanFilterFsm env port 64 4096 200 3 OmciVlanFilterDone dh = (None, dh')"
      "h_vlans dh' = (h_vlans dh)(uniID port \<mapsto> m)" "h_entry dh' = Some e" "frame dh' = frame dh"
    using createVlanFilterFsm_outcome [OF assms(1), of env port 64 4096 200 3 OmciVlanFilterDone] assms(1) by auto
  then show ?thesis
    using assms(2-5) example_flow_inPort [of inPort]
    by (intro exI [of _ dh'] exI [of _ m])
      (simp add: addFlow_def OFPP_INVALID_def addFlowItemToUniPort_def example_flow_request)
qed

theorem one_vlan_machine_per_uni_witness:
  "\<exists>dh'. FlowUpdateIncremental example_env [example_flow 4144, example_flow 4145] example_ports = Done (None, dh') \<and>
     h_vlans dh' 0 \<noteq> None \<and> h_vlans dh' 1 \<noteq> None \<and> h_vlans dh' 2 = None"
proof -
  obtain e where e: "h_entry example_ports = Some e" using example_ports_parts by blast
  have m: "map_of (h_uniEntityMap example_ports) 4144 = Some (newOnuUniPort 0 4144 257 uniPPTP)"
    "map_of (h_uniEntityMap example_ports) 4145 = Some (newOnuUniPort 1 4145 258 uniPPTP)"
    by (simp_all add: example_ports_def)
  have u: "uniID (newOnuUniPort i n k t) = i" for i n k t by (simp add: newOnuUniPort_def Let_def)
  obtain d1 m1 where 1: "addFlow example_env (example_flow 4144) example_ports = Done (None, d1)" "h_entry d1 = Some e"
      "frame d1 = frame example_ports" "h_vlans d1 = (h_vlans example_ports)(0 \<mapsto> m1)"
    using addFlow_example [OF e _ m(1), of example_env] example_ports_parts u by auto
  then have f: "h_ponPortNumber d1 = 5" "map_of (h_uniEntityMap d1) 4145 = Some (newOnuUniPort 1 4145 258 uniPPTP)"
    using example_ports_parts m(2) by (simp_all add: frame_def)
  obtain d2 where 2: "addFlow example_env (example_flow 4145) d1 = Done (None, d2)"
    using addFlow_example [OF 1(2) f, of example_env] example_ports_parts u 1(4) by auto
  have r: "FlowUpdateIncremental example_env [example_flow 4144, example_flow 4145] example_ports = Done (None, d2)"
    using 1(1) 2 by simp
  have t: "flowTarget example_ports (example_flow 4144) = Some 0" "flowTarget example_ports (example_flow 4145) = Some 1"
    using example_flow_inPort example_ports_parts m u
    by (simp_all add: flowTarget_def example_flow_request OFPP_INVALID_def)
  then have ts: "flowTargets example_ports [example_flow 4144, example_flow 4145] = [0, 1]"
    by (simp add: flowTargets_def List.map_filter_simps)
  note o = one_vlan_machine_per_uni [OF e r, unfolded ts]
  have "h_vlans d2 2 = None"
    using o example_ports_parts [of 2] by (elim conjE allE [of _ 2]) simp
  then show ?thesis
    using o r by (intro exI [of _ d2]) (auto simp del: FlowUpdateIncremental.simps)
qed

end
