(* ===== verification/Adapter_Config.thy ===== *)
theory Adapter_Config
  imports Prelude
begin

text \<open>
  The configuration of the adapter and its command line (\<open>internal/pkg/config/config.go\<close>):
  the defaults, the table of flags, and Go's \<open>flag.Parse\<close> as far as it decides which values are
  set. Durations are nanoseconds. The conversions of integers and durations of Go's library are
  the parameter \<open>flagLib\<close>.
\<close>

section \<open>Flags and defaults\<close>

record adapterFlags =
  InstanceID :: string
  KafkaAdapterHost :: string
  KafkaAdapterPort :: int
  KafkaClusterHost :: string
  KafkaClusterPort :: int
  KVStoreType :: string
  KVStoreTimeout :: int
  KVStoreHost :: string
  KVStorePort :: int
  Topic :: string
  CoreTopic :: string
  EventTopic :: string
  LogLevel :: string
  OnuNumber :: int
  Banner :: bool
  DisplayVersionOnly :: bool
  AccIncrEvto :: bool
  ProbeHost :: string
  ProbePort :: int
  LiveProbeInterval :: int
  NotLiveProbeInterval :: int
  HeartbeatCheckInterval :: int
  HeartbeatFailReportInterval :: int
  KafkaReconnectRetries :: int
  CurrentReplica :: int
  TotalReplicas :: int

definition Second :: int where "Second = 1000000000"

definition NewAdapterFlags :: adapterFlags where
  "NewAdapterFlags =
     \<lparr>InstanceID = ''epononu'', KafkaAdapterHost = ''172.30.254.100'', KafkaAdapterPort = 9092,
      KafkaClusterHost = ''172.30.254.100'', KafkaClusterPort = 9092, KVStoreType = ''etcd'',
      KVStoreTimeout = 5 * Second, KVStoreHost = ''localhost'', KVStorePort = 2379,
      Topic = ''epononu'', CoreTopic = ''rwcore'', EventTopic = ''voltha.events'',
      LogLevel = ''DEBUG'', OnuNumber = 1, Banner = False, DisplayVersionOnly = False,
      AccIncrEvto = False, ProbeHost = [], ProbePort = 8080, LiveProbeInterval = 60 * Second,
      NotLiveProbeInterval = 5 * Second, HeartbeatCheckInterval = 30 * Second,
      HeartbeatFailReportInterval = 180 * Second, KafkaReconnectRetries = -1, CurrentReplica = 1,
      TotalReplicas = 1\<rparr>"

text \<open>A flag: its default and how it sets its field.\<close>

datatype flagVar =
    StringVar string "string \<Rightarrow> adapterFlags \<Rightarrow> adapterFlags"
  | IntVar int "int \<Rightarrow> adapterFlags \<Rightarrow> adapterFlags"
  | DurationVar int "int \<Rightarrow> adapterFlags \<Rightarrow> adapterFlags"
  | BoolVar bool "bool \<Rightarrow> adapterFlags \<Rightarrow> adapterFlags"

definition flagTable :: "(string \<times> flagVar) list" where
  "flagTable =
     [(''kafka_adapter_host'', StringVar ''172.30.254.100'' (\<lambda>v so. so\<lparr>KafkaAdapterHost := v\<rparr>)),
      (''kafka_adapter_port'', IntVar 9092 (\<lambda>v so. so\<lparr>KafkaAdapterPort := v\<rparr>)),
      (''kafka_cluster_host'', StringVar ''172.30.254.100'' (\<lambda>v so. so\<lparr>KafkaClusterHost := v\<rparr>)),
      (''kafka_cluster_port'', IntVar 9092 (\<lambda>v so. so\<lparr>KafkaClusterPort := v\<rparr>)),
      (''adapter_topic'', StringVar ''epononu'' (\<lambda>v so. so\<lparr>Topic := v\<rparr>)),
      (''core_topic'', StringVar ''rwcore'' (\<lambda>v so. so\<lparr>CoreTopic := v\<rparr>)),
      (''event_topic'', StringVar ''voltha.events'' (\<lambda>v so. so\<lparr>EventTopic := v\<rparr>)),
      (''kv_store_type'', StringVar ''etcd'' (\<lambda>v so. so\<lparr>KVStoreType := v\<rparr>)),
      (''kv_store_request_timeout'', DurationVar (5 * Second) (\<lambda>v so. so\<lparr>KVStoreTimeout := v\<rparr>)),
      (''kv_store_host'', StringVar ''localhost'' (\<lambda>v so. so\<lparr>KVStoreHost := v\<rparr>)),
      (''kv_store_port'', IntVar 2379 (\<lambda>v so. so\<lparr>KVStorePort := v\<rparr>)),
      (''log_level'', StringVar ''DEBUG'' (\<lambda>v so. so\<lparr>LogLevel := v\<rparr>)),
      (''onu_number'', IntVar 1 (\<lambda>v so. so\<lparr>OnuNumber := v\<rparr>)),
      (''banner'', BoolVar False (\<lambda>v so. so\<lparr>Banner := v\<rparr>)),
      (''version'', BoolVar False (\<lambda>v so. so\<lparr>DisplayVersionOnly := v\<rparr>)),
      (''accept_incr_evto'', BoolVar False (\<lambda>v so. so\<lparr>AccIncrEvto := v\<rparr>)),
      (''probe_host'', StringVar [] (\<lambda>v so. so\<lparr>ProbeHost := v\<rparr>)),
      (''probe_port'', IntVar 8080 (\<lambda>v so. so\<lparr>ProbePort := v\<rparr>)),
      (''live_probe_interval'', DurationVar (60 * Second) (\<lambda>v so. so\<lparr>LiveProbeInterval := v\<rparr>)),
      (''not_live_probe_interval'', DurationVar (5 * Second) (\<lambda>v so. so\<lparr>NotLiveProbeInterval := v\<rparr>)),
      (''hearbeat_check_interval'', DurationVar (30 * Second) (\<lambda>v so. so\<lparr>HeartbeatCheckInterval := v\<rparr>)),
      (''hearbeat_fail_interval'', DurationVar (180 * Second) (\<lambda>v so. so\<lparr>HeartbeatFailReportInterval := v\<rparr>)),
      (''kafka_reconnect_retries'', IntVar (-1) (\<lambda>v so. so\<lparr>KafkaReconnectRetries := v\<rparr>)),
      (''current_replica'', IntVar 1 (\<lambda>v so. so\<lparr>CurrentReplica := v\<rparr>)),
      (''total_replica'', IntVar 1 (\<lambda>v so. so\<lparr>TotalReplicas := v\<rparr>))]"

text \<open>Registering a flag sets its field to the default.\<close>

fun registerFlag :: "flagVar \<Rightarrow> adapterFlags \<Rightarrow> adapterFlags" where
  "registerFlag (StringVar v f) so = f v so"
| "registerFlag (IntVar v f) so = f v so"
| "registerFlag (DurationVar v f) so = f v so"
| "registerFlag (BoolVar v f) so = f v so"

section \<open>The command line\<close>

record flagLib =
  fl_int :: "string \<Rightarrow> int option"
  fl_duration :: "string \<Rightarrow> int option"

text \<open>\<open>strconv.ParseBool\<close>.\<close>

definition ParseBool :: "string \<Rightarrow> bool option" where
  "ParseBool s =
     (if s \<in> {''1'', ''t'', ''T'', ''TRUE'', ''true'', ''True''} then Some True
      else if s \<in> {''0'', ''f'', ''F'', ''FALSE'', ''false'', ''False''} then Some False
      else None)"

fun setFlag :: "flagLib \<Rightarrow> flagVar \<Rightarrow> string \<Rightarrow> adapterFlags \<Rightarrow> adapterFlags option" where
  "setFlag lib (StringVar _ f) s so = Some (f s so)"
| "setFlag lib (IntVar _ f) s so = map_option (\<lambda>v. f v so) (fl_int lib s)"
| "setFlag lib (DurationVar _ f) s so = map_option (\<lambda>v. f v so) (fl_duration lib s)"
| "setFlag lib (BoolVar _ f) s so = map_option (\<lambda>v. f v so) (ParseBool s)"

fun isBoolFlag :: "flagVar \<Rightarrow> bool" where
  "isBoolFlag (BoolVar _ _) = True"
| "isBoolFlag _ = False"

text \<open>The name of an argument and its value, if there is an equals sign after its first character.\<close>

definition splitFlag :: "string \<Rightarrow> string \<times> string option" where
  "splitFlag s =
     (let n = takeWhile (\<lambda>c. c \<noteq> CHR ''='') (tl s); r = dropWhile (\<lambda>c. c \<noteq> CHR ''='') (tl s)
      in (take 1 s @ n, if r = [] then None else Some (tl r)))"

text \<open>An argument without its one or two leading minus signs; \<open>None\<close> when it ends the flags.\<close>

definition flagBody :: "string \<Rightarrow> string option" where
  "flagBody s =
     (if length s < 2 \<or> hd s \<noteq> CHR ''-'' then None
      else if s ! 1 = CHR ''-'' then (if length s = 2 then None else Some (drop 2 s))
      else Some (drop 1 s))"

text \<open>\<open>flag.Parse\<close>; the process ends at the first error.\<close>

datatype flag_error = BadFlagSyntax | FlagNotDefined string | NeedsArgument string | InvalidValue string

fun parseFlags :: "flagLib \<Rightarrow> string list \<Rightarrow> adapterFlags \<Rightarrow> flag_error + adapterFlags" where
  "parseFlags lib [] so = Inr so"
| "parseFlags lib (s # args) so =
     (case flagBody s of
        None \<Rightarrow> Inr so
      | Some body \<Rightarrow>
          if body = [] \<or> hd body = CHR ''-'' \<or> hd body = CHR ''='' then Inl BadFlagSyntax
          else
            (case splitFlag body of (name, value) \<Rightarrow>
               (case map_of flagTable name of
                  None \<Rightarrow> Inl (FlagNotDefined name)
                | Some fl \<Rightarrow>
                    (case (if isBoolFlag fl then Some (case value of None \<Rightarrow> ''true'' | Some v \<Rightarrow> v) else value) of
                       Some v \<Rightarrow>
                         (case setFlag lib fl v so of
                            None \<Rightarrow> Inl (InvalidValue name)
                          | Some so' \<Rightarrow> parseFlags lib args so')
                     | None \<Rightarrow>
                         (case args of
                            [] \<Rightarrow> Inl (NeedsArgument name)
                          | v # args' \<Rightarrow>
                              (case setFlag lib fl v so of
                                 None \<Rightarrow> Inl (InvalidValue name)
                               | Some so' \<Rightarrow> parseFlags lib args' so'))))))"

text \<open>\<open>HOSTNAME\<close>, empty when it is not set.\<close>

definition getContainerInfo :: "string option \<Rightarrow> string" where
  "getContainerInfo env = (case env of None \<Rightarrow> [] | Some s \<Rightarrow> s)"

definition ParseCommandArguments :: "flagLib \<Rightarrow> string list \<Rightarrow> string option \<Rightarrow> adapterFlags \<Rightarrow>
    flag_error + adapterFlags" where
  "ParseCommandArguments lib args hostname so =
     (case parseFlags lib args (fold (\<lambda>(n, fl). registerFlag fl) flagTable so) of
        Inl e \<Rightarrow> Inl e
      | Inr so1 \<Rightarrow>
          (let containerName = getContainerInfo hostname in
           Inr (if length containerName > 0 then so1\<lparr>InstanceID := containerName\<rparr> else so1)))"

section \<open>Properties\<close>

text \<open>One assignment as the flag \<open>--name=value\<close>, and what it sets.\<close>

definition renderFlag :: "string \<times> string \<Rightarrow> string" where
  "renderFlag = (\<lambda>(n, v). ''--'' @ n @ ''='' @ v)"

definition accepted :: "flagLib \<Rightarrow> string \<times> string \<Rightarrow> bool" where
  "accepted lib = (\<lambda>(n, v).
     (case map_of flagTable n of None \<Rightarrow> False | Some fl \<Rightarrow> setFlag lib fl v NewAdapterFlags \<noteq> None))"

definition assign :: "flagLib \<Rightarrow> string \<times> string \<Rightarrow> adapterFlags \<Rightarrow> adapterFlags" where
  "assign lib = (\<lambda>(n, v) so.
     (case map_of flagTable n of None \<Rightarrow> so | Some fl \<Rightarrow> the (setFlag lib fl v so)))"

lemma flag_names: "list_all (\<lambda>(n, fl). n \<noteq> [] \<and> hd n \<noteq> CHR ''-'' \<and> CHR ''='' \<notin> set n) flagTable"
  by (simp add: flagTable_def)

lemma flag_name:
  assumes "map_of flagTable n = Some fl"
  shows "n \<noteq> [] \<and> hd n \<noteq> CHR ''-'' \<and> hd n \<noteq> CHR ''='' \<and> CHR ''='' \<notin> set n"
proof -
  have "n \<noteq> [] \<and> hd n \<noteq> CHR ''-'' \<and> CHR ''='' \<notin> set n"
    using flag_names map_of_eq_Some_in_set [OF assms] by (auto simp: list_all_iff)
  then show ?thesis by (cases n) auto
qed

lemma splitFlag_render:
  assumes "n \<noteq> []" and "CHR ''='' \<notin> set n"
  shows "splitFlag (n @ ''='' @ v) = (n, Some v)"
proof -
  obtain c n' where n: "n = c # n'" using assms(1) by (cases n) auto
  have "takeWhile (\<lambda>c. c \<noteq> CHR ''='') (n' @ CHR ''='' # v) = n'"
    and "dropWhile (\<lambda>c. c \<noteq> CHR ''='') (n' @ CHR ''='' # v) = CHR ''='' # v"
    using assms(2) n by (auto simp: takeWhile_append dropWhile_append)
  then show ?thesis by (simp add: splitFlag_def n Let_def)
qed

lemma setFlag_accepts:
  "setFlag lib fl v so \<noteq> None \<Longrightarrow> setFlag lib fl v so' \<noteq> None"
  by (cases fl) auto

lemma parse_render:
  assumes "accepted lib a"
  shows "parseFlags lib (renderFlag a # args) so = parseFlags lib args (assign lib a so)"
proof -
  obtain n v fl where a: "a = (n, v)" "map_of flagTable n = Some fl" "setFlag lib fl v NewAdapterFlags \<noteq> None"
    using assms by (cases a) (auto simp: accepted_def split: option.splits)
  note n = flag_name [OF a(2)]
  obtain so' where s: "setFlag lib fl v so = Some so'"
    using setFlag_accepts [OF a(3)] by blast
  have "flagBody (renderFlag a) = Some (n @ ''='' @ v)"
    by (simp add: a(1) renderFlag_def flagBody_def)
  moreover have "hd (n @ ''='' @ v) = hd n" using n by simp
  ultimately show ?thesis
    using n splitFlag_render [of n v] s by (simp add: a(1,2) assign_def)
qed

lemma parse_renders:
  "list_all (accepted lib) as \<Longrightarrow> parseFlags lib (map renderFlag as) so = Inr (fold (assign lib) as so)"
  by (induction as arbitrary: so) (simp_all add: parse_render del: parseFlags.simps(2))

lemma register_defaults: "fold (\<lambda>(n, fl). registerFlag fl) flagTable so = NewAdapterFlags\<lparr>InstanceID := InstanceID so\<rparr>"
  by (simp add: flagTable_def NewAdapterFlags_def)

text \<open>C26: flags written as \<open>--name=value\<close> are read back, whatever the values look like: each
  sets its field, a later one overrides an earlier one, every field that none of them names has its
  default whatever it was before, and only the name of the container, if there is one, takes
  precedence, for the instance.\<close>

theorem command_line_roundtrip:
  assumes "list_all (accepted lib) as"
  shows "ParseCommandArguments lib (map renderFlag as) hostname so =
    (let so' = fold (assign lib) as (NewAdapterFlags\<lparr>InstanceID := InstanceID so\<rparr>) in
     Inr (if hostname \<in> {None, Some []} then so' else so'\<lparr>InstanceID := the hostname\<rparr>))"
  by (auto simp: ParseCommandArguments_def register_defaults parse_renders [OF assms] getContainerInfo_def
      Let_def split: option.splits)

theorem command_line_roundtrip_witness:
  "ParseCommandArguments \<lparr>fl_int = (\<lambda>s. map_option int (ParseUint s 10 63)), fl_duration = (\<lambda>s. None)\<rparr>
     [''--kv_store_host=etcd=1'', ''--probe_port=8081'', ''--accept_incr_evto=T'', ''--kv_store_host=-'']
     (Some ''pod-1'') NewAdapterFlags =
   Inr (NewAdapterFlags\<lparr>InstanceID := ''pod-1'', KVStoreHost := ''-'', ProbePort := 8081, AccIncrEvto := True\<rparr>)"
proof -
  let ?lib = "\<lparr>fl_int = (\<lambda>s. map_option int (ParseUint s 10 63)), fl_duration = (\<lambda>s. None)\<rparr> :: flagLib"
  let ?as = "[(''kv_store_host'', ''etcd=1''), (''probe_port'', ''8081''), (''accept_incr_evto'', ''T''),
     (''kv_store_host'', ''-'')]"
  have n: "ParseUint ''8081'' 10 63 = Some 8081"
    by (simp add: ParseUint_def char_digit_def Let_def)
  have a: "list_all (accepted ?lib) ?as"
    by (simp add: accepted_def flagTable_def n ParseBool_def del: not_None_eq)
  show ?thesis
    using command_line_roundtrip [OF a, of "Some ''pod-1''" NewAdapterFlags]
    by (simp add: renderFlag_def assign_def flagTable_def n ParseBool_def Let_def)
qed

end
