(* ===== verification/Open_Onu.thy ===== *)
theory Open_Onu
  imports Device_Events Adapter_Config
begin

text \<open>
  The adapter's interface to the core (\<open>openonu.go\<close>, \<open>openonuimpl.go\<close>). The handlers are
  objects the map of the adapter and the goroutines point to: \<open>ac_heap\<close> holds them, the map and
  the goroutines hold indices.
\<close>

section \<open>State\<close>

text \<open>\<open>mibDbVolatileDictImpl\<close> and the audit delay, as the table of supported machines has them.\<close>

definition mibDbVolatileDictImpl :: "string option" where "mibDbVolatileDictImpl = Some ''not_implemented''"

definition cMibAuditDelayImpl :: u16 where "cMibAuditDelayImpl = 0"

record activityDescr =
  databaseClass :: "string option"
  auditDelay :: u16

text \<open>Goroutines the adapter starts.\<close>

datatype acTask = GoAdopt nat | GoReEnable nat | GoReboot nat volthaDevice

record openONUAC =
  ac_heap :: "deviceHandler list"
  deviceHandlers :: "string \<rightharpoonup> nat"
  numOnus :: int
  ac_KVStoreHost :: string
  ac_KVStorePort :: int
  ac_KVStoreType :: string
  ac_KVStoreTimeout :: int
  ac_HeartbeatCheckInterval :: int
  ac_HeartbeatFailReportInterval :: int
  ac_AcceptIncrementalEvto :: bool
  pSupportedFsms :: "(string \<times> activityDescr) list"
  ac_tasks :: "acTask list"

datatype ac_error = NilDevice | HandlerNotFound string | AlreadyReconciledOrActive string
  | DeviceHandlerNotSet | UnImplemented | NonMatchingDeviceState | TpStoreError tp_error
  | HandlerIaError ia_error | FlowError flow_error

definition NewOpenONUAC :: "adapterFlags \<Rightarrow> openONUAC" where
  "NewOpenONUAC cfg =
     \<lparr>ac_heap = [], deviceHandlers = Map.empty, numOnus = OnuNumber cfg,
      ac_KVStoreHost = KVStoreHost cfg, ac_KVStorePort = KVStorePort cfg,
      ac_KVStoreType = KVStoreType cfg, ac_KVStoreTimeout = KVStoreTimeout cfg,
      ac_HeartbeatCheckInterval = HeartbeatCheckInterval cfg,
      ac_HeartbeatFailReportInterval = HeartbeatFailReportInterval cfg,
      ac_AcceptIncrementalEvto = AccIncrEvto cfg,
      pSupportedFsms = [(''mib-synchronizer'',
        \<lparr>databaseClass = mibDbVolatileDictImpl, auditDelay = cMibAuditDelayImpl\<rparr>)],
      ac_tasks = []\<rparr>"

text \<open>The environment of a handler: the switch for incremental rules is the adapter's.\<close>

definition acEnv :: "openONUAC \<Rightarrow> dhEnv \<Rightarrow> dhEnv" where
  "acEnv oo env = env\<lparr>de_acceptIncrementalEvto := ac_AcceptIncrementalEvto oo\<rparr>"

definition setHandler :: "nat \<Rightarrow> deviceHandler \<Rightarrow> openONUAC \<Rightarrow> openONUAC" where
  "setHandler p dh oo = oo\<lparr>ac_heap := (ac_heap oo)[p := dh]\<rparr>"

definition ac_go :: "acTask \<Rightarrow> openONUAC \<Rightarrow> openONUAC" where
  "ac_go t oo = oo\<lparr>ac_tasks := ac_tasks oo @ [t]\<rparr>"

section \<open>The map of the handlers\<close>

definition addDeviceHandlerToMap :: "nat \<Rightarrow> openONUAC \<Rightarrow> openONUAC" where
  "addDeviceHandlerToMap agent oo =
     (let d = hdDeviceID (h_ids (ac_heap oo ! agent)) in
      if deviceHandlers oo d = None
      then oo\<lparr>deviceHandlers := (deviceHandlers oo)(d \<mapsto> agent)\<rparr> else oo)"

definition getDeviceHandler :: "openONUAC \<Rightarrow> string \<Rightarrow> nat option" where
  "getDeviceHandler oo d = deviceHandlers oo d"

section \<open>Adoption and reconciliation\<close>

text \<open>
  The part of \<open>Adopt_device\<close> and \<open>Reconcile_device\<close> after the handler was not found: the lock
  of the map is free in between, so that another call may add a handler first.
\<close>

definition createHandler :: "bool \<Rightarrow> volthaDevice \<Rightarrow> openONUAC \<Rightarrow> openONUAC" where
  "createHandler reconciling device oo =
     (let p = length (ac_heap oo);
          oo1 = oo\<lparr>ac_heap := ac_heap oo @ [newDeviceHandler device]\<rparr>;
          oo2 = addDeviceHandlerToMap p oo1;
          oo3 = (if reconciling
                 then setHandler p ((ac_heap oo2 ! p)\<lparr>h_device := device, h_reconciling := True\<rparr>) oo2
                 else oo2)
      in ac_go (GoAdopt p) oo3)"

definition Adopt_device :: "volthaDevice option \<Rightarrow> openONUAC \<Rightarrow> ac_error option \<times> openONUAC" where
  "Adopt_device device oo =
     (case device of
        None \<Rightarrow> (Some NilDevice, oo)
      | Some d \<Rightarrow>
          if getDeviceHandler oo (dev_Id d) = None then (None, createHandler False d oo) else (None, oo))"

definition Reconcile_device :: "volthaDevice option \<Rightarrow> openONUAC \<Rightarrow> ac_error option \<times> openONUAC" where
  "Reconcile_device device oo =
     (case device of
        None \<Rightarrow> (Some NilDevice, oo)
      | Some d \<Rightarrow>
          if getDeviceHandler oo (dev_Id d) = None then (None, createHandler True d oo)
          else (Some (AlreadyReconciledOrActive (dev_Id d)), oo))"

section \<open>Requests for a device\<close>

definition Process_inter_adapter_message :: "dhEnv \<Rightarrow> (deviceHandler \<Rightarrow> deviceHandler) \<Rightarrow> tpRuns \<Rightarrow> string \<Rightarrow>
    interAdapterBody \<Rightarrow> openONUAC \<Rightarrow> (ac_error option \<times> openONUAC) outcome" where
  "Process_inter_adapter_message env meanwhile runs targetDevice body oo =
     (case getDeviceHandler oo targetDevice of
        None \<Rightarrow> Done (Some (HandlerNotFound targetDevice), oo)
      | Some p \<Rightarrow>
          bind_outcome (processInterAdapterMessage (acEnv oo env) meanwhile runs body (ac_heap oo ! p))
            (\<lambda>(err, dh). Done (map_option HandlerIaError err, setHandler p dh oo)))"

definition disableOnuFunc :: bool where "disableOnuFunc = True"

definition Disable_device :: "dhEnv \<Rightarrow> volthaDevice \<Rightarrow> openONUAC \<Rightarrow> ac_error option \<times> openONUAC" where
  "Disable_device env device oo =
     (case getDeviceHandler oo (dev_Id device) of
        None \<Rightarrow> (Some (HandlerNotFound (dev_Id device)), oo)
      | Some p \<Rightarrow>
          (let oo1 = setHandler p (snd (sendMsgToOlt (acEnv oo env) ''disable'' (ac_heap oo ! p))) oo in
           if disableOnuFunc then (None, oo1) else (Some (HandlerNotFound (dev_Id device)), oo1)))"

definition Reenable_device :: "dhEnv \<Rightarrow> volthaDevice \<Rightarrow> openONUAC \<Rightarrow> ac_error option \<times> openONUAC" where
  "Reenable_device env device oo =
     (case getDeviceHandler oo (dev_Id device) of
        None \<Rightarrow> (Some (HandlerNotFound (dev_Id device)), oo)
      | Some p \<Rightarrow>
          (let oo1 = setHandler p (snd (sendMsgToOlt (acEnv oo env) ''reenable'' (ac_heap oo ! p))) oo in
           if disableOnuFunc then (None, oo1) else (None, ac_go (GoReEnable p) oo1)))"

text \<open>The text of this error is not formatted.\<close>

definition Reboot_device :: "volthaDevice \<Rightarrow> openONUAC \<Rightarrow> ac_error option \<times> openONUAC" where
  "Reboot_device device oo =
     (case getDeviceHandler oo (dev_Id device) of
        None \<Rightarrow> (Some (HandlerNotFound ''#{device.Id}''), oo)
      | Some p \<Rightarrow> (None, ac_go (GoReboot p device) oo))"

text \<open>The handler of a deleted device stays in the map.\<close>

definition Delete_device :: "bool \<Rightarrow> volthaDevice \<Rightarrow> 'b kv_read \<times> openONUAC \<Rightarrow>
    (ac_error option \<times> 'b kv_read \<times> openONUAC) outcome" where
  "Delete_device ok device w =
     (case w of (kv, oo) \<Rightarrow>
        (case getDeviceHandler oo (dev_Id device) of
           None \<Rightarrow> Done (Some (HandlerNotFound (dev_Id device)), kv, oo)
         | Some p \<Rightarrow>
             bind_outcome (deleteDevice ok kv (ac_heap oo ! p))
               (\<lambda>(err, kv'). Done (map_option TpStoreError err, kv', oo))))"

definition disableUpdateFlows :: bool where "disableUpdateFlows = True"

definition Update_flows_incrementally :: "dhEnv \<Rightarrow> bool \<Rightarrow> volthaDevice \<Rightarrow> ofpFlowStats list \<Rightarrow> openONUAC \<Rightarrow>
    (ac_error option \<times> openONUAC) outcome" where
  "Update_flows_incrementally env isEnabled device toAdd oo =
     (if disableUpdateFlows then Done (None, oo)
      else if dev_ConnectStatus device \<noteq> Conn_REACHABLE \<or> \<not> isEnabled then Done (Some NonMatchingDeviceState, oo)
      else
        (case getDeviceHandler oo (dev_Id device) of
           None \<Rightarrow> Done (Some (HandlerNotFound (dev_Id device)), oo)
         | Some p \<Rightarrow>
             bind_outcome (FlowUpdateIncremental (acEnv oo env) toAdd (ac_heap oo ! p))
               (\<lambda>(err, dh). Done (map_option FlowError err, setHandler p dh oo))))"

text \<open>A goroutine of the adapter.\<close>

fun runAcTask :: "dhEnv \<Rightarrow> acTask \<Rightarrow> openONUAC \<Rightarrow> openONUAC" where
  "runAcTask env (GoAdopt p) oo = setHandler p (adoptOrReconcileDevice (acEnv oo env) (ac_heap oo ! p)) oo"
| "runAcTask env (GoReEnable p) oo = setHandler p (reEnableDevice (acEnv oo env) (ac_heap oo ! p)) oo"
| "runAcTask env (GoReboot p device) oo = setHandler p (snd (rebootDevice (acEnv oo env) device (ac_heap oo ! p))) oo"

section \<open>Requests that are not supported\<close>

definition Get_ofp_device_info :: ac_error where "Get_ofp_device_info = DeviceHandlerNotSet"

datatype unsupportedCall = Adapter_descriptor | Device_types | Health | Abandon_device | Self_test_device
  | Get_device_details | Update_flows_bulk | Update_pm_config | Receive_packet_out | Suppress_event
  | Unsuppress_event | Download_image | Get_image_download_status | Cancel_image_download
  | Activate_image_update | Revert_image_update | Enable_port | Disable_port | Child_device_lost
  | Start_omci_test | Get_ext_value

definition unsupported :: "unsupportedCall \<Rightarrow> openONUAC \<Rightarrow> ac_error option \<times> openONUAC" where
  "unsupported call oo = (Some UnImplemented, oo)"

end
