(* ===== verification/Adapter_Reach.thy ===== *)
theory Adapter_Reach
  imports Open_Onu Device_Props
begin

text \<open>
  The reachable states of the adapter: requests of the core and messages of the OLT adapter in any
  order, interleaved with the goroutines and with the steps of the handlers. Every handler of a
  reachable adapter is in a reachable state of its own.
\<close>

section \<open>A handler keeps its device\<close>

abbreviation dh_id :: "deviceHandler \<Rightarrow> string" where "dh_id dh \<equiv> hdDeviceID (h_ids dh)"

lemma id_machines: "machines_step dh dh' \<Longrightarrow> h_ids dh' = h_ids dh"
  by (rule frameD)

lemma id_core [simp]: "h_ids (snd (core env c dh)) = h_ids dh" "h_ids (notifyCore env c dh) = h_ids dh"
  "h_ids (dh_go ts dh) = h_ids dh" "h_ids (putCC p cc dh) = h_ids dh"
  by (simp_all add: core_def notifyCore_def dh_go_def putCC_def split: option.splits)

lemma id_addEntry [simp]: "h_ids (addOnuDeviceEntry env dh) = h_ids dh"
  by (simp add: addOnuDeviceEntry_def setOnuDeviceEntry_def split: option.splits)

lemma id_getEntry: "getOnuDeviceEntry env w dh = (e, dh') \<Longrightarrow> h_ids dh' = h_ids dh"
  by (auto simp: getOnuDeviceEntry_def Let_def split: if_splits)

lemma id_fireDev:
  assumes "dh_inv dh"
  shows "dh_id (snd (fireDev env n dh)) = dh_id dh"
proof (cases "h_devState dh = devStNull \<and> n = devEvDeviceInit")
  case True
  have "dh_id (snd (doStateInit env dh)) = dh_id dh"
    by (simp add: doStateInit_def Let_def core_def split: prod.splits)
  moreover have "dh_id (snd (dev_after env devEvDeviceInit d)) = dh_id d" for d
    by (simp add: postInit_def Let_def)
  ultimately show ?thesis using True by (simp add: fireDev_init)
next
  case False
  moreover have "h_devState dh \<in> {devStNull, devStInit}"
    using assms by (simp add: dh_inv_def)
  ultimately show ?thesis using fireDev_other [of dh n env] by auto
qed

lemma id_createInterface_start: "h_ids (snd (createInterface_start env ind dh)) = h_ids dh"
proof -
  let ?dh1 = "notifyCore env (DeviceStateUpdate Conn_REACHABLE Oper_ACTIVATING) (dh\<lparr>h_pOnuIndication := Some ind\<rparr>)"
  obtain en dh2 where g: "getOnuDeviceEntry env True ?dh1 = (en, dh2)" by fastforce
  then have "h_ids dh2 = h_ids dh" by (simp add: id_getEntry)
  then show ?thesis
    using g by (cases en) (simp_all add: createInterface_start_def startEntry_def Let_def)
qed

lemma id_updateInterface: "h_ids (snd (updateInterface env dh)) = h_ids dh"
proof (cases "h_entry dh")
  case None
  then show ?thesis by (simp add: updateInterface_def getOnuDeviceEntry_def)
next
  case (Some e)
  have "h_ids (disableUniPortStateUpdate (stopEntry (stopMachines env e dh))) = h_ids dh"
    using id_machines [OF machines_stopMachines [OF Some]]
    by (simp add: disableUniPortStateUpdate_def stopEntry_def)
  then show ?thesis
    by (auto simp: updateInterface_def getEntry_exists [OF Some] core_def Let_def split: bool.splits)
qed

lemma id_startUniLock: "h_ids (startUniLock env b ev' dh) = h_ids dh"
proof (cases "lockFsm b dh")
  case None
  have r: "h_ids (runUniLockFsm env b (setLockFsm b m d)) = h_ids d" for m d
    using id_machines [OF machines_runUniLock] by (simp add: setLockFsm_def)
  obtain en dh1 where g: "getOnuDeviceEntry env True dh = (en, dh1)" by fastforce
  then show ?thesis
    using id_getEntry [OF g] by (cases en) (simp_all add: startUniLock_def None createUniLockFsm_def r)
next
  case (Some m)
  obtain p s w where m: "m = (p, s, w)" by (cases m)
  show ?thesis
    using id_machines [OF machines_step_trans [OF machines_setSuccess machines_runUniLock]] Some
    by (simp add: startUniLock_def m)
qed

lemma id_addUniPort: "addUniPort env inst u ty dh = Done dh' \<Longrightarrow> h_ids dh' = h_ids dh"
  by (auto simp: addUniPort_def Let_def panic_simps split: if_splits)

lemma id_addUniPorts: "addUniPorts env ty keys (i, dh) = Done (j, dh') \<Longrightarrow> h_ids dh' = h_ids dh"
proof (induction keys arbitrary: i dh)
  case (Cons k keys)
  then show ?case by (auto simp: panic_simps dest!: id_addUniPort)
qed simp

lemma id_deviceProcStatusUpdate:
  assumes "deviceProcStatusUpdate env n dh = Done dh'"
  shows "h_ids dh' = h_ids dh"
proof (cases n)
  case MibDatabaseSync
  show ?thesis
    using assms unfolding MibDatabaseSync
    by (auto simp: processMibDatabaseSyncEvent_def addStoredPorts_def panic_simps
        dest!: id_addUniPorts id_machines [OF machines_startMibDownload])
qed (use assms in \<open>auto simp: processMibDownloadDoneEvent_def processUniUnlockStateDoneEvent_def
      processOmciAniConfigDoneEvent_def processOmciVlanFilterDoneEvent_def Let_def id_startUniLock\<close>)

lemma id_createVlanFilterFsm: "h_ids (snd (createVlanFilterFsm env port tp m s p ev' dh)) = h_ids dh"
proof -
  obtain en dh1 where g: "getOnuDeviceEntry env True dh = (en, dh1)" by fastforce
  then show ?thesis
    using id_getEntry [OF g] id_machines [OF machines_fireVlan]
    by (cases en) (auto simp: createVlanFilterFsm_def Let_def split: prod.splits)
qed

lemma id_addFlowItem:
  assumes "addFlowItemToUniPort env f port dh = Done (r, dh')"
  shows "h_ids dh' = h_ids dh"
proof -
  obtain q where q: "flowVlan f = Done q"
    using assms by (auto simp: addFlowItemToUniPort_def panic_simps)
  show ?thesis
  proof (cases q)
    case (FlowVlan tp m st p)
    have "dh' = dh \<or> dh' = snd (createVlanFilterFsm env port tp m st p OmciVlanFilterDone dh)"
      using assms q FlowVlan by (auto simp: addFlowItemToUniPort_def split: if_splits)
    then show ?thesis using id_createVlanFilterFsm by auto
  qed (use assms q in \<open>simp_all add: addFlowItemToUniPort_def\<close>)
qed

lemma id_addFlow:
  assumes "addFlow env f dh = Done (r, dh')"
  shows "h_ids dh' = h_ids dh"
proof -
  have "dh' = dh \<or> (\<exists>port. addFlowItemToUniPort env f port dh = Done (r, dh'))"
    using assms by (auto simp: addFlow_def panic_simps split: if_splits option.splits)
  then show ?thesis using id_addFlowItem by blast
qed

lemma id_omci:
  assumes "processInterAdapterOMCIReqMessage env body dh = Done (r, dh')"
  shows "h_ids dh' = h_ids dh"
proof (cases body)
  case None
  then show ?thesis using assms by (simp add: processInterAdapterOMCIReqMessage_def)
next
  case (Some msg)
  obtain en dh1 where g: "getOnuDeviceEntry env True dh = (en, dh1)" by fastforce
  show ?thesis
    using assms g id_getEntry [OF g]
    by (cases en) (auto simp: processInterAdapterOMCIReqMessage_def Some panic_simps case_prod_beta split: if_splits)
qed

lemma id_tp:
  "processInterAdapterTechProfileDownloadReqMessage runs body dh = Done (r, dh') \<Longrightarrow> h_ids dh' = h_ids dh"
  "h_ids (snd (processInterAdapterDeleteGemPortReqMessage body dh)) = h_ids dh"
  "h_ids (snd (processInterAdapterDeleteTcontReqMessage runs body dh)) = h_ids dh"
  by (auto simp: processInterAdapterTechProfileDownloadReqMessage_def processInterAdapterDeleteGemPortReqMessage_def
      processInterAdapterDeleteTcontReqMessage_def Let_def panic_simps
      split: option.splits if_splits prod.splits bool.splits)

lemma id_reconcileTp:
  assumes "reconcileDeviceTechProf runs dh = Done dh'"
  shows "h_ids dh' = h_ids dh"
proof -
  obtain tp where tp: "h_tp dh = Some tp"
    using assms by (cases "h_tp dh") (simp_all add: reconcileDeviceTechProf_def)
  show ?thesis
    using assms tp by (cases "PersUniTpPath (sOnuPersistentData tp)")
      (auto simp: reconcileDeviceTechProf_def panic_simps)
qed

lemma id_misc:
  "h_ids (disableDevice env dh) = h_ids dh" "h_ids (reEnableDevice env dh) = h_ids dh"
  "h_ids (snd (rebootDevice env device dh)) = h_ids dh" "h_ids (RemoveVlanFilterFsm_dh port dh) = h_ids dh"
  "h_ids (enableUniPortStateUpdate dh) = h_ids dh" "h_ids (snd (sendMsgToOlt env msg dh)) = h_ids dh"
  "verifyUniVlanConfigRequest env port dh = Done dh' \<Longrightarrow> h_ids dh' = h_ids dh"
  using id_machines [OF machines_fireVlan]
  by (auto simp: disableDevice_def reEnableDevice_def rebootDevice_def core_def sendMsgToOlt_def
      RemoveVlanFilterFsm_dh_def enableUniPortStateUpdate_def verifyUniVlanConfigRequest_def Let_def id_startUniLock
      split: bool.splits option.splits if_splits)

lemma id_step: "dh_step dh dh' \<Longrightarrow> dh_inv dh \<Longrightarrow> dh_id dh' = dh_id dh"
proof (induction rule: dh_step.induct)
  case (iface_sync env dh r dh')
  then show ?case by (metis id_machines machines_createInterface_sync)
qed (simp_all add: id_fireDev id_createInterface_start id_updateInterface id_deviceProcStatusUpdate
    id_addFlow id_omci id_tp id_reconcileTp id_misc id_machines)

section \<open>Runs of a handler\<close>

text \<open>Steps from any state; a reachable handler stays reachable and keeps its device.\<close>

abbreviation dh_steps :: "deviceHandler \<Rightarrow> deviceHandler \<Rightarrow> bool" where "dh_steps \<equiv> dh_step\<^sup>*\<^sup>*"

lemma dh_steps_reach: "dh_steps dh dh' \<Longrightarrow> dh_reach dh \<Longrightarrow> dh_reach dh' \<and> dh_id dh' = dh_id dh"
proof (induction rule: rtranclp_induct)
  case (step y z)
  then show ?case
    using reach_dh_step id_step dh_inv_reach by metis
qed simp

lemma steps_createInterface:
  assumes "createInterface env meanwhile ind dh = Done (r, dh')" and "\<And>d. dh_steps d (meanwhile d)"
  shows "dh_steps dh dh'"
proof -
  obtain b dh1 where s: "createInterface_start env ind dh = (b, dh1)" by fastforce
  have 1: "dh_steps dh dh1"
    using r_into_rtranclp [of dh_step, OF iface_start [of dh env ind]] s by simp
  show ?thesis
  proof (cases b)
    case False
    then show ?thesis using assms(1) s 1 by (simp add: createInterface_def)
  next
    case True
    then have "dh_step (meanwhile dh1) dh'"
      using assms(1) s iface_sync by (simp add: createInterface_def)
    with 1 assms(2) show ?thesis by (meson rtranclp.rtrancl_into_rtrancl rtranclp_trans)
  qed
qed

lemma steps_message:
  assumes "processInterAdapterMessage env meanwhile runs body dh = Done (r, dh')"
    and "\<And>d. dh_steps d (meanwhile d)"
  shows "dh_steps dh dh'"
proof (cases body)
  case (ONU_IND_REQUEST ind)
  show ?thesis
  proof (cases ind)
    case None
    then show ?thesis using assms(1) ONU_IND_REQUEST by (simp add: processInterAdapterONUIndReqMessage_def)
  next
    case (Some i)
    have "dh' = dh \<or> dh' = snd (updateInterface env dh) \<or> (\<exists>r. createInterface env meanwhile i dh = Done (r, dh'))"
      using assms(1) ONU_IND_REQUEST Some
      by (auto simp: processInterAdapterONUIndReqMessage_def panic_simps split: if_splits)
    then show ?thesis
      using steps_createInterface [OF _ assms(2)] iface_update by blast
  qed
next
  case (OMCI_REQUEST b)
  then show ?thesis using assms(1) omci by auto
next
  case (TECH_PROFILE_DOWNLOAD_REQUEST b)
  then show ?thesis using assms(1) tp_download by (auto simp: panic_simps)
next
  case (DELETE_GEM_PORT_REQUEST b)
  then show ?thesis
    using assms(1) tp_delete_gem [of dh b] by (cases "processInterAdapterDeleteGemPortReqMessage b dh") auto
next
  case (DELETE_TCONT_REQUEST b)
  then show ?thesis
    using assms(1) tp_delete_tcont [of dh runs b] by (cases "processInterAdapterDeleteTcontReqMessage runs b dh") auto
qed (use assms in simp)

section \<open>The steps of the adapter\<close>

text \<open>
  \<open>late\<close> is a call of \<open>Adopt_device\<close> or \<open>Reconcile_device\<close> that found no handler before another
  call added one.
\<close>

inductive ac_step :: "openONUAC \<Rightarrow> openONUAC \<Rightarrow> bool" where
  adopt: "ac_step oo (snd (Adopt_device device oo))"
| reconcile: "ac_step oo (snd (Reconcile_device device oo))"
| late: "ac_step oo (createHandler b d oo)"
| message: "Process_inter_adapter_message env meanwhile runs target body oo = Done (r, oo') \<Longrightarrow>
    (\<And>d. dh_steps d (meanwhile d)) \<Longrightarrow> ac_step oo oo'"
| disable_device: "ac_step oo (snd (Disable_device env d oo))"
| reenable_device: "ac_step oo (snd (Reenable_device env d oo))"
| reboot_device: "ac_step oo (snd (Reboot_device d oo))"
| delete_device: "Delete_device ok d (kv :: string kv_read, oo) = Done (r', kv', oo') \<Longrightarrow> ac_step oo oo'"
| update_flows: "Update_flows_incrementally env b d items oo = Done (r, oo') \<Longrightarrow> ac_step oo oo'"
| goroutine: "t \<in> set (ac_tasks oo) \<Longrightarrow>
    ac_step oo (runAcTask env t (oo\<lparr>ac_tasks := remove1 t (ac_tasks oo)\<rparr>))"
| handler: "p < length (ac_heap oo) \<Longrightarrow> dh_step (ac_heap oo ! p) dh' \<Longrightarrow> ac_step oo (setHandler p dh' oo)"

abbreviation ac_steps :: "openONUAC \<Rightarrow> openONUAC \<Rightarrow> bool" where "ac_steps \<equiv> ac_step\<^sup>*\<^sup>*"

fun task_ptr :: "acTask \<Rightarrow> nat" where
  "task_ptr (GoAdopt p) = p"
| "task_ptr (GoReEnable p) = p"
| "task_ptr (GoReboot p _) = p"

definition ac_inv :: "openONUAC \<Rightarrow> bool" where
  "ac_inv oo \<longleftrightarrow> list_all dh_reach (ac_heap oo) \<and>
     task_ptr ` set (ac_tasks oo) \<subseteq> {..< length (ac_heap oo)} \<and>
     (\<forall>d p. deviceHandlers oo d = Some p \<longrightarrow> p < length (ac_heap oo) \<and> dh_id (ac_heap oo ! p) = d)"

text \<open>What a step may do: add handlers, run the existing ones, and extend the map.\<close>

definition ac_ext :: "openONUAC \<Rightarrow> openONUAC \<Rightarrow> bool" where
  "ac_ext oo oo' \<longleftrightarrow> length (ac_heap oo) \<le> length (ac_heap oo') \<and> deviceHandlers oo \<subseteq>\<^sub>m deviceHandlers oo' \<and>
     (\<forall>p < length (ac_heap oo). dh_steps (ac_heap oo ! p) (ac_heap oo' ! p))"

lemma ac_ext_refl [simp]: "ac_ext oo oo"
  by (simp add: ac_ext_def)

lemma ac_ext_trans: "ac_ext a b \<Longrightarrow> ac_ext b c \<Longrightarrow> ac_ext a c"
  unfolding ac_ext_def by (meson map_le_trans order_less_le_trans order_trans rtranclp_trans)

lemma setHandler_steps:
  assumes "ac_inv oo" and "p < length (ac_heap oo)" and "dh_steps (ac_heap oo ! p) dh'"
  shows "ac_inv (setHandler p dh' oo) \<and> ac_ext oo (setHandler p dh' oo)"
proof -
  have r: "dh_reach (ac_heap oo ! p)"
    using assms(1,2) by (simp add: ac_inv_def list_all_length)
  have n: "dh_reach dh' \<and> dh_id dh' = dh_id (ac_heap oo ! p)"
    by (rule dh_steps_reach [OF assms(3) r])
  have "list_all dh_reach ((ac_heap oo)[p := dh'])"
    using assms(1,2) n by (simp add: ac_inv_def list_all_length nth_list_update)
  then have "ac_inv (setHandler p dh' oo)"
    using assms(1,2) n by (auto simp: ac_inv_def setHandler_def nth_list_update)
  moreover have "ac_ext oo (setHandler p dh' oo)"
    using assms(2,3) by (simp add: ac_ext_def setHandler_def nth_list_update)
  ultimately show ?thesis by simp
qed

lemma ac_go_steps: "ac_inv oo \<Longrightarrow> task_ptr t < length (ac_heap oo) \<Longrightarrow> ac_inv (ac_go t oo) \<and> ac_ext oo (ac_go t oo)"
  by (simp add: ac_inv_def ac_ext_def ac_go_def)

lemma createHandler_heap:
  "ac_heap (createHandler b d oo) = ac_heap oo @ [(newDeviceHandler d)\<lparr>h_reconciling := b\<rparr>]"
  by (cases b) (auto simp: createHandler_def addDeviceHandlerToMap_def setHandler_def ac_go_def
      newDeviceHandler_def Let_def nth_append)

lemma createHandler_map:
  "deviceHandlers (createHandler b d oo) =
     (if deviceHandlers oo (dev_Id d) = None then (deviceHandlers oo)(dev_Id d \<mapsto> length (ac_heap oo))
      else deviceHandlers oo)"
  by (auto simp: createHandler_def addDeviceHandlerToMap_def setHandler_def ac_go_def newDeviceHandler_def Let_def)

lemma createHandler_tasks: "ac_tasks (createHandler b d oo) = ac_tasks oo @ [GoAdopt (length (ac_heap oo))]"
  by (simp add: createHandler_def addDeviceHandlerToMap_def setHandler_def ac_go_def Let_def)

lemma createHandler_steps:
  assumes "ac_inv oo"
  shows "ac_inv (createHandler b d oo) \<and> ac_ext oo (createHandler b d oo)"
proof
  have "dh_id (newDeviceHandler d) = dev_Id d"
    by (simp add: newDeviceHandler_def)
  then show "ac_inv (createHandler b d oo)"
    using assms reach_new [where d = d and b = b]
    by (auto simp: ac_inv_def createHandler_heap createHandler_map createHandler_tasks nth_append)
      (metis less_SucI)+
  show "ac_ext oo (createHandler b d oo)"
    by (auto simp: ac_ext_def createHandler_heap createHandler_map nth_append map_le_def)
qed

lemma getDeviceHandler_ok:
  "ac_inv oo \<Longrightarrow> getDeviceHandler oo d = Some p \<Longrightarrow> p < length (ac_heap oo)"
  by (auto simp: ac_inv_def getDeviceHandler_def)

lemma getDeviceHandler_id:
  "ac_inv oo \<Longrightarrow> getDeviceHandler oo d = Some p \<Longrightarrow> dh_id (ac_heap oo ! p) = d"
  by (auto simp: ac_inv_def getDeviceHandler_def)

lemma ac_ext_getDeviceHandler:
  "ac_ext oo oo' \<Longrightarrow> getDeviceHandler oo d = Some p \<Longrightarrow> getDeviceHandler oo' d = Some p"
  by (auto simp: ac_ext_def map_le_def getDeviceHandler_def dom_def)

lemma ac_step_ok: "ac_step oo oo' \<Longrightarrow> ac_inv oo \<Longrightarrow> ac_inv oo' \<and> ac_ext oo oo'"
proof (induction rule: ac_step.induct)
  case (adopt oo device)
  then show ?case by (auto simp: Adopt_device_def createHandler_steps split: option.splits)
next
  case (reconcile oo device)
  then show ?case by (auto simp: Reconcile_device_def createHandler_steps split: option.splits)
next
  case (late oo b d)
  then show ?case by (rule createHandler_steps)
next
  case (message env meanwhile runs target body oo r oo')
  show ?case
  proof (cases "getDeviceHandler oo target")
    case None
    then show ?thesis using message by (simp add: Process_inter_adapter_message_def)
  next
    case (Some p)
    then obtain e dh where m: "processInterAdapterMessage (acEnv oo env) meanwhile runs body (ac_heap oo ! p) = Done (e, dh)"
        "oo' = setHandler p dh oo"
      using message(1) by (auto simp: Process_inter_adapter_message_def panic_simps)
    show ?thesis
      using setHandler_steps [OF message(3) getDeviceHandler_ok [OF message(3) Some] steps_message [OF m(1) message(2)]]
      by (simp add: m(2))
  qed
next
  case (disable_device oo env d)
  then show ?case
    using setHandler_steps [OF disable_device getDeviceHandler_ok r_into_rtranclp [of dh_step, OF olt_message]]
    by (auto simp: Disable_device_def disableOnuFunc_def Let_def split: option.splits)
next
  case (reenable_device oo env d)
  then show ?case
    using setHandler_steps [OF reenable_device getDeviceHandler_ok r_into_rtranclp [of dh_step, OF olt_message]]
    by (auto simp: Reenable_device_def disableOnuFunc_def Let_def split: option.splits)
next
  case (reboot_device oo d)
  then show ?case
    using ac_go_steps [OF reboot_device] getDeviceHandler_ok [OF reboot_device]
    by (auto simp: Reboot_device_def split: option.splits)
next
  case (delete_device ok d kv oo r' kv' oo')
  then show ?case by (auto simp: Delete_device_def panic_simps split: option.splits)
next
  case (update_flows env b d items oo r oo')
  then show ?case by (simp add: Update_flows_incrementally_def disableUpdateFlows_def)
next
  case (goroutine t oo env)
  let ?oo = "oo\<lparr>ac_tasks := remove1 t (ac_tasks oo)\<rparr>"
  have "ac_inv ?oo"
    using goroutine set_remove1_subset [of t "ac_tasks oo"] by (auto simp: ac_inv_def)
  moreover have "task_ptr t < length (ac_heap ?oo)"
    using goroutine by (auto simp: ac_inv_def)
  moreover have "\<exists>dh'. runAcTask env t ?oo = setHandler (task_ptr t) dh' ?oo \<and>
      dh_steps (ac_heap ?oo ! task_ptr t) dh'"
    by (cases t) (auto simp: adoptOrReconcileDevice_def intro: fire_dev reenable reboot)
  moreover have "ac_ext oo ?oo" by (simp add: ac_ext_def)
  ultimately show ?case
    using setHandler_steps ac_ext_trans by metis
next
  case (handler p oo dh')
  then show ?case using setHandler_steps by blast
qed

lemma ac_steps_ok: "ac_steps oo oo' \<Longrightarrow> ac_inv oo \<Longrightarrow> ac_inv oo' \<and> ac_ext oo oo'"
proof (induction rule: rtranclp_induct)
  case (step y z)
  then show ?case using ac_step_ok ac_ext_trans by blast
qed simp

lemma ac_inv_new: "ac_inv (NewOpenONUAC cfg)"
  by (simp add: ac_inv_def NewOpenONUAC_def)

section \<open>Properties\<close>

text \<open>C21: in every reachable state of the adapter a device has at most one handler in the map, it is
  the handler made for this device, and no UNI port number of the device is announced twice by it.\<close>

theorem adapter_handlers:
  assumes "ac_steps (NewOpenONUAC cfg) oo" and "getDeviceHandler oo d = Some p"
  shows "p < length (ac_heap oo) \<and> dh_id (ac_heap oo ! p) = d \<and> distinct (announced (ac_heap oo ! p)) \<and>
    (getDeviceHandler oo d' = Some p) = (d' = d)"
proof -
  have i: "ac_inv oo"
    using ac_steps_ok [OF assms(1) ac_inv_new] by simp
  then have p: "p < length (ac_heap oo)" "dh_id (ac_heap oo ! p) = d"
    using assms(2) by (rule getDeviceHandler_ok, rule getDeviceHandler_id)
  then have "dh_inv (ac_heap oo ! p)"
    using i dh_inv_reach by (simp add: ac_inv_def list_all_length)
  moreover have "(getDeviceHandler oo d' = Some p) = (d' = d)"
    using getDeviceHandler_id [OF i] assms(2) by metis
  ultimately show ?thesis
    using p by (simp add: dh_inv_def ports_ok_def)
qed

definition example_adapter :: openONUAC where
  "example_adapter = snd (Adopt_device (Some example_device) (NewOpenONUAC NewAdapterFlags))"

lemma example_adapter_steps: "ac_steps (NewOpenONUAC NewAdapterFlags) example_adapter"
  unfolding example_adapter_def by (rule r_into_rtranclp, rule adopt)

lemma example_adapter_handler: "getDeviceHandler example_adapter ''onu-1'' = Some 0"
  by (simp add: example_adapter_def Adopt_device_def getDeviceHandler_def NewOpenONUAC_def createHandler_map
      example_device_def)

theorem adapter_handlers_witness:
  "dh_id (ac_heap example_adapter ! 0) = ''onu-1'' \<and> getDeviceHandler example_adapter ''onu-2'' \<noteq> Some 0"
  using adapter_handlers [OF example_adapter_steps example_adapter_handler, of "''onu-2''"] by simp

text \<open>C22: deleting a device removes its stored data only: its handler stays in the map for ever, so
  that whatever happens later, adopting the device again succeeds without doing anything, and
  reconciling it is refused.\<close>

theorem deleted_device_stays:
  assumes "ac_steps (NewOpenONUAC cfg) oo" and "getDeviceHandler oo (dev_Id d) = Some p"
    and "Delete_device ok d (kv, oo) = Done (None, kv', oo1)" and "ac_steps oo1 oo2"
  shows "getDeviceHandler oo2 (dev_Id d) = Some p \<and> Adopt_device (Some d) oo2 = (None, oo2) \<and>
    Reconcile_device (Some d) oo2 = (Some (AlreadyReconciledOrActive (dev_Id d)), oo2) \<and>
    dh_steps (ac_heap oo ! p) (ac_heap oo2 ! p)"
proof -
  have i: "ac_inv oo"
    using ac_steps_ok [OF assms(1) ac_inv_new] by simp
  have "oo1 = oo"
    using assms(2,3) by (auto simp: Delete_device_def panic_simps)
  then have e: "ac_ext oo oo2"
    using ac_steps_ok [OF assms(4)] i by simp
  then have "getDeviceHandler oo2 (dev_Id d) = Some p"
    using assms(2) by (rule ac_ext_getDeviceHandler)
  moreover have "dh_steps (ac_heap oo ! p) (ac_heap oo2 ! p)"
    using e getDeviceHandler_ok [OF i assms(2)] by (simp add: ac_ext_def)
  ultimately show ?thesis
    by (simp add: Adopt_device_def Reconcile_device_def)
qed

definition example_running :: openONUAC where
  "example_running = runAcTask example_env (GoAdopt 0) (example_adapter\<lparr>ac_tasks := remove1 (GoAdopt 0) (ac_tasks example_adapter)\<rparr>)"

lemma example_running_steps: "ac_steps (NewOpenONUAC NewAdapterFlags) example_running"
proof -
  have "GoAdopt 0 \<in> set (ac_tasks example_adapter)"
    by (simp add: example_adapter_def Adopt_device_def getDeviceHandler_def NewOpenONUAC_def createHandler_tasks)
  from rtranclp.rtrancl_into_rtrancl [OF example_adapter_steps goroutine [OF this]] show ?thesis
    by (simp add: example_running_def)
qed

lemma example_running_parts:
  "getDeviceHandler example_running ''onu-1'' = Some 0 \<and>
   h_tp (ac_heap example_running ! 0) = Some (newOnuUniTechProf True True)"
proof -
  have "ac_heap example_adapter = [newDeviceHandler example_device]"
    by (simp add: example_adapter_def Adopt_device_def getDeviceHandler_def NewOpenONUAC_def createHandler_heap
        newDeviceHandler_def)
  then show ?thesis
    using example_adapter_handler
    by (simp add: example_running_def setHandler_def getDeviceHandler_def acEnv_def)
      (simp add: adoptOrReconcileDevice_def fireDev_init example_defs Let_def)
qed

theorem deleted_device_stays_witness:
  "\<exists>oo1. Delete_device True example_device (KvBytes ''data'', example_running) = Done (None, KvNothing, oo1) \<and>
     Adopt_device (Some example_device) oo1 = (None, oo1) \<and> fst (Reconcile_device (Some example_device) oo1) \<noteq> None"
proof -
  have h: "getDeviceHandler example_running (dev_Id example_device) = Some 0"
    using example_running_parts by (simp add: example_device_def)
  have "hasOnuKVStore (newOnuUniTechProf True True)"
    by (simp add: newOnuUniTechProf_def)
  then have d: "Delete_device True example_device (KvBytes ''data'', example_running) = Done (None, KvNothing, example_running)"
    using example_running_parts h
    by (simp add: Delete_device_def deleteDevice_def deleteOnuTpPathKvStore_def deletePersistentData_def)
  show ?thesis
    using d deleted_device_stays [OF example_running_steps h d rtranclp.rtrancl_refl] by auto
qed

lemma adopt_announces:
  assumes "\<And>c. de_coreOk env c"
  shows "\<exists>d'. dev_Id d' = dev_Id d \<and> h_calls (adoptOrReconcileDevice env (newDeviceHandler d)) =
    [DeviceUpdate d', PonPortCreated (ponPort (dev_ParentPortNo d)) (dev_ParentId d)]"
proof -
  have n: "h_devState (newDeviceHandler d) = devStNull"
    by (simp add: newDeviceHandler_def)
  show ?thesis
    by (simp add: adoptOrReconcileDevice_def n fireDev_init)
      (simp add: doStateInit_def newDeviceHandler_def notifyCore_def core_def assms Let_def postInit_def
        addOnuDeviceEntry_def setOnuDeviceEntry_def)
qed

text \<open>C23: two concurrent adoptions of one device, both of which find no handler, make two handlers.
  Both announce the device and its PON port to the core, only the first is in the map, and no
  message, request or later adoption ever reaches the second.\<close>

theorem concurrent_adoptions:
  assumes "ac_steps (NewOpenONUAC cfg) oo" and "getDeviceHandler oo (dev_Id d) = None"
    and "\<And>c. de_coreOk env c" and "p = length (ac_heap oo)"
    and "oo3 = runAcTask env (GoAdopt (Suc p)) (runAcTask env (GoAdopt p)
      (createHandler False d (createHandler False d oo)))"
    and "ac_steps oo3 oo4"
  shows "h_calls (ac_heap oo3 ! p) = h_calls (ac_heap oo3 ! Suc p) \<and>
    (\<exists>d'. dev_Id d' = dev_Id d \<and> h_calls (ac_heap oo3 ! p) =
       [DeviceUpdate d', PonPortCreated (ponPort (dev_ParentPortNo d)) (dev_ParentId d)]) \<and>
    getDeviceHandler oo4 (dev_Id d) = Some p \<and> (\<forall>x. getDeviceHandler oo4 x \<noteq> Some (Suc p))"
proof -
  let ?oo2 = "createHandler False d (createHandler False d oo)"
  let ?h = "newDeviceHandler d" and ?env = "acEnv ?oo2 env"
  let ?h' = "adoptOrReconcileDevice ?env ?h"
  have inv2: "ac_inv ?oo2"
    using ac_steps_ok [OF assms(1) ac_inv_new] createHandler_steps by blast
  have "?h\<lparr>h_reconciling := False\<rparr> = ?h" by (simp add: newDeviceHandler_def)
  then have heap2: "ac_heap ?oo2 = ac_heap oo @ [?h, ?h]"
    by (simp add: createHandler_heap)
  have map2: "getDeviceHandler ?oo2 (dev_Id d) = Some p"
    using assms(2) by (simp add: getDeviceHandler_def createHandler_map assms(4))
  have oo3: "oo3 = setHandler (Suc p) ?h' (setHandler p ?h' ?oo2)"
    by (simp add: assms(4,5) setHandler_def acEnv_def heap2 nth_append)
  have s: "dh_steps ?h ?h'"
    by (auto simp: adoptOrReconcileDevice_def intro: fire_dev)
  have "ac_inv (setHandler p ?h' ?oo2) \<and> ac_ext ?oo2 (setHandler p ?h' ?oo2)"
    by (rule setHandler_steps [OF inv2]) (simp_all add: heap2 assms(4) s nth_append)
  moreover from this have "ac_inv oo3 \<and> ac_ext (setHandler p ?h' ?oo2) oo3"
    unfolding oo3 by (intro setHandler_steps) (simp_all add: setHandler_def heap2 assms(4) s nth_append nth_list_update)
  ultimately have i: "ac_inv oo4" "ac_ext ?oo2 oo4" "ac_ext oo3 oo4"
    using ac_steps_ok [OF assms(6)] ac_ext_trans by blast+
  have map4: "getDeviceHandler oo4 (dev_Id d) = Some p"
    using ac_ext_getDeviceHandler [OF i(2) map2] .
  have "Suc p < length (ac_heap ?oo2)" and "ac_heap ?oo2 ! Suc p = ?h"
    by (simp_all add: heap2 assms(4) nth_append)
  then have "dh_steps ?h (ac_heap oo4 ! Suc p)"
    using i(2) unfolding ac_ext_def by metis
  moreover have "dh_reach ?h" and "dh_id ?h = dev_Id d"
    using reach_new [where d = d and b = False] by (simp_all add: newDeviceHandler_def)
  ultimately have "dh_id (ac_heap oo4 ! Suc p) = dev_Id d"
    using dh_steps_reach by simp
  then have "getDeviceHandler oo4 x \<noteq> Some (Suc p)" for x
    using map4 getDeviceHandler_id [OF i(1)] by (metis n_not_Suc_n option.inject)
  moreover have "ac_heap oo3 ! p = ?h'" "ac_heap oo3 ! Suc p = ?h'"
    by (simp_all add: oo3 setHandler_def heap2 assms(4))
  moreover have "de_coreOk ?env c" for c
    using assms(3) by (simp add: acEnv_def)
  ultimately show ?thesis
    using adopt_announces [of ?env d] map4 by simp
qed

theorem concurrent_adoptions_witness:
  "\<exists>oo. h_calls (ac_heap oo ! 0) = h_calls (ac_heap oo ! 1) \<and> h_calls (ac_heap oo ! 1) \<noteq> [] \<and>
     getDeviceHandler oo ''onu-1'' = Some 0 \<and> (\<forall>x. getDeviceHandler oo x \<noteq> Some 1)"
proof -
  let ?oo = "NewOpenONUAC NewAdapterFlags"
  let ?oo3 = "runAcTask example_env (GoAdopt (Suc 0)) (runAcTask example_env (GoAdopt 0)
    (createHandler False example_device (createHandler False example_device ?oo)))"
  have n: "getDeviceHandler ?oo (dev_Id example_device) = None"
    by (simp add: getDeviceHandler_def NewOpenONUAC_def)
  have ok: "de_coreOk example_env c" for c by (simp add: example_env_def)
  have l: "0 = length (ac_heap ?oo)" by (simp add: NewOpenONUAC_def)
  show ?thesis
    using concurrent_adoptions [OF rtranclp.rtrancl_refl n ok l refl rtranclp.rtrancl_refl]
    by (intro exI [of _ ?oo3]) (auto simp: example_device_def)
qed

end
