(* ===== verification/Adapter_Main.thy ===== *)
theory Adapter_Main
  imports Open_Onu "HOL-Library.Signed_Division"
begin

text \<open>
  The process (\<open>cmd/epononu-adapter/main.go\<close>): the start-up of the adapter with its retry loops
  and probe statuses, the supervision of the key-value store and of Kafka, and the exit. The
  clients of the libraries are known by what their calls answer, \<open>mainWorld\<close>.
\<close>

section \<open>State\<close>

datatype serviceStatus = StatusUnknown | StatusRunning | StatusNotReady

record mainWorld =
  mw_kvClient :: "string \<Rightarrow> string \<Rightarrow> bool"
  mw_kipStart :: "nat \<Rightarrow> string option"
  mw_subscribe :: "string option"
  mw_register :: "nat \<Rightarrow> string option"

record voltaAdapter =
  va_Id :: string
  va_Vendor :: string
  va_Endpoint :: string
  va_Type :: string
  va_CurrentReplica :: "32 word"
  va_TotalReplicas :: "32 word"

text \<open>The goroutines of the supervision, and what the end of the process releases.\<close>

datatype supervisor = CheckKafkaReadiness | CheckKvStoreReadiness

datatype release = ReleaseAllReservations | CloseKvClient | StopProxy

record adapter =
  ad_instanceID :: string
  ad_config :: adapterFlags
  ad_kvClient :: "(string \<times> string \<times> int) option"
  ad_kafkaClient :: "string option"
  ad_kip :: "(string \<times> string) option"
  ad_iAdapter :: "openONUAC option"
  ad_subscribed :: "string option"
  ad_registered :: "voltaAdapter option"
  ad_halted :: bool
  ad_exitChannel :: "int list"
  ad_status :: "string \<rightharpoonup> serviceStatus"
  ad_supervisors :: "supervisor list"
  ad_released :: "release list"

definition newAdapter :: "adapterFlags \<Rightarrow> adapter" where
  "newAdapter cf =
     \<lparr>ad_instanceID = InstanceID cf, ad_config = cf, ad_kvClient = None, ad_kafkaClient = None,
      ad_kip = None, ad_iAdapter = None, ad_subscribed = None, ad_registered = None,
      ad_halted = False, ad_exitChannel = [], ad_status = Map.empty,
      ad_supervisors = [], ad_released = []\<rparr>"

text \<open>The probe: registering a service it does not know, and its readiness.\<close>

definition RegisterService :: "string list \<Rightarrow> adapter \<Rightarrow> adapter" where
  "RegisterService names a =
     a\<lparr>ad_status := fold (\<lambda>n s. if s n = None then s(n \<mapsto> StatusUnknown) else s) names (ad_status a)\<rparr>"

definition UpdateStatus :: "string \<Rightarrow> serviceStatus \<Rightarrow> adapter \<Rightarrow> adapter" where
  "UpdateStatus n st a = a\<lparr>ad_status := (ad_status a)(n \<mapsto> st)\<rparr>"

definition isReady :: "adapter \<Rightarrow> bool" where
  "isReady a \<longleftrightarrow> ad_status a \<noteq> Map.empty \<and> ran (ad_status a) \<subseteq> {StatusRunning}"

section \<open>Clients\<close>

text \<open>\<open>host:port\<close>, with \<open>strconv.Itoa\<close>.\<close>

definition Itoa :: "int \<Rightarrow> string" where
  "Itoa n = (if n < 0 then CHR ''-'' # format_nat (nat (- n)) else format_nat (nat n))"

definition hostPort :: "string \<Rightarrow> int \<Rightarrow> string" where
  "hostPort host port = host @ '':'' @ Itoa port"

definition newKVClient :: "mainWorld \<Rightarrow> string \<Rightarrow> string \<Rightarrow> int \<Rightarrow> (string \<times> string \<times> int) option" where
  "newKVClient w storeType address timeout =
     (if (storeType = ''consul'' \<or> storeType = ''etcd'') \<and> mw_kvClient w storeType address
      then Some (storeType, address, timeout) else None)"

definition newKafkaClient :: "string \<Rightarrow> string \<Rightarrow> int \<Rightarrow> string option" where
  "newKafkaClient clientType host port =
     (if clientType = ''sarama'' then Some (hostPort host port) else None)"

definition setKVClient :: "mainWorld \<Rightarrow> adapter \<Rightarrow> bool \<times> adapter" where
  "setKVClient w a =
     (let c = newKVClient w (KVStoreType (ad_config a))
                (hostPort (KVStoreHost (ad_config a)) (KVStorePort (ad_config a))) (KVStoreTimeout (ad_config a))
      in (c \<noteq> None, a\<lparr>ad_kvClient := c\<rparr>))"

section \<open>Retry loops\<close>

lemma retry_pred:
  assumes "retries \<noteq> (cnt :: u64)"
  shows "unat (retries - (cnt + 1)) = unat (retries - cnt) - 1"
proof -
  have "unat ((retries - cnt) - 1) = unat (retries - cnt) - 1"
    using assms by (intro unat_minus_one) simp
  then show ?thesis by (simp only: diff_diff_eq)
qed

lemma retry_measure: "retries \<noteq> cnt \<Longrightarrow> unat (retries - (cnt + 1)) < unat (retries - cnt :: u64)"
  using retry_pred [of retries cnt] by (auto simp: unat_gt_0 intro!: diff_less)

text \<open>
  The loops of \<open>startInterContainerProxy\<close> and \<open>registerWithCore\<close>, with their 64-bit counter;
  \<open>attempt k\<close> is the error of the \<open>k\<close>-th call. The result is the last error and the number of
  calls. The default -1 is reached by the counter, too, after its wrap-around.
\<close>

function retryLoop :: "(nat \<Rightarrow> 'e option) \<Rightarrow> u64 \<Rightarrow> u64 \<Rightarrow> nat \<Rightarrow> 'e option \<times> nat" where
  "retryLoop attempt retries cnt k =
     (case attempt k of
        None \<Rightarrow> (None, Suc k)
      | Some err \<Rightarrow>
          if retries = cnt then (Some err, Suc k)
          else retryLoop attempt retries (cnt + 1) (Suc k))"
  by pat_completeness auto

termination
  by (relation "measure (\<lambda>(attempt, retries, cnt, k). unat (retries - cnt))") (simp_all add: retry_measure)

declare retryLoop.simps [simp del]

definition startInterContainerProxy :: "mainWorld \<Rightarrow> int \<Rightarrow> adapter \<Rightarrow> string option \<times> adapter" where
  "startInterContainerProxy w retries a =
     (case retryLoop (mw_kipStart w) (word_of_int retries) 0 0 of
        (Some err, _) \<Rightarrow> (Some err, a\<lparr>ad_kip := None\<rparr>)
      | (None, _) \<Rightarrow>
          (None, UpdateStatus ''container-proxy'' StatusRunning
             (a\<lparr>ad_kip := Some (hostPort (KafkaAdapterHost (ad_config a)) (KafkaAdapterPort (ad_config a)),
                              Topic (ad_config a))\<rparr>)))"

definition startVolthaInterfaceAdapter :: "adapter \<Rightarrow> openONUAC" where
  "startVolthaInterfaceAdapter a = NewOpenONUAC (ad_config a)"

definition setupRequestHandler :: "mainWorld \<Rightarrow> adapter \<Rightarrow> string option \<times> adapter" where
  "setupRequestHandler w a =
     (case mw_subscribe w of
        Some err \<Rightarrow> (Some err, a)
      | None \<Rightarrow> (None, UpdateStatus ''core-request-handler'' StatusRunning
                        (a\<lparr>ad_subscribed := Some (Topic (ad_config a))\<rparr>)))"

definition adapterDescription :: "adapterFlags \<Rightarrow> voltaAdapter" where
  "adapterDescription cfg =
     \<lparr>va_Id = ''epononu_'' @ Itoa (CurrentReplica cfg), va_Vendor = ''VOLTHA EPON ONU'',
      va_Endpoint = ''epononu'', va_Type = ''epononu'',
      va_CurrentReplica = word_of_int (CurrentReplica cfg), va_TotalReplicas = word_of_int (TotalReplicas cfg)\<rparr>"

definition registerWithCore :: "mainWorld \<Rightarrow> int \<Rightarrow> adapter \<Rightarrow> string option \<times> adapter" where
  "registerWithCore w retries a =
     (case retryLoop (mw_register w) (word_of_int retries) 0 0 of
        (Some err, _) \<Rightarrow> (Some err, a)
      | (None, _) \<Rightarrow> (None, UpdateStatus ''register-with-core'' StatusRunning
                            (a\<lparr>ad_registered := Some (adapterDescription (ad_config a))\<rparr>)))"

section \<open>Start and stop\<close>

text \<open>The stage at which a fatal log message ends the process.\<close>

datatype startResult = Started | FatalAt string

definition checkServicesReadiness :: "adapter \<Rightarrow> adapter" where
  "checkServicesReadiness a =
     a\<lparr>ad_supervisors := ad_supervisors a @ [CheckKafkaReadiness, CheckKvStoreReadiness]\<rparr>"

definition ad_start :: "mainWorld \<Rightarrow> adapter \<Rightarrow> startResult \<times> adapter" where
  "ad_start w a0 =
     (let a1 = RegisterService [''message-bus'', ''kv-store'', ''container-proxy'', ''core-request-handler'',
                 ''register-with-core''] a0
      in (case setKVClient w a1 of
            (False, a2) \<Rightarrow> (FatalAt ''error-setting-kv-client'', a2)
          | (True, a2) \<Rightarrow>
              (let a3 = UpdateStatus ''kv-store'' StatusRunning a2;
                   client = newKafkaClient ''sarama'' (KafkaAdapterHost (ad_config a3)) (KafkaAdapterPort (ad_config a3));
                   a4 = UpdateStatus ''message-bus'' StatusRunning (a3\<lparr>ad_kafkaClient := client\<rparr>)
               in if client = None then (FatalAt ''Unsupported-common-client'', a3)
                  else
                    (case startInterContainerProxy w (KafkaReconnectRetries (ad_config a4)) a4 of
                       (Some _, a5) \<Rightarrow> (FatalAt ''error-starting-inter-container-proxy'', a5)
                     | (None, a5) \<Rightarrow>
                         (case setupRequestHandler w (a5\<lparr>ad_iAdapter := Some (startVolthaInterfaceAdapter a5)\<rparr>) of
                            (Some _, a6) \<Rightarrow> (FatalAt ''error-setting-core-request-handler'', a6)
                          | (None, a6) \<Rightarrow>
                              (case registerWithCore w (-1) a6 of
                                 (Some _, a7) \<Rightarrow> (FatalAt ''error-registering-with-core'', a7)
                               | (None, a7) \<Rightarrow> (Started, checkServicesReadiness a7)))))))"

definition ad_stop :: "adapter \<Rightarrow> adapter" where
  "ad_stop a =
     (let a1 = a\<lparr>ad_halted := True, ad_exitChannel := ad_exitChannel a @ [0]\<rparr>;
          a2 = (if ad_kvClient a1 \<noteq> None
                then a1\<lparr>ad_released := ad_released a1 @ [ReleaseAllReservations, CloseKvClient]\<rparr> else a1)
      in if ad_kip a2 \<noteq> None then a2\<lparr>ad_released := ad_released a2 @ [StopProxy]\<rparr> else a2)"

section \<open>Supervision\<close>

text \<open>
  \<open>checkKvStoreReadiness\<close>: the loop receives from its own channel or, when the timer runs out,
  asks for the connection and posts the answer. The intervals are positive, so that the timer of
  an iteration never runs out while an answer is waiting. \<open>ups\<close> are the answers.
\<close>

record kvCheck =
  kc_timeout :: int
  kc_chan :: "bool list"
  kc_waits :: "int list"
  kc_reports :: "serviceStatus list"

definition liveStatus :: "bool \<Rightarrow> serviceStatus" where
  "liveStatus liveliness = (if liveliness then StatusRunning else StatusNotReady)"

definition kvReport :: "adapterFlags \<Rightarrow> bool \<Rightarrow> kvCheck \<Rightarrow> kvCheck" where
  "kvReport cfg liveliness s =
     s\<lparr>kc_reports := kc_reports s @ [liveStatus liveliness],
       kc_timeout := (if \<not> liveliness then NotLiveProbeInterval cfg else LiveProbeInterval cfg sdiv 2)\<rparr>"

function kvLoop :: "adapterFlags \<Rightarrow> bool list \<Rightarrow> kvCheck \<Rightarrow> kvCheck" where
  "kvLoop cfg ups s =
     (case kc_chan s of
        liveliness # rest \<Rightarrow> kvLoop cfg ups (kvReport cfg liveliness (s\<lparr>kc_chan := rest\<rparr>))
      | [] \<Rightarrow>
          (case ups of
             [] \<Rightarrow> s
           | up # ups' \<Rightarrow> kvLoop cfg ups' (s\<lparr>kc_chan := [up], kc_waits := kc_waits s @ [kc_timeout s]\<rparr>)))"
  by pat_completeness auto

termination
  by (relation "measure (\<lambda>(cfg, ups, s). 2 * length ups + length (kc_chan s))") (simp_all add: kvReport_def)

declare kvLoop.simps [simp del]

definition checkKvStoreReadiness :: "adapterFlags \<Rightarrow> bool list \<Rightarrow> kvCheck" where
  "checkKvStoreReadiness cfg ups =
     kvLoop cfg ups \<lparr>kc_timeout = LiveProbeInterval cfg sdiv 2, kc_chan = [False], kc_waits = [], kc_reports = []\<rparr>"

text \<open>
  \<open>checkKafkaReadiness\<close> for the messages of the two channels and the expired timers, in order:
  the status, the interval, the number of probes sent; an unhealthy service ends the process.
\<close>

datatype kafkaEvent = Healthiness bool | Liveliness bool | TimerExpired

fun checkKafkaReadiness :: "adapterFlags \<Rightarrow> kafkaEvent list \<Rightarrow> serviceStatus list \<times> int \<times> nat \<Rightarrow>
    bool \<times> serviceStatus list \<times> int \<times> nat" where
  "checkKafkaReadiness cfg [] s = (True, s)"
| "checkKafkaReadiness cfg (Healthiness healthiness # es) s =
     (if \<not> healthiness then (False, s) else checkKafkaReadiness cfg es s)"
| "checkKafkaReadiness cfg (Liveliness liveliness # es) (reports, timeout, sent) =
     checkKafkaReadiness cfg es
       (reports @ [liveStatus liveliness],
        if \<not> liveliness then NotLiveProbeInterval cfg else LiveProbeInterval cfg, sent)"
| "checkKafkaReadiness cfg (TimerExpired # es) (reports, timeout, sent) =
     checkKafkaReadiness cfg es (reports, timeout, Suc sent)"

section \<open>The process\<close>

definition getVerifiedCodeVersion :: "string \<Rightarrow> string option \<Rightarrow> string" where
  "getVerifiedCodeVersion version content =
     (if version = ''unknown-version'' then (case content of Some c \<Rightarrow> c | None \<Rightarrow> version) else version)"

datatype exitCause = ContextDone | SIGHUP | SIGINT | SIGTERM | SIGQUIT

text \<open>Other signals are not delivered to the channel.\<close>

fun waitForExit :: "exitCause \<Rightarrow> nat" where
  "waitForExit ContextDone = 2"
| "waitForExit _ = 0"

definition toUpper :: "char \<Rightarrow> char" where
  "toUpper c = (let n = of_char c :: nat in if 97 \<le> n \<and> n \<le> 122 then char_of (n - 32) else c)"

definition validLogLevel :: "string \<Rightarrow> bool" where
  "validLogLevel l \<longleftrightarrow> map toUpper l \<in> {''DEBUG'', ''INFO'', ''WARN'', ''ERROR'', ''FATAL''}"

text \<open>
  \<open>main\<close> when the start-up ends before the process is asked to end: its exit status and the
  adapter at the end. The code \<open>waitForExit\<close> returns is only logged.
\<close>

definition main_exit :: "mainWorld \<Rightarrow> flagLib \<Rightarrow> string list \<Rightarrow> string option \<Rightarrow> exitCause \<Rightarrow> nat \<times> adapter option" where
  "main_exit w lib args hostname cause =
     (case ParseCommandArguments lib args hostname NewAdapterFlags of
        Inl _ \<Rightarrow> (2, None)
      | Inr cf \<Rightarrow>
          if \<not> validLogLevel (LogLevel cf) then (1, None)
          else if DisplayVersionOnly cf then (0, None)
          else
            (case ad_start w (newAdapter cf) of
               (FatalAt _, a) \<Rightarrow> (1, Some a)
             | (Started, a) \<Rightarrow> (let code = waitForExit cause in (0, Some (ad_stop a)))))"

section \<open>The retry loops\<close>

lemma retryLoop_first:
  assumes "\<forall>i < n. attempt (k + i) \<noteq> None" and "n \<le> unat (retries - cnt)"
    and "attempt (k + n) = None"
  shows "retryLoop attempt retries cnt k = (None, Suc (k + n))"
  using assms
proof (induction n arbitrary: cnt k)
  case 0
  then show ?case by (subst retryLoop.simps) simp
next
  case (Suc n)
  have r: "retries \<noteq> cnt" using Suc.prems(2) by auto
  then have "unat (retries - (cnt + 1)) = unat (retries - cnt) - 1"
    by (rule retry_pred)
  then have "n \<le> unat (retries - (cnt + 1))" using Suc.prems(2) by simp
  moreover have "\<forall>i < n. attempt (Suc k + i) \<noteq> None"
    using Suc.prems(1) by (metis Suc_less_eq add_Suc_shift)
  ultimately have "retryLoop attempt retries (cnt + 1) (Suc k) = (None, Suc (Suc k + n))"
    using Suc.IH [of "Suc k"] Suc.prems(3) by simp
  moreover obtain e where "attempt k = Some e" using Suc.prems(1) by (metis add_0_right not_None_eq zero_less_Suc)
  ultimately show ?case using r by (subst retryLoop.simps) simp
qed

lemma retryLoop_fails:
  assumes "\<forall>i \<le> n. attempt (k + i) \<noteq> None" and "n = unat (retries - cnt)"
  shows "retryLoop attempt retries cnt k = (attempt (k + n), Suc (k + n))"
  using assms
proof (induction n arbitrary: cnt k)
  case 0
  then have "retries = cnt" by (metis eq_iff_diff_eq_0 unat_eq_zero)
  then show ?case using 0 by (subst retryLoop.simps) auto
next
  case (Suc n)
  have r: "retries \<noteq> cnt" using Suc.prems(2) by auto
  then have "n = unat (retries - (cnt + 1))"
    using retry_pred [OF r] Suc.prems(2) by simp
  moreover have "\<forall>i \<le> n. attempt (Suc k + i) \<noteq> None"
    using Suc.prems(1) by (metis Suc_le_mono add_Suc_shift)
  ultimately have "retryLoop attempt retries (cnt + 1) (Suc k) = (attempt (Suc k + n), Suc (Suc k + n))"
    using Suc.IH by blast
  moreover obtain e where "attempt k = Some e" using Suc.prems(1) by (metis add_0_right not_None_eq zero_le)
  ultimately show ?case using r by (subst retryLoop.simps) simp
qed

text \<open>The outcome of a loop that may fail \<open>n\<close> times before it gives up.\<close>

lemma retryLoop_outcome:
  fixes retries :: u64
  defines "n \<equiv> unat retries"
  shows "retryLoop attempt retries 0 0 =
    (if \<exists>k \<le> n. attempt k = None then (None, Suc (LEAST k. attempt k = None)) else (attempt n, Suc n))"
proof (cases "\<exists>k \<le> n. attempt k = None")
  case True
  let ?m = "LEAST k. attempt k = None"
  obtain k where k: "k \<le> n" "attempt k = None" using True by blast
  have "attempt ?m = None" by (rule LeastI [where P = "\<lambda>k. attempt k = None", OF k(2)])
  moreover have "\<forall>i < ?m. attempt (0 + i) \<noteq> None" using not_less_Least by fastforce
  moreover have "?m \<le> unat (retries - 0)"
    using Least_le [where P = "\<lambda>k. attempt k = None", OF k(2)] k(1) by (simp add: n_def)
  ultimately have "retryLoop attempt retries 0 0 = (None, Suc (0 + ?m))"
    by (intro retryLoop_first) simp_all
  then show ?thesis using True by simp
next
  case False
  then have "\<forall>i \<le> n. attempt (0 + i) \<noteq> None" by simp
  moreover have "n = unat (retries - 0)" by (simp add: n_def)
  ultimately have "retryLoop attempt retries 0 0 = (attempt (0 + n), Suc (0 + n))"
    by (rule retryLoop_fails)
  then show ?thesis using False by auto
qed

section \<open>Properties\<close>


lemma not_ready: "ad_status a n = Some StatusUnknown \<Longrightarrow> \<not> isReady a"
  by (auto simp: isReady_def ran_def)

lemma startInterContainerProxy_cases:
  "startInterContainerProxy w retries a =
     (if \<exists>k \<le> unat (word_of_int retries :: u64). mw_kipStart w k = None
      then (None, UpdateStatus ''container-proxy'' StatusRunning
             (a\<lparr>ad_kip := Some (hostPort (KafkaAdapterHost (ad_config a)) (KafkaAdapterPort (ad_config a)),
                              Topic (ad_config a))\<rparr>))
      else (mw_kipStart w (unat (word_of_int retries :: u64)), a\<lparr>ad_kip := None\<rparr>))"
  unfolding startInterContainerProxy_def retryLoop_outcome by (auto split: option.splits)

lemma registerWithCore_cases:
  "registerWithCore w (-1) a =
     (if \<exists>k < 2 ^ 64. mw_register w k = None
      then (None, UpdateStatus ''register-with-core'' StatusRunning
             (a\<lparr>ad_registered := Some (adapterDescription (ad_config a))\<rparr>))
      else (mw_register w (2 ^ 64 - 1), a))"
proof -
  have "unat (word_of_int (-1) :: u64) = 2 ^ 64 - 1"
    by (simp add: unsigned_minus_1_eq_mask mask_eq_exp_minus_1)
  moreover have "(\<exists>k \<le> 2 ^ 64 - 1. mw_register w k = None) = (\<exists>k < 2 ^ 64. mw_register w k = None)"
    by (simp add: less_eq_Suc_le [symmetric] less_Suc_eq_le [symmetric])
  ultimately show ?thesis
    unfolding registerWithCore_def retryLoop_outcome by (auto split: option.splits)
qed

text \<open>What the probe knows of the registration at the core.\<close>

lemma start_status:
  "case ad_start w (newAdapter cfg) of (r, a) \<Rightarrow>
     (r = Started \<longleftrightarrow> KVStoreType cfg \<in> {''consul'', ''etcd''} \<and>
        mw_kvClient w (KVStoreType cfg) (hostPort (KVStoreHost cfg) (KVStorePort cfg)) \<and>
        (\<exists>k \<le> unat (word_of_int (KafkaReconnectRetries cfg) :: u64). mw_kipStart w k = None) \<and>
        mw_subscribe w = None \<and> (\<exists>k < 2 ^ 64. mw_register w k = None)) \<and>
     (if r = Started then ad_registered a = Some (adapterDescription cfg) \<and>
        ad_subscribed a = Some (Topic cfg) \<and> ad_iAdapter a = Some (NewOpenONUAC cfg) \<and>
        ad_status a = [''message-bus'' \<mapsto> StatusRunning, ''kv-store'' \<mapsto> StatusRunning,
          ''container-proxy'' \<mapsto> StatusRunning, ''core-request-handler'' \<mapsto> StatusRunning,
          ''register-with-core'' \<mapsto> StatusRunning] \<and>
        ad_supervisors a = [CheckKafkaReadiness, CheckKvStoreReadiness] \<and>
        ad_kvClient a \<noteq> None \<and> ad_kip a \<noteq> None \<and> ad_released a = []
      else ad_registered a = None \<and> ad_supervisors a = [] \<and> ad_status a ''register-with-core'' = Some StatusUnknown)"
proof -
  let ?a1 = "RegisterService [''message-bus'', ''kv-store'', ''container-proxy'', ''core-request-handler'',
     ''register-with-core''] (newAdapter cfg)"
  have a1: "?a1 = (newAdapter cfg)\<lparr>ad_status := [''message-bus'' \<mapsto> StatusUnknown, ''kv-store'' \<mapsto> StatusUnknown,
      ''container-proxy'' \<mapsto> StatusUnknown, ''core-request-handler'' \<mapsto> StatusUnknown,
      ''register-with-core'' \<mapsto> StatusUnknown]\<rparr>"
    by (simp add: RegisterService_def newAdapter_def)
  let ?kv = "newKVClient w (KVStoreType cfg) (hostPort (KVStoreHost cfg) (KVStorePort cfg)) (KVStoreTimeout cfg)"
  let ?kip = "\<exists>k \<le> unat (word_of_int (KafkaReconnectRetries cfg) :: u64). mw_kipStart w k = None"
  let ?reg = "\<exists>k < 2 ^ 64. mw_register w k = None"
  have kv: "?kv \<noteq> None \<longleftrightarrow> KVStoreType cfg \<in> {''consul'', ''etcd''} \<and>
      mw_kvClient w (KVStoreType cfg) (hostPort (KVStoreHost cfg) (KVStorePort cfg))"
    by (simp add: newKVClient_def)
  note defs = setKVClient_def newAdapter_def newKafkaClient_def
    setupRequestHandler_def UpdateStatus_def startVolthaInterfaceAdapter_def checkServicesReadiness_def
  let ?R = "KafkaReconnectRetries cfg"
  have kipY: "startInterContainerProxy w ?R a = (None, UpdateStatus ''container-proxy'' StatusRunning
      (a\<lparr>ad_kip := Some (hostPort (KafkaAdapterHost (ad_config a)) (KafkaAdapterPort (ad_config a)), Topic (ad_config a))\<rparr>))"
    if ?kip for a using that unfolding startInterContainerProxy_cases by (rule if_P)
  have kipN: "\<exists>e. \<forall>a. startInterContainerProxy w ?R a = (Some e, a\<lparr>ad_kip := None\<rparr>)" if "\<not> ?kip"
    using that unfolding startInterContainerProxy_cases by (auto simp: if_not_P)
  have regY: "registerWithCore w (-1) a = (None, UpdateStatus ''register-with-core'' StatusRunning
      (a\<lparr>ad_registered := Some (adapterDescription (ad_config a))\<rparr>))" if ?reg for a
    using that unfolding registerWithCore_cases by (rule if_P)
  have regN: "\<exists>e. \<forall>a. registerWithCore w (-1) a = (Some e, a)" if "\<not> ?reg"
    using that unfolding registerWithCore_cases by (auto simp: if_not_P)
  consider "?kv = None" | "?kv \<noteq> None" "\<not> ?kip" | "?kv \<noteq> None" "?kip" "mw_subscribe w \<noteq> None"
    | "?kv \<noteq> None" "?kip" "mw_subscribe w = None" "\<not> ?reg" | "?kv \<noteq> None" "?kip" "mw_subscribe w = None" "?reg"
    by blast
  then show ?thesis
  proof cases
    case 1
    then show ?thesis
      using kv unfolding ad_start_def a1 Let_def by (simp add: defs) blast
  next
    case 2
    obtain e where "\<And>a. startInterContainerProxy w ?R a = (Some e, a\<lparr>ad_kip := None\<rparr>)"
      using kipN [OF 2(2)] by blast
    then show ?thesis
      using 2 kv unfolding ad_start_def a1 Let_def by (simp add: defs)
  next
    case 3
    then show ?thesis
      using kv kipY [OF 3(2)] unfolding ad_start_def a1 Let_def by (auto simp: defs)
  next
    case 4
    obtain e where "\<And>a. registerWithCore w (-1) a = (Some e, a)"
      using regN [OF 4(4)] by blast
    then show ?thesis
      using 4 kv kipY [OF 4(2)] unfolding ad_start_def a1 Let_def by (simp add: defs)
  next
    case 5
    then show ?thesis
      using kv kipY [OF 5(2)] regY [OF 5(4)] unfolding ad_start_def a1 Let_def
      by (simp add: defs) (simp add: fun_eq_iff)
  qed
qed

text \<open>C24: the start-up succeeds exactly when the store type is supported and its client can be made,
  Kafka answers within the configured retries, the topic can be subscribed and the core accepts
  the registration. Otherwise the process ends, and the probe has never been ready; the adapter is
  registered only when it serves requests with the handler made from the configuration, and the
  supervision of Kafka and of the store runs only then.\<close>

theorem start_exact:
  "case ad_start w (newAdapter cfg) of (r, a) \<Rightarrow>
     (r = Started \<longleftrightarrow> KVStoreType cfg \<in> {''consul'', ''etcd''} \<and>
        mw_kvClient w (KVStoreType cfg) (hostPort (KVStoreHost cfg) (KVStorePort cfg)) \<and>
        (\<exists>k \<le> unat (word_of_int (KafkaReconnectRetries cfg) :: u64). mw_kipStart w k = None) \<and>
        mw_subscribe w = None \<and> (\<exists>k < 2 ^ 64. mw_register w k = None)) \<and>
     isReady a = (r = Started) \<and>
     (if r = Started then ad_registered a = Some (adapterDescription cfg) \<and>
        ad_subscribed a = Some (Topic cfg) \<and> ad_iAdapter a = Some (NewOpenONUAC cfg) \<and>
        ad_supervisors a = [CheckKafkaReadiness, CheckKvStoreReadiness]
      else ad_registered a = None \<and> ad_supervisors a = [])"
proof -
  have "isReady a" if "ad_status a = [''message-bus'' \<mapsto> StatusRunning, ''kv-store'' \<mapsto> StatusRunning,
      ''container-proxy'' \<mapsto> StatusRunning, ''core-request-handler'' \<mapsto> StatusRunning,
      ''register-with-core'' \<mapsto> StatusRunning]" for a
    unfolding isReady_def that by (auto simp: ran_def fun_upd_def fun_eq_iff split: if_splits)
  then show ?thesis
    using start_status [of cfg w] not_ready [of _ "''register-with-core''"]
    by (auto split: prod.splits if_splits)
qed

text \<open>A process that ends without an error gives up its reservations, closes the store and stops the
  proxy, each once and in this order, whatever made it end; the status it returns is 0 then, also
  when the code \<open>waitForExit\<close> returns is 2.\<close>

lemma shutdown_complete:
  assumes "main_exit w lib args hostname cause = (0, Some a)"
  shows "ad_halted a \<and> ad_released a = [ReleaseAllReservations, CloseKvClient, StopProxy]"
proof -
  obtain cf a0 where "ad_start w (newAdapter cf) = (Started, a0)" and "a = ad_stop a0"
    using assms by (auto simp: main_exit_def split: sum.splits if_splits prod.splits startResult.splits)
  then show ?thesis
    using start_status [of cf w] by (auto simp: ad_stop_def Let_def)
qed

lemma kvLoop_empty:
  "kc_chan s = [] \<Longrightarrow>
   kc_reports (kvLoop cfg ups s) = kc_reports s @ map liveStatus ups \<and>
   kc_waits (kvLoop cfg ups s) = kc_waits s @ take (length ups) (kc_timeout s #
     map (\<lambda>up. if up then LiveProbeInterval cfg sdiv 2 else NotLiveProbeInterval cfg) ups) \<and>
   kc_chan (kvLoop cfg ups s) = []"
proof (induction ups arbitrary: s)
  case Nil
  then show ?case by (subst (1 2 3) kvLoop.simps) simp
next
  case (Cons up ups)
  let ?s = "kvReport cfg up (s\<lparr>kc_waits := kc_waits s @ [kc_timeout s], kc_chan := []\<rparr>)"
  have "kvLoop cfg (up # ups) s = kvLoop cfg ups (s\<lparr>kc_chan := [up], kc_waits := kc_waits s @ [kc_timeout s]\<rparr>)"
    using Cons.prems by (subst kvLoop.simps) simp
  also have "\<dots> = kvLoop cfg ups ?s"
    by (subst kvLoop.simps) simp
  finally have "kvLoop cfg (up # ups) s = kvLoop cfg ups ?s" .
  then show ?case
    using Cons.IH [of ?s] by (cases ups) (simp_all add: kvReport_def)
qed

text \<open>The supervision of the key-value store reports it as not ready first and then exactly the
  answers it gets, in order, and waits for the next answer half the interval of a live store, or
  the interval of a store that is not, after the answer before.\<close>

lemma kv_supervision:
  "kc_reports (checkKvStoreReadiness cfg ups) = map liveStatus (False # ups) \<and>
   kc_waits (checkKvStoreReadiness cfg ups) =
     map (\<lambda>up. if up then LiveProbeInterval cfg sdiv 2 else NotLiveProbeInterval cfg) (butlast (False # ups)) \<and>
   kc_chan (checkKvStoreReadiness cfg ups) = []"
proof -
  let ?s = "kvReport cfg False \<lparr>kc_timeout = LiveProbeInterval cfg sdiv 2, kc_chan = [], kc_waits = [], kc_reports = []\<rparr>"
  have "checkKvStoreReadiness cfg ups = kvLoop cfg ups ?s"
    unfolding checkKvStoreReadiness_def by (subst kvLoop.simps) simp
  moreover have "map f (butlast (False # ups)) = take (length ups) (f False # map f ups)" for f :: "bool \<Rightarrow> int"
    by (simp only: butlast_conv_take take_map [symmetric] list.map [symmetric]) simp
  ultimately show ?thesis
    using kvLoop_empty [of ?s cfg ups] by (simp add: kvReport_def del: butlast.simps)
qed

end
