(* ===== verification/Spec2Isabelle.thy ===== *)
theory Spec2Isabelle
  imports Platform Onu_List Me_Db Omci_Send Omci_Test Lock_Fsm Vlan_Config Ani_Config Mib_Upload Mib_Template
    Sync_Loop Download_Loop Ani_Loop Vlan_Loop Lock_Loop Vlan_Race Uni_Numbering Flow_Update Adapter_Reach Adapter_Main
begin

text \<open>
  The VOLTHA EPON ONU adapter: a Go process between the VOLTHA core, the OLT adapter and the
  optical network units (ONUs) of a passive optical network. It learns of an ONU from the OLT
  adapter, reads the ONU's management information base (MIB) with OMCI requests that the OLT
  adapter tunnels, configures the ONU, and reports devices, ports and states to the core.

  \<^bold>\<open>How the program works.\<close> \<open>main.go\<close> connects to Kafka and the key-value store and
  registers the adapter. The core calls the methods of \<open>openonu.go\<close>; each device has a handler
  (\<open>device_handler.go\<close>) with a device entry (\<open>onu_device_entry.go\<close>) that owns one OMCI
  channel (\<open>omci_cc.go\<close>) and the state machines that talk over it: MIB synchronisation
  (\<open>mib_sync.go\<close>), MIB download (\<open>mib_download.go\<close>), locking and unlocking of ports
  (\<open>uniportadmin.go\<close>), the ANI side of a tech profile (\<open>onu_uni_tp.go\<close>,
  \<open>omci_ani_config.go\<close>) and VLAN rules (\<open>omci_vlan_config.go\<close>). Every machine runs on the
  library \<open>looplab/fsm\<close>, is served from a Go channel by a goroutine of its own, and reports
  its end as an event to the handler, which starts the next machine.

  \<^bold>\<open>Common ground.\<close>
  \<^item> \<open>Prelude\<close>: Go integers as words, the outcome of a function that may panic (\<open>Done\<close>,
    \<open>Panic\<close>), the functions of the Go library that the sources use, and the shared
    rewrite rules (\<open>panic_simps\<close> and others).
  \<^item> \<open>Fsm\<close>: the event engine of \<open>looplab/fsm\<close>, with the locales \<open>fsm_machine\<close> and
    \<open>resettable_fsm\<close>; each machine of the adapter interprets them with its own table.
  \<^item> \<open>Served_Fsm\<close>: goroutines and Go channels of a machine (locale \<open>served_fsm\<close>): tasks
    run in any order, an abort message ends one serving goroutine. The invariant says how many
    goroutines serve a machine in each state. \<open>Config_Fsm\<close>: sending one instance after
    another and waiting for each response (locale \<open>config_phase\<close>).
  \<^item> \<open>Liveness\<close>: what happens on every run of a step relation.

  \<^bold>\<open>The OMCI channel.\<close> \<open>Omci_Msg\<close> is the vocabulary of \<open>messageTypes.go\<close> and the OMCI
  library; \<open>Omci_CC\<close> the state of \<open>omci_cc.go\<close> (transmit queue, two counters of
  transaction identifiers, registered callbacks), reception and transmission, and the step
  relation \<open>cc_step\<close> of the channel; \<open>Omci_Send\<close> every request method; \<open>Omci_Test\<close> the
  verification test of \<open>omci_test_request.go\<close> with its wait in \<open>createInterface\<close>. Shown: nothing
  is lost or reordered, a response is dispatched at most once, identifiers are unique within a
  window of 32767 draws of a priority (locale \<open>tid_source\<close>, interpreted for both counters).

  \<^bold>\<open>The machines.\<close> \<open>Me_Db\<close> is the MIB data base of \<open>onu_device_db.go\<close> (locale \<open>me_store\<close>);
  \<open>Mib_Sync\<close> the machine of \<open>mib_sync.go\<close>; \<open>Mib_Upload\<close> refines its upload to a map
  from class and instance to attributes; \<open>Mib_Template\<close> shows the round trip of a template.
  \<open>Device_Entry\<close> has the entry and the download; \<open>Lock_Fsm\<close>, \<open>Vlan_Config\<close>,
  \<open>Tech_Prof\<close> and \<open>Ani_Config\<close> the other machines with the values they put into requests.
  Shown for each: the transition table, what each entry action sends, the result of each loop
  of requests, and the accounting of its goroutines.

  \<^bold>\<open>Machines in the loop.\<close> \<open>Closed_Loop\<close> joins a machine, its channel and an ONU: requests
  go through the transmit queue and over the wire, answers come back as bytes through
  \<open>receiveMessage\<close> and the registered handler into the Go channel of the machine. The locale
  \<open>omci_client\<close> is the contract of the machine; \<open>Sync_Loop\<close> interprets it for the
  synchronisation. \<open>Phase_Loop\<close> takes the loops of requests of the other machines apart into their
  sends and waits (\<open>phase_step\<close>); its locale \<open>phased_machine\<close> gives \<open>omci_client\<close> by a
  \<open>sublocale\<close> and is interpreted in \<open>Download_Loop\<close>, \<open>Ani_Loop\<close>, \<open>Vlan_Loop\<close> and
  \<open>Lock_Loop\<close>. The ONU of these four accepts some requests and refuses others. Shown for each, by its
  \<open>outcome\<close>: on every run, whatever the order in which goroutines, channel and ONU make progress, the
  machine ends, and exactly its requests have gone over the wire, in order and with their
  attributes; or it halts after the first request that is refused (or is for a VEIP port, whose
  acknowledgement is dropped), has reported nothing, and only a goroutine that waits has a time limit left.
  \<open>Vlan_Race\<close> takes apart how the VLAN machine asks for the tech profile while the ANI machine
  reports it, and finds the interleavings that lose the report.

  \<^bold>\<open>Devices.\<close> \<open>Platform\<close> has port numbers and port objects (\<open>platform.go\<close>,
  \<open>onu_uni_port.go\<close>), \<open>Onu_List\<close> the status file and its watcher
  (\<open>onu_list_access.go\<close>, \<open>status.go\<close>; locale \<open>status_store\<close>). \<open>Device_Handler\<close> is the
  state of \<open>device_handler.go\<close>, its own machine and the frame in which the machines run (the
  channels in a list, since an entry that is started again gets a new channel that older machines do
  not see); \<open>Device_Ops\<close> and \<open>Device_Events\<close> are its operations, \<open>Flow_Item\<close> the
  evaluation of an OpenFlow item. \<open>Device_Reach\<close> is the step relation of a handler with its
  invariant; \<open>Device_Props\<close>, \<open>Uni_Numbering\<close> and \<open>Flow_Update\<close> show what indications,
  the synchronised MIB and flows lead to.

  \<^bold>\<open>The adapter.\<close> \<open>Open_Onu\<close> has the requests of \<open>openonu.go\<close> over the map of handlers,
  which are pointers into a list; \<open>Adapter_Reach\<close> the reachable states of the adapter, in which
  each handler is in a reachable state of its own; \<open>Adapter_Config\<close> the command line of
  \<open>config.go\<close>; \<open>Adapter_Main\<close> the start-up, its retry loops, the supervision and the end in
  \<open>main.go\<close>.

  \<^bold>\<open>Parameters.\<close> Code outside the repository's own sources is an argument of the definitions
  that use it: \<open>omciLib\<close> (what the OMCI library encodes, decodes and accepts), \<open>mibEnv\<close> (the
  key-value store, JSON, the printing of floats), \<open>dhEnv\<close> (the answers of the core, the OLT
  adapter and the stores, and how the tech profile goroutines end: \<open>tpRuns\<close>, \<open>meanwhile\<close>),
  \<open>flagLib\<close> (the conversions of the package \<open>flag\<close>), \<open>mainWorld\<close> (the clients that
  \<open>main.go\<close> starts). Where Go ranges over a map, the order is a parameter or the
  result is shown not to depend on it. A theorem that needs something of a parameter names it as
  a hypothesis (\<open>lib_complete\<close>: the library encodes what it is given; \<open>conforming\<close>: the
  ONU answers every request with its identifier and success; \<open>selective\<close>: with success or a refusal) and has a witness with a
  concrete function.

  \<^bold>\<open>Bounds.\<close> No definition uses fuel. Loops are structural recursions over the queue, the
  messages or the instances; the retry loop of \<open>main.go\<close> has the distance of its 64-bit counter to its
  limit as measure, and the supervision of the key-value store runs over the answers it gets. Widths are
  those of the source: 16-bit identifiers and instances, 32-bit ports and rule words, 64-bit
  counters. The closed loops have no clock: a wait ends with the response, and where none comes
  (\<open>Lock_Loop\<close>) the timeout is what follows when nothing else can happen; what late responses do
  is shown in \<open>Omci_Test\<close> for the verification test. They take the assignment of
  \<open>pLastTxMeInstance\<close> after a send as one step with it.

  \<^bold>\<open>Not modelled.\<close> Logging and its registration (\<open>common.go\<close>), the profiling switch and
  version output of the build, the mocks and tests (\<open>pkg/mocks\<close>), the clients of Kafka and etcd
  that the sources only call, \<open>setBackend\<close> (fills a structure of a library), the
  methods that only log (\<open>logMeDb\<close>, the states after an audit difference, \<open>stop\<close> of the
  channel), and code that exists only as a comment. Memory and data races between
  goroutines are outside the model: a step is as large as the source's operation on its channel
  or lock.
\<close>

end
